(* ===== verification/Prelude.thy ===== *)
theory Prelude
  imports Main "HOL-Library.Word"
begin

text \<open>
  What every component of the development shares: the machine integer types of the source, the
  result type in which every assertion, panic and undefined behaviour of the C++ is a value, the
  finite map that stands for \<^verbatim>\<open>std::unordered_map\<close> (with the iteration order left open, as the
  standard does), the round-robin scan that five of the device's units are written around, and
  the collections of rewrite rules the component proofs use.
\<close>

unbundle bit_operations_syntax

section \<open>Machine integers\<close>

type_synonym u8 = "8 word"
type_synonym u16 = "16 word"
type_synonym u32 = "32 word"
type_synonym u64 = "64 word"

section \<open>Results\<close>

text \<open>
  \<^verbatim>\<open>assert\<close> is on in the builds of the simulator that are used, so a failing assertion stops
  the program; \<^verbatim>\<open>panic\<close> and \<^verbatim>\<open>fatal\<close> stop it too. \<open>Undefined\<close> is a step the C++ standard gives
  no meaning to: a front of an empty queue, a null or freed pointer, an index out of range, the
  value of a variable never written.
\<close>

datatype err = Assert_failed string | Panicked string | Undefined string

type_synonym 'a res = "err + 'a"

definition ensure :: "bool \<Rightarrow> err \<Rightarrow> 'a res \<Rightarrow> 'a res" where
  "ensure c e k = (if c then k else Inl e)"

definition ebind :: "'a res \<Rightarrow> ('a \<Rightarrow> 'b res) \<Rightarrow> 'b res" where
  "ebind m f = (case m of Inl e \<Rightarrow> Inl e | Inr x \<Rightarrow> f x)"

named_theorems res_simps \<open>rewrite rules for results\<close>

lemma ensure_Inr [res_simps]: "ensure c e k = Inr x \<longleftrightarrow> c \<and> k = Inr x"
  by (simp add: ensure_def)

lemma ensure_True [simp]: "ensure True e k = k"
  by (simp add: ensure_def)

lemma ensure_False [simp]: "ensure False e k = Inl e"
  by (simp add: ensure_def)

lemma ebind_Inr_eq [simp]: "ebind (Inr x) f = f x"
  by (simp add: ebind_def)

lemma ebind_Inl_eq [simp]: "ebind (Inl e) f = Inl e"
  by (simp add: ebind_def)

lemma ebind_Inr [res_simps]: "ebind m f = Inr y \<longleftrightarrow> (\<exists>x. m = Inr x \<and> f x = Inr y)"
  by (cases m) simp_all

lemma ebind_Inl [res_simps]:
  "ebind m f = Inl e \<longleftrightarrow> m = Inl e \<or> (\<exists>x. m = Inr x \<and> f x = Inl e)"
  by (cases m) auto

lemma ensure_Inl [res_simps]: "ensure c e k = Inl e' \<longleftrightarrow> (if c then k = Inl e' else e' = e)"
  by (auto simp: ensure_def)

lemma if_Inr [res_simps]:
  "(if c then a else b) = Inr y \<longleftrightarrow> (c \<and> a = Inr y) \<or> (\<not> c \<and> b = Inr y)"
  by simp

text \<open>A sequence of fallible actions.\<close>

fun run_acts :: "('act \<Rightarrow> 'st \<Rightarrow> 'st res) \<Rightarrow> 'act list \<Rightarrow> 'st \<Rightarrow> 'st res" where
  "run_acts step [] st = Inr st"
| "run_acts step (a # as) st = ebind (step a st) (run_acts step as)"

text \<open>
  A service that answers requests in the order it got them: \<open>stream\<close> is what it has answered
  followed by what it still owes, and an action only ever appends what it asks for.
\<close>

locale in_order_service =
  fixes step :: "'act \<Rightarrow> 'st \<Rightarrow> 'st res"
    and asked :: "'act \<Rightarrow> 'r list"
    and answered owed :: "'st \<Rightarrow> 'r list"
    and invar :: "'st \<Rightarrow> bool"
  assumes step_law: "step a st = Inr st' \<Longrightarrow> invar st \<Longrightarrow>
      invar st' \<and> answered st' @ owed st' = answered st @ owed st @ asked a"
begin

lemma run_law:
  "run_acts step as st = Inr st' \<Longrightarrow> invar st \<Longrightarrow>
     invar st' \<and> answered st' @ owed st' = answered st @ owed st @ concat (map asked as)"
proof (induction as arbitrary: st)
  case (Cons a as)
  then obtain st1 where "step a st = Inr st1" "run_acts step as st1 = Inr st'"
    by (auto simp: ebind_Inr)
  with Cons step_law [of a st st1] show ?case by (metis append.assoc concat.simps(2) list.simps(9))
qed simp

lemma run_answers_prefix:
  "run_acts step as st = Inr st' \<Longrightarrow> invar st \<Longrightarrow> answered st = [] \<Longrightarrow> owed st = [] \<Longrightarrow>
     \<exists>rest. concat (map asked as) = answered st' @ rest"
  using run_law [of as st st'] by (intro exI [of _ "owed st'"]) simp

end

section \<open>Unordered maps\<close>

text \<open>
  A \<^verbatim>\<open>std::unordered_map\<close> as the list of its entries in iteration order. The standard leaves
  that order open; \<open>um_place\<close> says where a new key lands in it and no theorem assumes anything
  of it. \<open>um_emplace\<close> is \<^verbatim>\<open>emplace\<close> (no effect on a key that is present), \<open>um_assign\<close> is an
  assignment through \<^verbatim>\<open>operator[]\<close>, \<open>um_erase\<close> is \<^verbatim>\<open>erase\<close>.
\<close>

record ('k, 'v) umap =
  um_list :: "('k \<times> 'v) list"
  um_place :: "'k \<Rightarrow> 'k list \<Rightarrow> nat"

definition um_lookup :: "('k, 'v) umap \<Rightarrow> 'k \<Rightarrow> 'v option" where
  "um_lookup m = map_of (um_list m)"

definition um_size :: "('k, 'v) umap \<Rightarrow> nat" where
  "um_size m = length (um_list m)"

definition um_emplace :: "('k, 'v) umap \<Rightarrow> 'k \<Rightarrow> 'v \<Rightarrow> ('k, 'v) umap" where
  "um_emplace m k v =
     (if um_lookup m k \<noteq> None then m
      else let p = um_place m k (map fst (um_list m))
           in m\<lparr>um_list := take p (um_list m) @ (k, v) # drop p (um_list m)\<rparr>)"

definition um_assign :: "('k, 'v) umap \<Rightarrow> 'k \<Rightarrow> 'v \<Rightarrow> ('k, 'v) umap" where
  "um_assign m k v =
     (if um_lookup m k = None then um_emplace m k v
      else m\<lparr>um_list := map (\<lambda>(k', v'). if k' = k then (k', v) else (k', v')) (um_list m)\<rparr>)"

definition um_erase :: "('k, 'v) umap \<Rightarrow> 'k \<Rightarrow> ('k, 'v) umap" where
  "um_erase m k = m\<lparr>um_list := filter (\<lambda>p. fst p \<noteq> k) (um_list m)\<rparr>"

definition um_inv :: "('k, 'v) umap \<Rightarrow> bool" where
  "um_inv m \<longleftrightarrow> distinct (map fst (um_list m))"

definition um_empty :: "('k, 'v) umap" where
  "um_empty = \<lparr>um_list = [], um_place = (\<lambda>_ _. 0)\<rparr>"

text \<open>
  The contract the clients use: a finite partial function with the four operations, and its
  size. Everything the caches and the table of pending queue pairs need is proved once here.
\<close>

locale assoc_map =
  fixes lookup :: "'m \<Rightarrow> 'k \<Rightarrow> 'v option"
    and emplace :: "'m \<Rightarrow> 'k \<Rightarrow> 'v \<Rightarrow> 'm"
    and assign :: "'m \<Rightarrow> 'k \<Rightarrow> 'v \<Rightarrow> 'm"
    and erase :: "'m \<Rightarrow> 'k \<Rightarrow> 'm"
    and size_of :: "'m \<Rightarrow> nat"
    and invar :: "'m \<Rightarrow> bool"
  assumes lookup_emplace:
      "lookup (emplace m k v) = (if lookup m k = None then (lookup m)(k \<mapsto> v) else lookup m)"
    and lookup_assign: "lookup (assign m k v) = (lookup m)(k \<mapsto> v)"
    and lookup_erase: "lookup (erase m k) = (lookup m)(k := None)"
    and invar_emplace: "invar m \<Longrightarrow> invar (emplace m k v)"
    and invar_assign: "invar m \<Longrightarrow> invar (assign m k v)"
    and invar_erase: "invar m \<Longrightarrow> invar (erase m k)"
    and finite_dom: "finite (dom (lookup m))"
    and size_card: "invar m \<Longrightarrow> size_of m = card (dom (lookup m))"
begin

lemma size_emplace_new:
  "invar m \<Longrightarrow> lookup m k = None \<Longrightarrow> size_of (emplace m k v) = Suc (size_of m)"
  using finite_dom [of m] by (simp add: size_card invar_emplace lookup_emplace domIff)

lemma size_assign_old:
  "invar m \<Longrightarrow> lookup m k \<noteq> None \<Longrightarrow> size_of (assign m k v) = size_of m"
  using finite_dom [of m]
  by (simp add: size_card invar_assign lookup_assign insert_absorb domIff)

lemma size_erase_old:
  "invar m \<Longrightarrow> lookup m k \<noteq> None \<Longrightarrow> Suc (size_of (erase m k)) = size_of m"
proof -
  assume m: "invar m" and k: "lookup m k \<noteq> None"
  have "dom (lookup (erase m k)) = dom (lookup m) - {k}"
    by (auto simp: lookup_erase)
  moreover have "k \<in> dom (lookup m)" using k by (simp add: domIff)
  ultimately have "Suc (card (dom (lookup (erase m k)))) = card (dom (lookup m))"
    by (metis card_Suc_Diff1 finite_dom)
  then show ?thesis
    using m by (simp add: size_card invar_erase)
qed

text \<open>Replacing a victim by a new key keeps the size: what every full cache does.\<close>

lemma size_replace:
  assumes m: "invar m" and v: "lookup m victim \<noteq> None" and n: "lookup m k = None"
  shows "size_of (emplace (erase m victim) k x) = size_of m"
proof -
  from v n have "lookup (erase m victim) k = None" by (auto simp: lookup_erase)
  then have "size_of (emplace (erase m victim) k x) = Suc (size_of (erase m victim))"
    by (rule size_emplace_new [OF invar_erase [OF m]])
  also have "\<dots> = size_of m" by (rule size_erase_old [OF m v])
  finally show ?thesis .
qed

lemma lookup_replace:
  assumes "lookup m k = None"
  shows "lookup (emplace (erase m victim) k x) = (lookup m)(victim := None, k \<mapsto> x)"
  using assms by (auto simp: lookup_emplace lookup_erase)

lemma size_pos_ex: "invar m \<Longrightarrow> 0 < size_of m \<longleftrightarrow> (\<exists>k. lookup m k \<noteq> None)"
  using finite_dom [of m] by (auto simp: size_card card_gt_0_iff)

end

lemma map_of_insert_at:
  assumes "map_of l k = None"
  shows "map_of (take p l @ (k, v) # drop p l) = (map_of l)(k \<mapsto> v)"
proof -
  have "k \<notin> dom (map_of (take p l))"
    using assms by (auto simp: map_of_eq_None_iff dom_map_of_conv_image_fst dest: in_set_takeD)
  then have "map_of (take p l @ (k, v) # drop p l)
      = (map_of (drop p l) ++ map_of (take p l))(k \<mapsto> v)"
    by (simp add: map_add_upd_left)
  also have "map_of (drop p l) ++ map_of (take p l) = map_of l"
    by (metis append_take_drop_id map_of_append)
  finally show ?thesis .
qed

lemma map_of_replace_value:
  "map_of (map (\<lambda>(k', v'). if k' = k then (k', v) else (k', v')) l)
     = (if map_of l k = None then map_of l else (map_of l)(k \<mapsto> v))"
  by (induction l) (auto split: if_splits)

lemma map_fst_replace_value:
  "map fst (map (\<lambda>(k', v'). if k' = k then (k', v) else (k', v')) l) = map fst l"
  by (induction l) auto

lemma map_of_filter_key: "map_of (filter (\<lambda>p. fst p \<noteq> k) l) = (map_of l)(k := None)"
  by (induction l) auto

lemma distinct_insert_at:
  assumes "distinct (map fst l)" and "map_of l k = None"
  shows "distinct (map fst (take p l @ (k, v) # drop p l))"
proof -
  have "distinct (map fst (take p l) @ map fst (drop p l))"
    using assms(1) by (metis append_take_drop_id map_append)
  moreover have "k \<notin> fst ` set l"
    using assms(2) by (simp add: map_of_eq_None_iff)
  ultimately show ?thesis
    by (auto dest: in_set_takeD in_set_dropD)
qed

lemma um_lookup_emplace:
  "um_lookup (um_emplace m k v) = (if um_lookup m k = None then (um_lookup m)(k \<mapsto> v) else um_lookup m)"
  by (auto simp: um_lookup_def um_emplace_def Let_def map_of_insert_at simp del: map_of_append)

lemma um_inv_emplace:
  assumes "um_inv m"
  shows "um_inv (um_emplace m k v)"
proof (cases "um_lookup m k")
  case None
  with assms show ?thesis
    using distinct_insert_at [of "um_list m" k "um_place m k (map fst (um_list m))" v]
    by (simp add: um_inv_def um_emplace_def um_lookup_def Let_def del: map_append)
next
  case (Some a)
  with assms show ?thesis by (simp add: um_emplace_def)
qed

interpretation um: assoc_map um_lookup um_emplace um_assign um_erase um_size um_inv
proof (unfold_locales, goal_cases)
  case (1 m k v) show ?case by (rule um_lookup_emplace)
next
  case (2 m k v) show ?case
  proof (cases "um_lookup m k")
    case None then show ?thesis by (simp add: um_assign_def um_lookup_emplace)
  next
    case (Some a) then show ?thesis
      by (auto simp: um_assign_def um_lookup_def map_of_replace_value)
  qed
next
  case (3 m k) show ?case
    by (simp add: um_erase_def um_lookup_def map_of_filter_key)
next
  case (4 m k v) then show ?case by (rule um_inv_emplace)
next
  case (5 m k v) then show ?case
    by (auto simp: um_assign_def um_inv_emplace)
       (simp add: um_inv_def map_fst_replace_value del: map_map)
next
  case (6 m k) then show ?case
    by (simp add: um_erase_def um_inv_def distinct_map_filter)
next
  case (7 m) show ?case by (simp add: um_lookup_def finite_dom_map_of)
next
  case (8 m) then show ?case
    by (simp add: um_inv_def um_size_def um_lookup_def dom_map_of_conv_image_fst
        distinct_card flip: set_map)
qed

section \<open>The round-robin scan\<close>

text \<open>
  The shape of the arbitration loops of the device: starting at the channel pointer, take the
  first channel that has work and leave the pointer one past it; a channel without work moves the
  pointer on. \<open>k\<close> counts the iterations that are left.
\<close>

fun rr_scan :: "nat \<Rightarrow> nat \<Rightarrow> (nat \<Rightarrow> bool) \<Rightarrow> nat \<Rightarrow> nat option \<times> nat" where
  "rr_scan n 0 ne idx = (None, idx)"
| "rr_scan n (Suc k) ne idx =
     (if ne idx then (Some idx, (idx + 1) mod n) else rr_scan n k ne ((idx + 1) mod n))"

definition rr_select :: "nat \<Rightarrow> (nat \<Rightarrow> bool) \<Rightarrow> nat \<Rightarrow> nat option \<times> nat" where
  "rr_select n ne idx = rr_scan n n ne idx"

definition rr_dist :: "nat \<Rightarrow> nat \<Rightarrow> nat \<Rightarrow> nat" where
  "rr_dist n c idx = (c + (n - idx)) mod n"

primrec rr_idx :: "nat \<Rightarrow> (nat \<Rightarrow> nat \<Rightarrow> bool) \<Rightarrow> nat \<Rightarrow> nat \<Rightarrow> nat" where
  "rr_idx n nes i 0 = i"
| "rr_idx n nes i (Suc t) = snd (rr_select n (nes t) (rr_idx n nes i t))"

lemma rr_scan_Some:
  "rr_scan n k ne idx = (Some c, i') \<Longrightarrow> idx < n \<Longrightarrow>
     \<exists>d<k. c = (idx + d) mod n \<and> ne c \<and> i' = (c + 1) mod n
       \<and> (\<forall>d'<d. \<not> ne ((idx + d') mod n))"
proof (induction k arbitrary: idx)
  case 0
  then show ?case by simp
next
  case (Suc k)
  show ?case
  proof (cases "ne idx")
    case True
    with Suc.prems show ?thesis by (intro exI [of _ 0]) auto
  next
    case False
    with Suc.prems have "rr_scan n k ne ((idx + 1) mod n) = (Some c, i')" by simp
    moreover from Suc.prems have "(idx + 1) mod n < n" by simp
    ultimately obtain d where d: "d < k" "c = ((idx + 1) mod n + d) mod n" "ne c"
        "i' = (c + 1) mod n" "\<forall>d'<d. \<not> ne (((idx + 1) mod n + d') mod n)"
      using Suc.IH by blast
    have shift: "((idx + 1) mod n + e) mod n = (idx + Suc e) mod n" for e
      by (simp add: mod_simps)
    have "\<not> ne ((idx + d') mod n)" if "d' < Suc d" for d'
      using that d(5) False Suc.prems(2) shift by (cases d') auto
    with d shift show ?thesis by (intro exI [of _ "Suc d"]) auto
  qed
qed

lemma rr_scan_None:
  "rr_scan n k ne idx = (None, i') \<Longrightarrow> idx < n \<Longrightarrow>
     i' = (idx + k) mod n \<and> (\<forall>d<k. \<not> ne ((idx + d) mod n))"
proof (induction k arbitrary: idx)
  case 0
  then show ?case by simp
next
  case (Suc k)
  from Suc.prems have ne: "\<not> ne idx" and r: "rr_scan n k ne ((idx + 1) mod n) = (None, i')"
    by (auto split: if_splits)
  from Suc.prems have "(idx + 1) mod n < n" by simp
  with Suc.IH [OF r] have *: "i' = ((idx + 1) mod n + k) mod n"
      "\<forall>d<k. \<not> ne (((idx + 1) mod n + d) mod n)" by auto
  have shift: "((idx + 1) mod n + e) mod n = (idx + Suc e) mod n" for e
    by (simp add: mod_simps)
  have "\<not> ne ((idx + d) mod n)" if "d < Suc k" for d
    using that *(2) ne Suc.prems(2) shift by (cases d) auto
  with *(1) shift show ?case by auto
qed

lemma rr_dist_shift: "c < n \<Longrightarrow> idx < n \<Longrightarrow> (idx + rr_dist n c idx) mod n = c"
  by (simp add: rr_dist_def mod_simps)

lemma rr_dist_less: "c < n \<Longrightarrow> rr_dist n c idx < n"
  by (simp add: rr_dist_def)

text \<open>The scan serves a channel exactly when one has work, and stays inside the channels.\<close>

lemma rr_select_Some:
  assumes "rr_select n ne idx = (Some c, i')" and "idx < n"
  shows "ne c" "c < n" "i' = (c + 1) mod n" "i' < n"
  using rr_scan_Some [OF assms(1) [unfolded rr_select_def] assms(2)] assms(2) by auto

lemma rr_select_None:
  assumes "rr_select n ne idx = (None, i')" and "idx < n"
  shows "i' = idx" and "c < n \<Longrightarrow> \<not> ne c"
proof -
  note * = rr_scan_None [OF assms(1) [unfolded rr_select_def] assms(2)]
  from * assms(2) show "i' = idx" by simp
  show "\<not> ne c" if "c < n"
    using * rr_dist_shift [OF that assms(2)] rr_dist_less [OF that] by metis
qed

lemma rr_select_idx: "idx < n \<Longrightarrow> snd (rr_select n ne idx) < n"
  by (cases "rr_select n ne idx"; cases "fst (rr_select n ne idx)")
     (auto dest: rr_select_Some(4) rr_select_None(1))

lemma rr_select_serves:
  assumes "ne c" and "c < n" and "idx < n"
  shows "\<exists>j. fst (rr_select n ne idx) = Some j"
proof (rule ccontr)
  assume "\<not> ?thesis"
  then have "rr_select n ne idx = (None, snd (rr_select n ne idx))"
    by (metis not_Some_eq prod.collapse)
  from rr_select_None(2) [OF this assms(3,2)] assms(1) show False by simp
qed

text \<open>No starvation: a channel with work is served, or its distance to the pointer shrinks.\<close>

lemma rr_select_progress:
  assumes sel: "rr_select n ne idx = (Some j, i')" and c: "ne c" "c < n" and "idx < n" and "j \<noteq> c"
  shows "rr_dist n c i' < rr_dist n c idx"
proof -
  let ?e = "rr_dist n c idx"
  obtain d where d: "j = (idx + d) mod n" "i' = (j + 1) mod n"
      "\<forall>d'<d. \<not> ne ((idx + d') mod n)"
    using rr_scan_Some [OF sel [unfolded rr_select_def] \<open>idx < n\<close>] by auto
  have ce: "(idx + ?e) mod n = c" by (rule rr_dist_shift [OF c(2) \<open>idx < n\<close>])
  have "\<not> ?e < d"
  proof
    assume "?e < d"
    with d(3) have "\<not> ne ((idx + ?e) mod n)" by simp
    with ce c(1) show False by simp
  qed
  moreover from ce d(1) \<open>j \<noteq> c\<close> have "?e \<noteq> d" by auto
  ultimately have lt: "d < ?e" by simp
  have i': "i' = (idx + Suc d) mod n" by (simp only: d(1,2) mod_add_left_eq) simp
  have "i' < n" using i' \<open>idx < n\<close> by simp
  have "(i' + (?e - Suc d)) mod n = (idx + Suc d + (?e - Suc d)) mod n"
    unfolding i' by (rule mod_add_left_eq)
  also have "idx + Suc d + (?e - Suc d) = idx + ?e" using lt by simp
  finally have "(i' + (?e - Suc d)) mod n = c" using ce by simp
  then have "rr_dist n c i' = ((i' + (?e - Suc d)) mod n + (n - i')) mod n"
    by (simp only: rr_dist_def)
  also have "\<dots> = (i' + (?e - Suc d) + (n - i')) mod n"
    by (rule mod_add_left_eq)
  also have "i' + (?e - Suc d) + (n - i') = (?e - Suc d) + n"
    using \<open>i' < n\<close> by simp
  also have "((?e - Suc d) + n) mod n = (?e - Suc d) mod n" by simp
  also have "\<dots> = ?e - Suc d"
    using rr_dist_less [OF c(2), of idx] by simp
  finally show ?thesis using lt by simp
qed

lemma rr_served:
  assumes i: "i < n" and c: "c < n" and work: "\<And>t. nes t c"
  shows "\<exists>t\<le>rr_dist n c i. fst (rr_select n (nes t) (rr_idx n nes i t)) = Some c"
proof (rule ccontr)
  assume "\<not> ?thesis"
  then have never: "fst (rr_select n (nes t) (rr_idx n nes i t)) \<noteq> Some c"
    if "t \<le> rr_dist n c i" for t using that by blast
  have idx: "rr_idx n nes i t < n" for t
    by (induction t) (simp_all add: i rr_select_idx)
  have "rr_dist n c (rr_idx n nes i t) + t \<le> rr_dist n c i" if "t \<le> Suc (rr_dist n c i)" for t
    using that
  proof (induction t)
    case 0
    then show ?case by simp
  next
    case (Suc t)
    obtain j where j: "fst (rr_select n (nes t) (rr_idx n nes i t)) = Some j"
      using rr_select_serves [of "nes t", OF work c idx] by blast
    with never [of t] Suc.prems have "j \<noteq> c" by auto
    with j have "rr_dist n c (rr_idx n nes i (Suc t)) < rr_dist n c (rr_idx n nes i t)"
      using rr_select_progress [of n "nes t", OF _ work c idx]
      by (metis prod.collapse rr_idx.simps(2))
    with Suc show ?case by simp
  qed
  from this [of "Suc (rr_dist n c i)"] show False by simp
qed

end
