(* ===== verification/Bitfield.thy ===== *)
theory Bitfield
  imports Prelude
begin

text \<open>
  The bit-field helpers of \<^verbatim>\<open>src/base/bitfield.hh\<close> that the device registers are built from
  (\<^verbatim>\<open>mask\<close>, \<^verbatim>\<open>bits\<close>, \<^verbatim>\<open>mbits\<close>, \<^verbatim>\<open>insertBits\<close>, \<^verbatim>\<open>replaceBits\<close>), on words of any width up to
  64, and the little-endian byte layout of machine words. The lemmas say bit by bit what each
  helper computes; the get/put laws of the register fields follow from them.
\<close>

section \<open>The helpers\<close>

definition mask_u64 :: "nat \<Rightarrow> u64" where
  "mask_u64 nbits = (if nbits \<ge> 64 then - 1 else push_bit nbits 1 - 1)"

definition bits_val :: "'a::len word \<Rightarrow> nat \<Rightarrow> nat \<Rightarrow> 'a word" where
  "bits_val v first lsb = ucast (ucast (drop_bit lsb v) AND mask_u64 (first - lsb + 1))"

definition bits :: "'a::len word \<Rightarrow> nat \<Rightarrow> nat \<Rightarrow> 'a word res" where
  "bits v first lsb =
     ensure (lsb \<le> first) (Assert_failed ''(first - last) >= 0'') (Inr (bits_val v first lsb))"

definition mbits :: "'a::len word \<Rightarrow> nat \<Rightarrow> nat \<Rightarrow> 'a word" where
  "mbits v first lsb = ucast (ucast v AND (mask_u64 (first + 1) AND NOT (mask_u64 lsb)))"

definition insertBits_val :: "'a::len word \<Rightarrow> nat \<Rightarrow> nat \<Rightarrow> 'b::len word \<Rightarrow> 'a word" where
  "insertBits_val v first lsb bit_val =
     (let t_bit_val = ucast bit_val;
          bmask = ucast (push_bit lsb (mask_u64 (first - lsb + 1)))
      in (push_bit lsb t_bit_val AND bmask) OR (v AND NOT bmask))"

definition insertBits :: "'a::len word \<Rightarrow> nat \<Rightarrow> nat \<Rightarrow> 'b::len word \<Rightarrow> 'a word res" where
  "insertBits v first lsb bit_val =
     ensure (lsb \<le> first) (Assert_failed ''(first - last) >= 0'')
       (Inr (insertBits_val v first lsb bit_val))"

definition replaceBits :: "'a::len word \<Rightarrow> nat \<Rightarrow> nat \<Rightarrow> 'b::len word \<Rightarrow> 'a word res" where
  "replaceBits v first lsb bit_val = insertBits v first lsb bit_val"

section \<open>What they compute, bit by bit\<close>

lemma mask_u64_eq: "mask_u64 n = mask n"
  by (simp add: mask_u64_def mask_eq_exp_minus_1 push_bit_of_1)

lemma bit_mask_u64 [simp]: "bit (mask_u64 n) i \<longleftrightarrow> i < n \<and> i < 64"
  by (auto simp: mask_u64_eq bit_simps)

lemma bit_bits_val:
  fixes v :: "'a::len word"
  assumes "lsb \<le> first" and "LENGTH('a) \<le> 64"
  shows "bit (bits_val v first lsb) i \<longleftrightarrow> i \<le> first - lsb \<and> bit v (i + lsb)"
  using assms bit_imp_le_length [of v "i + lsb"]
  by (auto simp: bits_val_def bit_simps add.commute)

lemma bit_mbits:
  fixes v :: "'a::len word"
  assumes "LENGTH('a) \<le> 64"
  shows "bit (mbits v first lsb) i \<longleftrightarrow> lsb \<le> i \<and> i \<le> first \<and> bit v i"
  using assms bit_imp_le_length [of v i] by (auto simp: mbits_def bit_simps)

lemma bit_insertBits_val:
  fixes v :: "'a::len word" and b :: "'b::len word"
  assumes "lsb \<le> first" and "LENGTH('a) \<le> 64"
  shows "bit (insertBits_val v first lsb b) i \<longleftrightarrow>
    i < LENGTH('a) \<and> (if lsb \<le> i \<and> i \<le> first then bit b (i - lsb) else bit v i)"
  using assms bit_imp_le_length [of b "i - lsb"]
  by (auto simp: insertBits_val_def Let_def bit_simps)

text \<open>Reading a field gives what was put there, and putting a field leaves the others alone.\<close>

lemma bits_insertBits_same:
  fixes v :: "'a::len word" and b :: "'b::len word"
  assumes "lsb \<le> first" and "first < LENGTH('a)" and "LENGTH('a) \<le> 64"
  shows "bits_val (insertBits_val v first lsb b) first lsb = ucast (take_bit (first - lsb + 1) b)"
  using assms by (intro bit_word_eqI) (auto simp: bit_bits_val bit_insertBits_val bit_simps)

lemma bits_insertBits_other:
  fixes v :: "'a::len word" and b :: "'b::len word"
  assumes "lsb \<le> first" and "lsb' \<le> first'" and "first < lsb' \<or> first' < lsb"
    and "LENGTH('a) \<le> 64"
  shows "bits_val (insertBits_val v first lsb b) first' lsb' = bits_val v first' lsb'"
  using assms bit_imp_le_length [of v]
  by (intro bit_word_eqI) (auto simp: bit_bits_val bit_insertBits_val)

section \<open>Little-endian bytes\<close>

text \<open>
  The layout of an unsigned integer in memory on the simulated (x86) hosts: the least significant
  byte first. \<open>le_dec\<close> reads as many bytes as the word has; a short list reads as if padded with
  zeros, and callers only pass slices of the right length.
\<close>

definition le_enc :: "'a::len word \<Rightarrow> u8 list" where
  "le_enc w = map (\<lambda>i. ucast (drop_bit (8 * i) w)) [0..<LENGTH('a) div 8]"

fun le_dec :: "u8 list \<Rightarrow> 'a::len word" where
  "le_dec [] = 0"
| "le_dec (b # bs) = ucast b OR push_bit 8 (le_dec bs)"

definition slice :: "nat \<Rightarrow> nat \<Rightarrow> 'a list \<Rightarrow> 'a list" where
  "slice off n xs = take n (drop off xs)"

lemma length_le_enc [simp]: "length (le_enc (w :: 'a::len word)) = LENGTH('a) div 8"
  by (simp add: le_enc_def)

lemma bit_le_dec:
  "bit (le_dec bs :: 'a::len word) n \<longleftrightarrow>
     n < LENGTH('a) \<and> n div 8 < length bs \<and> bit (bs ! (n div 8)) (n mod 8)"
proof (induction bs arbitrary: n)
  case Nil
  then show ?case by simp
next
  case (Cons b bs)
  show ?case
  proof (cases "n < 8")
    case True
    then show ?thesis by (auto simp: bit_simps)
  next
    case False
    then obtain m where m: "n = m + 8" by (metis add.commute le_Suc_ex not_less)
    have "bit (le_dec (b # bs) :: 'a word) n \<longleftrightarrow> n < LENGTH('a) \<and> bit (le_dec bs :: 'a word) m"
      using m bit_imp_le_length [of b n] by (auto simp: bit_simps)
    moreover have "n div 8 = Suc (m div 8)" "n mod 8 = m mod 8" using m by auto
    ultimately show ?thesis using Cons.IH [of m] m by auto
  qed
qed

lemma le_dec_enc [simp]:
  assumes "8 dvd LENGTH('a::len)"
  shows "le_dec (le_enc w) = (w :: 'a word)"
proof (rule bit_word_eqI)
  fix n assume n: "n < LENGTH('a)"
  then have lt: "n div 8 < LENGTH('a) div 8" using assms by (auto elim: dvdE)
  have "bit (le_enc w ! (n div 8)) (n mod 8) \<longleftrightarrow> bit w (8 * (n div 8) + n mod 8)"
    using lt by (simp add: le_enc_def bit_simps)
  with n lt show "bit (le_dec (le_enc w) :: 'a word) n \<longleftrightarrow> bit w n"
    by (simp add: bit_le_dec)
qed

lemma le_dec_enc_8 [simp]: "le_dec (le_enc w) = (w :: u8)"
  and le_dec_enc_16 [simp]: "le_dec (le_enc x) = (x :: u16)"
  and le_dec_enc_32 [simp]: "le_dec (le_enc y) = (y :: u32)"
  and le_dec_enc_64 [simp]: "le_dec (le_enc z) = (z :: u64)"
  by (rule le_dec_enc, simp)+

lemma slice_0_append [simp]: "length xs = n \<Longrightarrow> slice 0 n (xs @ ys) = xs"
  by (simp add: slice_def)

lemma slice_skip [simp]: "length xs \<le> off \<Longrightarrow> slice off n (xs @ ys) = slice (off - length xs) n ys"
  by (simp add: slice_def)

lemma slice_all [simp]: "length xs = n \<Longrightarrow> slice 0 n xs = xs"
  by (simp add: slice_def)

lemma length_slice [simp]: "length (slice off n xs) = min n (length xs - off)"
  by (simp add: slice_def)

end
