(* ===== verification/Defs.thy ===== *)
theory Defs
  imports Bitfield
begin

text \<open>
  The data of \<^verbatim>\<open>src/dev/rdma/hangu_rnic_defs.hh\<close>: command and doorbell opcodes, the structures
  the host and the device exchange, the packet headers, the messages the units of the device pass
  to each other, and the device registers with their bit fields. A member keeps its name, with a
  short prefix where two structures use the same one. A pointer is the index of an object in the
  device's heap (theory \<open>Sim\<close>), with \<open>None\<close> for the null pointer.
\<close>

section \<open>Constants\<close>

abbreviation (input) "INIT_ICM \<equiv> (1 :: u8)"
abbreviation (input) "WRITE_ICM \<equiv> (2 :: u8)"
abbreviation (input) "WRITE_MPT \<equiv> (3 :: u8)"
abbreviation (input) "WRITE_MTT \<equiv> (4 :: u8)"
abbreviation (input) "WRITE_QPC \<equiv> (5 :: u8)"
abbreviation (input) "WRITE_CQC \<equiv> (6 :: u8)"

abbreviation (input) "OPCODE_NULL \<equiv> (0 :: u8)"
abbreviation (input) "OPCODE_SEND \<equiv> (1 :: u8)"
abbreviation (input) "OPCODE_RECV \<equiv> (2 :: u8)"
abbreviation (input) "OPCODE_RDMA_WRITE \<equiv> (3 :: u8)"
abbreviation (input) "OPCODE_RDMA_READ \<equiv> (4 :: u8)"

abbreviation (input) "PMTU_4KB \<equiv> (4096 :: u32)"

abbreviation (input) "ICMTYPE_MPT \<equiv> (1 :: u8)"
abbreviation (input) "ICMTYPE_MTT \<equiv> (2 :: u8)"
abbreviation (input) "ICMTYPE_QPC \<equiv> (3 :: u8)"
abbreviation (input) "ICMTYPE_CQC \<equiv> (4 :: u8)"

abbreviation (input) "QP_TYPE_RC \<equiv> (0 :: u8)"
abbreviation (input) "QP_TYPE_UC \<equiv> (1 :: u8)"
abbreviation (input) "QP_TYPE_RD \<equiv> (2 :: u8)"
abbreviation (input) "QP_TYPE_UD \<equiv> (3 :: u8)"

abbreviation (input) "WR_FLAG_SIGNALED \<equiv> (0x80000000 :: u32)"

abbreviation (input) "DMA_TYPE_WREQ \<equiv> (1 :: u8)"
abbreviation (input) "DMA_TYPE_RREQ \<equiv> (2 :: u8)"
abbreviation (input) "DMA_TYPE_RRSP \<equiv> (3 :: u8)"

abbreviation (input) "TPT_WCHNL_TX_CQUE \<equiv> (1 :: u8)"
abbreviation (input) "TPT_WCHNL_RX_CQUE \<equiv> (2 :: u8)"
abbreviation (input) "TPT_WCHNL_TX_DATA \<equiv> (3 :: u8)"
abbreviation (input) "TPT_WCHNL_RX_DATA \<equiv> (4 :: u8)"
abbreviation (input) "MR_RCHNL_TX_DESC \<equiv> (5 :: u8)"
abbreviation (input) "MR_RCHNL_RX_DESC \<equiv> (6 :: u8)"
abbreviation (input) "MR_RCHNL_TX_DATA \<equiv> (7 :: u8)"
abbreviation (input) "MR_RCHNL_RX_DATA \<equiv> (8 :: u8)"

abbreviation (input) "CXT_WREQ_QP \<equiv> (1 :: u8)"
abbreviation (input) "CXT_RREQ_QP \<equiv> (2 :: u8)"
abbreviation (input) "CXT_RRSP_QP \<equiv> (3 :: u8)"
abbreviation (input) "CXT_RREQ_CQ \<equiv> (4 :: u8)"
abbreviation (input) "CXT_RRSP_CQ \<equiv> (5 :: u8)"
abbreviation (input) "CXT_RREQ_SQ \<equiv> (6 :: u8)"
abbreviation (input) "CXT_CREQ_QP \<equiv> (7 :: u8)"
abbreviation (input) "CXT_CHNL_TX \<equiv> (1 :: u8)"
abbreviation (input) "CXT_CHNL_RX \<equiv> (2 :: u8)"

abbreviation (input) "PKT_FIRST \<equiv> (1 :: u8)"
abbreviation (input) "PKT_MIDDLE \<equiv> (2 :: u8)"
abbreviation (input) "PKT_LAST \<equiv> (3 :: u8)"
abbreviation (input) "PKT_ONLY \<equiv> (4 :: u8)"

abbreviation (input) "PKT_TRANS_SEND_FIRST \<equiv> (1 :: u8)"
abbreviation (input) "PKT_TRANS_SEND_MID \<equiv> (2 :: u8)"
abbreviation (input) "PKT_TRANS_SEND_LAST \<equiv> (3 :: u8)"
abbreviation (input) "PKT_TRANS_SEND_ONLY \<equiv> (4 :: u8)"
abbreviation (input) "PKT_TRANS_RWRITE_ONLY \<equiv> (5 :: u8)"
abbreviation (input) "PKT_TRANS_RREAD_ONLY \<equiv> (6 :: u8)"
abbreviation (input) "PKT_TRANS_ACK \<equiv> (7 :: u8)"
abbreviation (input) "PKT_TRANS_RWRITE_FIRST \<equiv> (8 :: u8)"
abbreviation (input) "PKT_TRANS_RWRITE_MIDDLE \<equiv> (9 :: u8)"
abbreviation (input) "PKT_TRANS_RWRITE_LAST \<equiv> (10 :: u8)"

abbreviation (input) "ETH_ADDR_LEN \<equiv> (6 :: nat)"
abbreviation (input) "PKT_BTH_SZ \<equiv> (8 :: nat)"
abbreviation (input) "PKT_DETH_SZ \<equiv> (8 :: nat)"
abbreviation (input) "PKT_RETH_SZ \<equiv> (16 :: nat)"
abbreviation (input) "PKT_AETH_SZ \<equiv> (4 :: nat)"
abbreviation (input) "RSP_ACK \<equiv> (1 :: u8)"
abbreviation (input) "RSP_NAK \<equiv> (2 :: u8)"

abbreviation (input) "PENDINGSLOTNUM \<equiv> (2 :: nat)"
abbreviation (input) "SLICING_SCHEDULE_CYCLE \<equiv> (300 :: nat)"
abbreviation (input) "QPN_NUM \<equiv> (1 :: u32)"
abbreviation (input) "RESC_LIM_LOG \<equiv> (16 :: nat)"
abbreviation (input) "RESC_LEN_LOG \<equiv> (20 :: nat)"
abbreviation (input) "QPN_MASK \<equiv> (0xFFFF :: u32)"
abbreviation (input) "ICM_MAX_PAGE_NUM \<equiv> (65536 :: u32)"
abbreviation (input) "ICM_ALLOC_PAGE_NUM \<equiv> (16 :: nat)"
abbreviation (input) "MAILBOX_PAGE_NUM \<equiv> (32 :: nat)"

section \<open>Structures shared with the host\<close>

record Hcr =
  inParam_l :: u32
  inParam_h :: u32
  inMod :: u32
  outParam_l :: u32
  outParam_h :: u32
  goOpcode :: u32

record DoorbellFifo =
  db_opcode :: u8
  db_num :: u8
  db_qpn :: u32
  db_offset :: u32

record InitResc =
  init_qpsNumLog :: u8
  init_cqsNumLog :: u8
  init_mptNumLog :: u8
  init_qpcBase :: u64
  init_cqcBase :: u64
  init_mptBase :: u64
  init_mttBase :: u64

record IcmResc =
  icm_pageNum :: u16
  icm_vAddr :: u64
  icm_pAddr :: u64

record MttResc =
  mtt_pAddr :: u64

record MptResc =
  mpt_flag :: u32
  mpt_key :: u32
  mpt_startVAddr :: u64
  mpt_length :: u64
  mpt_mttSeg :: u64

record QpcResc =
  qpc_flag :: u8
  qpType :: u8
  sqSizeLog :: u8
  rqSizeLog :: u8
  sndWqeOffset :: u16
  rcvWqeOffset :: u16
  lLid :: u16
  dLid :: u16
  srcQpn :: u32
  destQpn :: u32
  sndPsn :: u32
  ackPsn :: u32
  expPsn :: u32
  qpc_cqn :: u32
  sndWqeBaseLkey :: u32
  rcvWqeBaseLkey :: u32
  qpc_qkey :: u32
  qpc_reserved :: "u32 list"

record CqcResc =
  cqc_cqn :: u32
  cqc_offset :: u32
  cqc_lkey :: u32
  cqc_sizeLog :: u32

text \<open>
  A send descriptor. The two unions of the structure are three words read as
  \<^verbatim>\<open>sendType\<close> (\<open>tx_dlid\<close>, \<open>tx_qkey\<close>, \<open>tx_destQpn\<close>) or as \<^verbatim>\<open>rdmaType\<close> (\<open>tx_rkey\<close>,
  \<open>tx_rVaddr_l\<close>, \<open>tx_rVaddr_h\<close>), and one word read as the flags or, its low byte, as the opcode.
\<close>

record TxDesc =
  tx_len :: u32
  tx_lkey :: u32
  tx_lVaddr :: u64
  tx_w0 :: u32
  tx_w1 :: u32
  tx_w2 :: u32
  tx_flags :: u32

definition tx_opcode :: "TxDesc \<Rightarrow> u8" where
  "tx_opcode d = ucast (tx_flags d)"

definition isSignaled :: "TxDesc \<Rightarrow> bool" where
  "isSignaled d \<longleftrightarrow> tx_flags d AND WR_FLAG_SIGNALED \<noteq> 0"

abbreviation (input) "tx_dlid \<equiv> tx_w0"
abbreviation (input) "tx_qkey \<equiv> tx_w1"
abbreviation (input) "tx_destQpn \<equiv> tx_w2"
abbreviation (input) "tx_rkey \<equiv> tx_w0"
abbreviation (input) "tx_rVaddr_l \<equiv> tx_w1"
abbreviation (input) "tx_rVaddr_h \<equiv> tx_w2"

record RxDesc =
  rx_len :: u32
  rx_lkey :: u32
  rx_lVaddr :: u64

record CqDesc =
  cq_srvType :: u8
  cq_transType :: u8
  cq_nop0 :: u8
  cq_nop1 :: u8
  cq_byteCnt :: u32
  cq_qpn :: u32
  cq_cqn :: u32

section \<open>Packet headers\<close>

record BTH =
  op_destQpn :: u32
  needAck_psn :: u32

record DETH =
  deth_qKey :: u32
  deth_srcQpn :: u32

record RETH =
  reth_rVaddr_l :: u32
  reth_rVaddr_h :: u32
  reth_rKey :: u32
  reth_len :: u32

record AETH =
  syndrome_msn :: u32

section \<open>Messages between the units of the device\<close>

text \<open>A place in a heap object: the object and a byte offset into it.\<close>

type_synonym ptr = "nat \<times> nat"

record MrReqRsp =
  mr_type :: u8
  mr_chnl :: u8
  mr_lkey :: u32
  mr_length :: u32
  mr_offset :: u32
  mr_data :: "ptr option"

definition new_MrReqRsp :: "u8 \<Rightarrow> u8 \<Rightarrow> u32 \<Rightarrow> u32 \<Rightarrow> u32 \<Rightarrow> MrReqRsp" where
  "new_MrReqRsp type chnl lkey len vaddr =
     \<lparr>mr_type = type, mr_chnl = chnl, mr_lkey = lkey, mr_length = len, mr_offset = vaddr,
      mr_data = None\<rparr>"

record CxtReqRsp =
  cx_type :: u8
  cx_chnl :: u8
  cx_num :: u32
  cx_sz :: u32
  cx_idx :: u8
  cx_resc :: "nat option"

definition new_CxtReqRsp :: "u8 \<Rightarrow> u8 \<Rightarrow> u32 \<Rightarrow> u32 \<Rightarrow> u8 \<Rightarrow> CxtReqRsp" where
  "new_CxtReqRsp type chnl num sz idx =
     \<lparr>cx_type = type, cx_chnl = chnl, cx_num = num, cx_sz = sz, cx_idx = idx, cx_resc = None\<rparr>"

text \<open>An Ethernet packet (\<^verbatim>\<open>src/dev/net/etherpkt.hh\<close>): its buffer, and the lengths in bytes.\<close>

record EthPacket =
  pk_data :: "nat \<Rightarrow> u8"
  pk_bufLength :: u32
  pk_length :: u32
  pk_simLength :: u32

record DP2RG =
  dp_qpc :: nat
  dp_desc :: TxDesc
  dp_txPkt :: nat
  dp_pktPos :: u8
  dp_pldLen :: u32
  dp_pktPsn :: u32

record pendingSlot =
  ps_dpuQpc :: nat
  ps_desc :: TxDesc
  ps_first :: u8
  ps_rem_len :: u32
  ps_pktPsn :: u32

record PendingElem =
  pe_idx :: u8
  pe_chnl :: u8
  pe_qpn :: u32
  pe_reqPkt :: CxtReqRsp
  pe_has_dma :: bool

definition new_PendingElem :: "u8 \<Rightarrow> u8 \<Rightarrow> CxtReqRsp \<Rightarrow> bool \<Rightarrow> PendingElem" where
  "new_PendingElem idx chnl reqPkt has_dma =
     \<lparr>pe_idx = idx, pe_chnl = chnl, pe_qpn = cx_num reqPkt, pe_reqPkt = reqPkt,
      pe_has_dma = has_dma\<rparr>"

record WindowElem =
  we_txPkt :: nat
  we_qpn :: u32
  we_psn :: u32
  we_txDesc :: TxDesc

record WinMapElem =
  wm_list :: "WindowElem list"
  wm_firstPsn :: u32
  wm_lastPsn :: u32
  wm_cqn :: u32

section \<open>Device registers\<close>

record Regs =
  inParam :: u64
  modifier :: u32
  outParam :: u64
  cmdCtrl :: u32
  db :: u64
  mptBase :: u64
  mttBase :: u64
  qpcBase :: u64
  cqcBase :: u64
  mptNumLog :: u8
  mttNumLog :: u8
  qpcNumLog :: u8
  cqcNumLog :: u8

text \<open>
  \<^verbatim>\<open>ADD_FIELD32\<close> and \<^verbatim>\<open>ADD_FIELD64\<close> declare, for a field at \<open>off\<close> of \<open>n\<close> bits, the reader
  \<open>get_field\<close> and the writer \<open>put_field\<close>; the fields of a register are the constants below.
\<close>

definition get_field :: "nat \<Rightarrow> nat \<Rightarrow> 'a::len word \<Rightarrow> 'a word" where
  "get_field off n r = bits_val r (off + n - 1) off"

definition put_field :: "nat \<Rightarrow> nat \<Rightarrow> 'a::len word \<Rightarrow> 'b::len word \<Rightarrow> 'a word" where
  "put_field off n r d = insertBits_val r (off + n - 1) off d"

definition iparaml :: "u64 \<Rightarrow> u64" where "iparaml r = get_field 0 32 r"
definition iparamh :: "u64 \<Rightarrow> u64" where "iparamh r = get_field 32 32 r"
definition set_iparaml :: "u64 \<Rightarrow> u32 \<Rightarrow> u64" where "set_iparaml r d = put_field 0 32 r d"
definition set_iparamh :: "u64 \<Rightarrow> u32 \<Rightarrow> u64" where "set_iparamh r d = put_field 32 32 r d"
definition oparaml :: "u64 \<Rightarrow> u64" where "oparaml r = get_field 0 32 r"
definition oparamh :: "u64 \<Rightarrow> u64" where "oparamh r = get_field 32 32 r"
definition set_oparaml :: "u64 \<Rightarrow> u32 \<Rightarrow> u64" where "set_oparaml r d = put_field 0 32 r d"
definition set_oparamh :: "u64 \<Rightarrow> u32 \<Rightarrow> u64" where "set_oparamh r d = put_field 32 32 r d"
definition cmd_op :: "u32 \<Rightarrow> u32" where "cmd_op r = get_field 0 8 r"
definition cmd_go :: "u32 \<Rightarrow> u32" where "cmd_go r = get_field 31 1 r"
definition set_cmd_go :: "u32 \<Rightarrow> u32 \<Rightarrow> u32" where "set_cmd_go r d = put_field 31 1 r d"
definition dbr_opcode :: "u64 \<Rightarrow> u64" where "dbr_opcode r = get_field 0 4 r"
definition dbr_offset :: "u64 \<Rightarrow> u64" where "dbr_offset r = get_field 4 28 r"
definition dbr_num :: "u64 \<Rightarrow> u64" where "dbr_num r = get_field 32 8 r"
definition dbr_qpn :: "u64 \<Rightarrow> u64" where "dbr_qpn r = get_field 40 24 r"

lemmas field_defs = get_field_def put_field_def iparaml_def iparamh_def set_iparaml_def
  set_iparamh_def oparaml_def oparamh_def set_oparaml_def set_oparamh_def cmd_op_def cmd_go_def
  set_cmd_go_def dbr_opcode_def dbr_offset_def dbr_num_def dbr_qpn_def

end
