(* ===== verification/Layout.thy ===== *)
theory Layout
  imports Defs
begin

text \<open>
  The byte layout of the structures of \<open>Defs\<close>. The device reads them by casting a byte buffer
  (a mailbox, a descriptor ring, a context page, a packet) to a pointer to the structure, so each
  decoder reads the members at the offsets the compiler gives them on the simulated (x86-64)
  machine; the encoders are the inverse view, for what the host or the device writes. Padding
  bytes are written as zero and never read. \<open>codec\<close> is the contract, interpreted once for each
  structure; arrays of structures are covered by its lemmas.
\<close>

locale codec =
  fixes enc :: "'a \<Rightarrow> u8 list" and dec :: "u8 list \<Rightarrow> 'a" and sz :: nat and wf :: "'a \<Rightarrow> bool"
  assumes len_enc: "wf x \<Longrightarrow> length (enc x) = sz"
    and dec_enc: "wf x \<Longrightarrow> dec (enc x @ rest) = x"
begin

lemma dec_enc_all: "wf x \<Longrightarrow> dec (enc x) = x"
  using dec_enc [of x "[]"] by simp

lemma len_array: "(\<And>x. x \<in> set xs \<Longrightarrow> wf x) \<Longrightarrow> length (concat (map enc xs)) = sz * length xs"
  by (induction xs) (auto simp: len_enc)

text \<open>Element \<open>i\<close> of an array starts at byte \<open>i * sz\<close>.\<close>

lemma dec_array_nth:
  assumes "\<And>x. x \<in> set xs \<Longrightarrow> wf x" and "i < length xs"
  shows "dec (drop (i * sz) (concat (map enc xs))) = xs ! i"
  using assms
proof (induction xs arbitrary: i)
  case Nil
  then show ?case by simp
next
  case (Cons x xs)
  show ?case
  proof (cases i)
    case 0
    with Cons.prems show ?thesis by (simp add: dec_enc)
  next
    case (Suc j)
    have "drop (i * sz) (concat (map enc (x # xs))) = drop (j * sz) (concat (map enc xs))"
      using Suc Cons.prems by (simp add: len_enc)
    with Suc Cons show ?thesis by simp
  qed
qed

end

definition dec_array :: "(u8 list \<Rightarrow> 'a) \<Rightarrow> nat \<Rightarrow> nat \<Rightarrow> u8 list \<Rightarrow> 'a list" where
  "dec_array dec sz n bs = map (\<lambda>i. dec (drop (i * sz) bs)) [0..<n]"

context codec
begin

lemma dec_array_enc:
  assumes "\<And>x. x \<in> set xs \<Longrightarrow> wf x"
  shows "dec_array dec sz (length xs) (concat (map enc xs)) = xs"
  using assms by (intro nth_equalityI) (auto simp: dec_array_def dec_array_nth)

end

section \<open>Encoders and decoders\<close>

definition enc_Hcr :: "Hcr \<Rightarrow> u8 list" where
  "enc_Hcr h = le_enc (inParam_l h) @ le_enc (inParam_h h) @ le_enc (inMod h) @
     le_enc (outParam_l h) @ le_enc (outParam_h h) @ le_enc (goOpcode h)"

definition dec_Hcr :: "u8 list \<Rightarrow> Hcr" where
  "dec_Hcr bs =
     \<lparr>inParam_l = le_dec (slice 0 4 bs), inParam_h = le_dec (slice 4 4 bs),
      inMod = le_dec (slice 8 4 bs), outParam_l = le_dec (slice 12 4 bs),
      outParam_h = le_dec (slice 16 4 bs), goOpcode = le_dec (slice 20 4 bs)\<rparr>"

definition enc_InitResc :: "InitResc \<Rightarrow> u8 list" where
  "enc_InitResc r = le_enc (init_qpsNumLog r) @ le_enc (init_cqsNumLog r) @
     le_enc (init_mptNumLog r) @ replicate 5 0 @ le_enc (init_qpcBase r) @
     le_enc (init_cqcBase r) @ le_enc (init_mptBase r) @ le_enc (init_mttBase r)"

definition dec_InitResc :: "u8 list \<Rightarrow> InitResc" where
  "dec_InitResc bs =
     \<lparr>init_qpsNumLog = le_dec (slice 0 1 bs), init_cqsNumLog = le_dec (slice 1 1 bs),
      init_mptNumLog = le_dec (slice 2 1 bs), init_qpcBase = le_dec (slice 8 8 bs),
      init_cqcBase = le_dec (slice 16 8 bs), init_mptBase = le_dec (slice 24 8 bs),
      init_mttBase = le_dec (slice 32 8 bs)\<rparr>"

definition enc_IcmResc :: "IcmResc \<Rightarrow> u8 list" where
  "enc_IcmResc r = le_enc (icm_pageNum r) @ replicate 6 0 @ le_enc (icm_vAddr r) @
     le_enc (icm_pAddr r)"

definition dec_IcmResc :: "u8 list \<Rightarrow> IcmResc" where
  "dec_IcmResc bs =
     \<lparr>icm_pageNum = le_dec (slice 0 2 bs), icm_vAddr = le_dec (slice 8 8 bs),
      icm_pAddr = le_dec (slice 16 8 bs)\<rparr>"

definition enc_MttResc :: "MttResc \<Rightarrow> u8 list" where
  "enc_MttResc r = le_enc (mtt_pAddr r)"

definition dec_MttResc :: "u8 list \<Rightarrow> MttResc" where
  "dec_MttResc bs = \<lparr>mtt_pAddr = le_dec (slice 0 8 bs)\<rparr>"

definition enc_MptResc :: "MptResc \<Rightarrow> u8 list" where
  "enc_MptResc r = le_enc (mpt_flag r) @ le_enc (mpt_key r) @ le_enc (mpt_startVAddr r) @
     le_enc (mpt_length r) @ le_enc (mpt_mttSeg r)"

definition dec_MptResc :: "u8 list \<Rightarrow> MptResc" where
  "dec_MptResc bs =
     \<lparr>mpt_flag = le_dec (slice 0 4 bs), mpt_key = le_dec (slice 4 4 bs),
      mpt_startVAddr = le_dec (slice 8 8 bs), mpt_length = le_dec (slice 16 8 bs),
      mpt_mttSeg = le_dec (slice 24 8 bs)\<rparr>"

definition enc_QpcResc :: "QpcResc \<Rightarrow> u8 list" where
  "enc_QpcResc r = le_enc (qpc_flag r) @ le_enc (qpType r) @ le_enc (sqSizeLog r) @
     le_enc (rqSizeLog r) @ le_enc (sndWqeOffset r) @ le_enc (rcvWqeOffset r) @
     le_enc (lLid r) @ le_enc (dLid r) @ le_enc (srcQpn r) @ le_enc (destQpn r) @
     le_enc (sndPsn r) @ le_enc (ackPsn r) @ le_enc (expPsn r) @ le_enc (qpc_cqn r) @
     le_enc (sndWqeBaseLkey r) @ le_enc (rcvWqeBaseLkey r) @ le_enc (qpc_qkey r) @
     concat (map le_enc (qpc_reserved r))"

definition dec_QpcResc :: "u8 list \<Rightarrow> QpcResc" where
  "dec_QpcResc bs =
     \<lparr>qpc_flag = le_dec (slice 0 1 bs), qpType = le_dec (slice 1 1 bs),
      sqSizeLog = le_dec (slice 2 1 bs), rqSizeLog = le_dec (slice 3 1 bs),
      sndWqeOffset = le_dec (slice 4 2 bs), rcvWqeOffset = le_dec (slice 6 2 bs),
      lLid = le_dec (slice 8 2 bs), dLid = le_dec (slice 10 2 bs),
      srcQpn = le_dec (slice 12 4 bs), destQpn = le_dec (slice 16 4 bs),
      sndPsn = le_dec (slice 20 4 bs), ackPsn = le_dec (slice 24 4 bs),
      expPsn = le_dec (slice 28 4 bs), qpc_cqn = le_dec (slice 32 4 bs),
      sndWqeBaseLkey = le_dec (slice 36 4 bs), rcvWqeBaseLkey = le_dec (slice 40 4 bs),
      qpc_qkey = le_dec (slice 44 4 bs),
      qpc_reserved = dec_array (\<lambda>b. le_dec (slice 0 4 b)) 4 52 (slice 48 208 bs)\<rparr>"

definition enc_CqcResc :: "CqcResc \<Rightarrow> u8 list" where
  "enc_CqcResc r = le_enc (cqc_cqn r) @ le_enc (cqc_offset r) @ le_enc (cqc_lkey r) @
     le_enc (cqc_sizeLog r)"

definition dec_CqcResc :: "u8 list \<Rightarrow> CqcResc" where
  "dec_CqcResc bs =
     \<lparr>cqc_cqn = le_dec (slice 0 4 bs), cqc_offset = le_dec (slice 4 4 bs),
      cqc_lkey = le_dec (slice 8 4 bs), cqc_sizeLog = le_dec (slice 12 4 bs)\<rparr>"

definition enc_TxDesc :: "TxDesc \<Rightarrow> u8 list" where
  "enc_TxDesc d = le_enc (tx_len d) @ le_enc (tx_lkey d) @ le_enc (tx_lVaddr d) @
     le_enc (tx_w0 d) @ le_enc (tx_w1 d) @ le_enc (tx_w2 d) @ le_enc (tx_flags d)"

definition dec_TxDesc :: "u8 list \<Rightarrow> TxDesc" where
  "dec_TxDesc bs =
     \<lparr>tx_len = le_dec (slice 0 4 bs), tx_lkey = le_dec (slice 4 4 bs),
      tx_lVaddr = le_dec (slice 8 8 bs), tx_w0 = le_dec (slice 16 4 bs),
      tx_w1 = le_dec (slice 20 4 bs), tx_w2 = le_dec (slice 24 4 bs),
      tx_flags = le_dec (slice 28 4 bs)\<rparr>"

definition enc_RxDesc :: "RxDesc \<Rightarrow> u8 list" where
  "enc_RxDesc d = le_enc (rx_len d) @ le_enc (rx_lkey d) @ le_enc (rx_lVaddr d)"

definition dec_RxDesc :: "u8 list \<Rightarrow> RxDesc" where
  "dec_RxDesc bs =
     \<lparr>rx_len = le_dec (slice 0 4 bs), rx_lkey = le_dec (slice 4 4 bs),
      rx_lVaddr = le_dec (slice 8 8 bs)\<rparr>"

definition enc_CqDesc :: "CqDesc \<Rightarrow> u8 list" where
  "enc_CqDesc d = le_enc (cq_srvType d) @ le_enc (cq_transType d) @ le_enc (cq_nop0 d) @
     le_enc (cq_nop1 d) @ le_enc (cq_byteCnt d) @ le_enc (cq_qpn d) @ le_enc (cq_cqn d)"

definition dec_CqDesc :: "u8 list \<Rightarrow> CqDesc" where
  "dec_CqDesc bs =
     \<lparr>cq_srvType = le_dec (slice 0 1 bs), cq_transType = le_dec (slice 1 1 bs),
      cq_nop0 = le_dec (slice 2 1 bs), cq_nop1 = le_dec (slice 3 1 bs),
      cq_byteCnt = le_dec (slice 4 4 bs), cq_qpn = le_dec (slice 8 4 bs),
      cq_cqn = le_dec (slice 12 4 bs)\<rparr>"

definition enc_BTH :: "BTH \<Rightarrow> u8 list" where
  "enc_BTH h = le_enc (op_destQpn h) @ le_enc (needAck_psn h)"

definition dec_BTH :: "u8 list \<Rightarrow> BTH" where
  "dec_BTH bs = \<lparr>op_destQpn = le_dec (slice 0 4 bs), needAck_psn = le_dec (slice 4 4 bs)\<rparr>"

definition enc_DETH :: "DETH \<Rightarrow> u8 list" where
  "enc_DETH h = le_enc (deth_qKey h) @ le_enc (deth_srcQpn h)"

definition dec_DETH :: "u8 list \<Rightarrow> DETH" where
  "dec_DETH bs = \<lparr>deth_qKey = le_dec (slice 0 4 bs), deth_srcQpn = le_dec (slice 4 4 bs)\<rparr>"

definition enc_RETH :: "RETH \<Rightarrow> u8 list" where
  "enc_RETH h = le_enc (reth_rVaddr_l h) @ le_enc (reth_rVaddr_h h) @ le_enc (reth_rKey h) @
     le_enc (reth_len h)"

definition dec_RETH :: "u8 list \<Rightarrow> RETH" where
  "dec_RETH bs =
     \<lparr>reth_rVaddr_l = le_dec (slice 0 4 bs), reth_rVaddr_h = le_dec (slice 4 4 bs),
      reth_rKey = le_dec (slice 8 4 bs), reth_len = le_dec (slice 12 4 bs)\<rparr>"

definition enc_AETH :: "AETH \<Rightarrow> u8 list" where
  "enc_AETH h = le_enc (syndrome_msn h)"

definition dec_AETH :: "u8 list \<Rightarrow> AETH" where
  "dec_AETH bs = \<lparr>syndrome_msn = le_dec (slice 0 4 bs)\<rparr>"

section \<open>The contract holds for every structure\<close>

interpretation u32c: codec "le_enc :: u32 \<Rightarrow> u8 list" "\<lambda>b. le_dec (slice 0 4 b)" 4 "\<lambda>_. True"
  by unfold_locales simp_all

interpretation hcr: codec enc_Hcr dec_Hcr 24 "\<lambda>_. True"
  by unfold_locales (simp_all add: enc_Hcr_def dec_Hcr_def)

interpretation initr: codec enc_InitResc dec_InitResc 40 "\<lambda>_. True"
  by unfold_locales (simp_all add: enc_InitResc_def dec_InitResc_def)

interpretation icmr: codec enc_IcmResc dec_IcmResc 24 "\<lambda>_. True"
  by unfold_locales (simp_all add: enc_IcmResc_def dec_IcmResc_def)

interpretation mttr: codec enc_MttResc dec_MttResc 8 "\<lambda>_. True"
  by unfold_locales (simp_all add: enc_MttResc_def dec_MttResc_def)

interpretation mptr: codec enc_MptResc dec_MptResc 32 "\<lambda>_. True"
  by unfold_locales (simp_all add: enc_MptResc_def dec_MptResc_def)

interpretation cqcr: codec enc_CqcResc dec_CqcResc 16 "\<lambda>_. True"
  by unfold_locales (simp_all add: enc_CqcResc_def dec_CqcResc_def)

interpretation txd: codec enc_TxDesc dec_TxDesc 32 "\<lambda>_. True"
  by unfold_locales (simp_all add: enc_TxDesc_def dec_TxDesc_def)

interpretation rxd: codec enc_RxDesc dec_RxDesc 16 "\<lambda>_. True"
  by unfold_locales (simp_all add: enc_RxDesc_def dec_RxDesc_def)

interpretation cqd: codec enc_CqDesc dec_CqDesc 16 "\<lambda>_. True"
  by unfold_locales (simp_all add: enc_CqDesc_def dec_CqDesc_def)

interpretation bth: codec enc_BTH dec_BTH 8 "\<lambda>_. True"
  by unfold_locales (simp_all add: enc_BTH_def dec_BTH_def)

interpretation deth: codec enc_DETH dec_DETH 8 "\<lambda>_. True"
  by unfold_locales (simp_all add: enc_DETH_def dec_DETH_def)

interpretation reth: codec enc_RETH dec_RETH 16 "\<lambda>_. True"
  by unfold_locales (simp_all add: enc_RETH_def dec_RETH_def)

interpretation aeth: codec enc_AETH dec_AETH 4 "\<lambda>_. True"
  by unfold_locales (simp_all add: enc_AETH_def dec_AETH_def)

definition qpc_wf :: "QpcResc \<Rightarrow> bool" where
  "qpc_wf r \<longleftrightarrow> length (qpc_reserved r) = 52"

interpretation qpcr: codec enc_QpcResc dec_QpcResc 256 qpc_wf
proof
  fix x :: QpcResc assume wf: "qpc_wf x"
  have len: "length (concat (map le_enc (qpc_reserved x))) = 208"
    using wf u32c.len_array [of "qpc_reserved x"] by (simp add: qpc_wf_def)
  show "length (enc_QpcResc x) = 256"
    by (simp add: enc_QpcResc_def len del: length_concat)
  have "dec_array (\<lambda>b. le_dec (slice 0 4 b)) 4 52 (concat (map le_enc (qpc_reserved x)))
      = qpc_reserved x"
    using wf u32c.dec_array_enc [of "qpc_reserved x"] by (simp add: qpc_wf_def)
  then show "dec_QpcResc (enc_QpcResc x @ rest) = x" for rest
    by (simp add: enc_QpcResc_def dec_QpcResc_def len del: length_concat)
qed

end
