(* ===== verification/Sim.thy ===== *)
theory Sim
  imports Layout
begin

text \<open>
  What every unit of the device runs on: the simulator's event queue (\<^verbatim>\<open>src/sim/eventq.hh\<close>)
  restricted to the events of the device, the heap of the objects the units allocate and pass by
  pointer, the host memory, the table of DMA requests, and the FIFO in which the caches post their
  reads and write-backs. The units' own records extend \<open>nicbase\<close>, so an operation on it works on
  the state of the whole device.
\<close>

section \<open>Events\<close>

datatype event =
    CeuProcEvent | DoorbellProcEvent | MboxEvent
  | DfuEvent | DduEvent | DpuEvent | SlicingEvent | RgrrEvent | ScuEvent | SauEvent
  | RauEvent | RpuEvent | RcvRpuEvent | RdCplRpuEvent | RcuEvent
  | MptReadProcEvent | MptFetchCplEvent | MttReadProcEvent | MttFetchCplEvent
  | CqcReadProcEvent | CqcFetchCplEvent
  | TransReqEvent | MptRspEvent | MttRspEvent | DmaRrspEvent
  | CqcReqProcEvent | CqcRspProcEvent
  | QpcReqProcEvent | QpcRspProcEvent | PushElemProcEvent
  | DmaWriteCplEvent | DmaReadCplEvent | DmaChnlProcEvent | DmaWriteEvent | DmaReadEvent
  | EthRxPktProcEvent

text \<open>
  Ticks are picoseconds; the 64-bit counter of the simulator would wrap after more than 200 days
  of simulated time and is taken to be unbounded.
\<close>

record sim =
  curTick :: nat
  clockPeriod :: nat
  evq :: "event \<Rightarrow> nat option"

definition scheduled :: "event \<Rightarrow> 'a sim_scheme \<Rightarrow> bool" where
  "scheduled e s \<longleftrightarrow> evq s e \<noteq> None"

definition schedule :: "event \<Rightarrow> nat \<Rightarrow> 'a sim_scheme \<Rightarrow> 'a sim_scheme res" where
  "schedule e tm s =
     ensure (curTick s \<le> tm) (Assert_failed ''when >= getCurTick()'')
       (ensure (\<not> scheduled e s) (Assert_failed ''!event->scheduled()'')
         (Inr (s\<lparr>evq := (evq s)(e \<mapsto> tm)\<rparr>)))"

definition reschedule :: "event \<Rightarrow> nat \<Rightarrow> 'a sim_scheme \<Rightarrow> 'a sim_scheme res" where
  "reschedule e tm s =
     ensure (curTick s \<le> tm) (Assert_failed ''when >= getCurTick()'')
       (ensure (scheduled e s) (Assert_failed ''always || event->scheduled()'')
         (Inr (s\<lparr>evq := (evq s)(e \<mapsto> tm)\<rparr>)))"

text \<open>
  The idiom \<^verbatim>\<open>if (!e.scheduled()) schedule(e, when)\<close>, which cannot fail for a tick that has not
  passed, and its most frequent use: one clock period from now.
\<close>

definition sched_at :: "event \<Rightarrow> nat \<Rightarrow> 'a sim_scheme \<Rightarrow> 'a sim_scheme" where
  "sched_at e tm s = (if scheduled e s then s else s\<lparr>evq := (evq s)(e \<mapsto> tm)\<rparr>)"

definition sched_next :: "event \<Rightarrow> 'a sim_scheme \<Rightarrow> 'a sim_scheme" where
  "sched_next e s = sched_at e (curTick s + clockPeriod s) s"

definition sched_next_if :: "bool \<Rightarrow> event \<Rightarrow> 'a sim_scheme \<Rightarrow> 'a sim_scheme" where
  "sched_next_if c e s = (if c then sched_next e s else s)"

lemma sched_at_schedule:
  "curTick s \<le> tm \<Longrightarrow> \<not> scheduled e s \<Longrightarrow> schedule e tm s = Inr (sched_at e tm s)"
  by (simp add: schedule_def sched_at_def)

lemma scheduled_sched_next [simp]: "scheduled e (sched_next e s)"
  by (simp add: scheduled_def sched_next_def sched_at_def)

lemma scheduled_sched_next_mono: "scheduled e s \<Longrightarrow> scheduled e (sched_next e' s)"
  by (simp add: scheduled_def sched_next_def sched_at_def)

section \<open>Objects\<close>

text \<open>
  An object of the heap and its C++ type. Transmit descriptors are allocated as an array.
\<close>

datatype obj =
    OQpc QpcResc
  | OCqc CqcResc
  | OMpt MptResc
  | OMtt MttResc
  | OTxDescs "TxDesc list"
  | ORxDesc RxDesc
  | OCqDesc CqDesc
  | OBytes "u8 list"
  | OPkt EthPacket
  | ORETH RETH

record DmaReq =
  dr_addr :: u64
  dr_size :: int
  dr_event :: "event option"
  dr_rdVld :: bool
  dr_data :: "ptr option"
  dr_schd :: nat
  dr_reqType :: u8

definition new_DmaReq :: "u64 \<Rightarrow> int \<Rightarrow> event option \<Rightarrow> ptr option \<Rightarrow> DmaReq" where
  "new_DmaReq addr sz ev data =
     \<lparr>dr_addr = addr, dr_size = sz, dr_event = ev, dr_rdVld = False, dr_data = data,
      dr_schd = 0, dr_reqType = 0\<rparr>"

text \<open>
  \<open>heap\<close> holds the allocated objects (\<open>None\<close> once deleted); \<open>junk\<close> is what fresh memory contains;
  \<open>pciToDma\<close> is the address translation of the PCI host; \<open>dmaReqs\<close> is the table of the DMA
  requests, which several units share by pointer; \<open>rnd\<close> is the stream of the random generator.
\<close>

record nicbase = sim +
  heap :: "obj option list"
  junk :: "nat \<Rightarrow> u8"
  hostMem :: "u64 \<Rightarrow> u8"
  pciToDma :: "u64 \<Rightarrow> u64"
  dmaReqs :: "DmaReq list"
  cacheDmaAccessFifo :: "nat list"
  rnd :: "nat \<Rightarrow> nat"
  rndCnt :: nat

text \<open>A device at rest, for examples.\<close>

definition nicbase0 :: nicbase where
  "nicbase0 =
     \<lparr>curTick = 0, clockPeriod = 1, evq = (\<lambda>_. None), heap = [], junk = (\<lambda>_. 0),
      hostMem = (\<lambda>_. 0), pciToDma = (\<lambda>a. a), dmaReqs = [], cacheDmaAccessFifo = [],
      rnd = (\<lambda>_. 0), rndCnt = 0\<rparr>"

definition alloc :: "obj \<Rightarrow> 'a nicbase_scheme \<Rightarrow> nat \<times> 'a nicbase_scheme" where
  "alloc ob s = (length (heap s), s\<lparr>heap := heap s @ [Some ob]\<rparr>)"

definition deref :: "nat \<Rightarrow> 'a nicbase_scheme \<Rightarrow> obj res" where
  "deref p s =
     (if p < length (heap s)
      then (case heap s ! p of None \<Rightarrow> Inl (Undefined ''use of a deleted object'') | Some ob \<Rightarrow> Inr ob)
      else Inl (Undefined ''wild pointer''))"

definition heap_set :: "nat \<Rightarrow> obj \<Rightarrow> 'a nicbase_scheme \<Rightarrow> 'a nicbase_scheme" where
  "heap_set p ob s = s\<lparr>heap := (heap s)[p := Some ob]\<rparr>"

definition delete_obj :: "nat \<Rightarrow> 'a nicbase_scheme \<Rightarrow> 'a nicbase_scheme res" where
  "delete_obj p s = ebind (deref p s) (\<lambda>_. Inr (s\<lparr>heap := (heap s)[p := None]\<rparr>))"

definition deref_qpc :: "nat option \<Rightarrow> 'a nicbase_scheme \<Rightarrow> QpcResc res" where
  "deref_qpc p s =
     (case p of None \<Rightarrow> Inl (Undefined ''null QpcResc pointer'')
      | Some q \<Rightarrow> ebind (deref q s)
          (\<lambda>ob. case ob of OQpc r \<Rightarrow> Inr r | _ \<Rightarrow> Inl (Undefined ''not a QpcResc'')))"

definition deref_pkt :: "nat \<Rightarrow> 'a nicbase_scheme \<Rightarrow> EthPacket res" where
  "deref_pkt p s = ebind (deref p s)
     (\<lambda>ob. case ob of OPkt k \<Rightarrow> Inr k | _ \<Rightarrow> Inl (Undefined ''not a packet''))"

text \<open>\<^verbatim>\<open>random_mt.random(0, hi)\<close>: some number up to \<open>hi\<close>, a new one for each call.\<close>

definition random_upto :: "nat \<Rightarrow> 'a nicbase_scheme \<Rightarrow> nat \<times> 'a nicbase_scheme" where
  "random_upto hi s = (rnd s (rndCnt s) mod Suc hi, s\<lparr>rndCnt := Suc (rndCnt s)\<rparr>)"

text \<open>\<^verbatim>\<open>make_shared<DmaReq>\<close>: a new entry of the table, known by its position.\<close>

definition add_dmaReq :: "DmaReq \<Rightarrow> 'a nicbase_scheme \<Rightarrow> nat \<times> 'a nicbase_scheme" where
  "add_dmaReq r s = (length (dmaReqs s), s\<lparr>dmaReqs := dmaReqs s @ [r]\<rparr>)"

text \<open>A cache posts a DMA request on the FIFO it shares with the other caches.\<close>

definition post_cacheDma :: "DmaReq \<Rightarrow> event \<Rightarrow> 'a nicbase_scheme \<Rightarrow> nat \<times> 'a nicbase_scheme" where
  "post_cacheDma r e s =
     (let (i, s1) = add_dmaReq r s;
          s2 = s1\<lparr>cacheDmaAccessFifo := cacheDmaAccessFifo s1 @ [i]\<rparr>
      in (i, sched_next e s2))"

section \<open>Frame rules\<close>

named_theorems frame_simps \<open>what scheduling and posting leave unchanged\<close>

lemma sched_at_sim [frame_simps, simp]:
  "curTick (sched_at e t s) = curTick s"
  "clockPeriod (sched_at e t s) = clockPeriod s"
  "curTick (sched_next e s) = curTick s"
  "clockPeriod (sched_next e s) = clockPeriod s"
  "curTick (sched_next_if c e s) = curTick s"
  "clockPeriod (sched_next_if c e s) = clockPeriod s"
  by (simp_all add: sched_at_def sched_next_def sched_next_if_def)

lemma sched_at_nicbase [frame_simps, simp]:
  "heap (sched_at e t s) = heap s" "heap (sched_next e s) = heap s" "heap (sched_next_if c e s) = heap s"
  "junk (sched_at e t s) = junk s" "junk (sched_next e s) = junk s" "junk (sched_next_if c e s) = junk s"
  "hostMem (sched_at e t s) = hostMem s" "hostMem (sched_next e s) = hostMem s"
  "hostMem (sched_next_if c e s) = hostMem s"
  "pciToDma (sched_at e t s) = pciToDma s" "pciToDma (sched_next e s) = pciToDma s"
  "pciToDma (sched_next_if c e s) = pciToDma s"
  "dmaReqs (sched_at e t s) = dmaReqs s" "dmaReqs (sched_next e s) = dmaReqs s"
  "dmaReqs (sched_next_if c e s) = dmaReqs s"
  "cacheDmaAccessFifo (sched_at e t s) = cacheDmaAccessFifo s"
  "cacheDmaAccessFifo (sched_next e s) = cacheDmaAccessFifo s"
  "cacheDmaAccessFifo (sched_next_if c e s) = cacheDmaAccessFifo s"
  "rnd (sched_at e t s) = rnd s" "rnd (sched_next e s) = rnd s" "rnd (sched_next_if c e s) = rnd s"
  "rndCnt (sched_at e t s) = rndCnt s" "rndCnt (sched_next e s) = rndCnt s"
  "rndCnt (sched_next_if c e s) = rndCnt s"
  by (simp_all add: sched_at_def sched_next_def sched_next_if_def)

lemma sched_at_more [simp]:
  "nicbase.more (sched_at e t s) = nicbase.more s"
  "nicbase.more (sched_next e s) = nicbase.more s"
  "nicbase.more (sched_next_if c e s) = nicbase.more s"
  by (simp_all add: sched_at_def sched_next_def sched_next_if_def)

lemma post_cacheDma_frame [simp]:
  "post_cacheDma r e s = (i, s') \<Longrightarrow> nicbase.more s' = nicbase.more s"
  "post_cacheDma r e s = (i, s') \<Longrightarrow> heap s' = heap s"
  "post_cacheDma r e s = (i, s') \<Longrightarrow> dmaReqs s' = dmaReqs s @ [r]"
  "post_cacheDma r e s = (i, s') \<Longrightarrow> i = length (dmaReqs s)"
  "post_cacheDma r e s = (i, s') \<Longrightarrow>
     cacheDmaAccessFifo s' = cacheDmaAccessFifo s @ [length (dmaReqs s)]"
  by (auto simp: post_cacheDma_def add_dmaReq_def Let_def)

lemma random_upto_le: "random_upto hi s = (k, s') \<Longrightarrow> k \<le> hi"
  by (auto simp: random_upto_def less_Suc_eq_le [symmetric])

end
