(* ===== verification/Icm.thy ===== *)
theory Icm
  imports Sim
begin

text \<open>
  The table that maps the pages of a resource space (queue pair contexts, completion queue
  contexts, protection and translation entries) to host memory: class \<^verbatim>\<open>IcmManage\<close> of
  \<^verbatim>\<open>hangu_rnic.hh\<close> and the same code in \<^verbatim>\<open>RescCache\<close>. The driver allocates the space in chunks of
  contiguous pages; \<open>num2phyAddr_icmStore\<close> says that the device then finds entry \<open>n\<close> of the
  resource at its place inside the chunk.
\<close>

section \<open>Operations\<close>

text \<open>
  The page array has \<^verbatim>\<open>ICM_MAX_PAGE_NUM\<close> entries and is not initialised; an index beyond it is
  outside the array.
\<close>

record IcmManage =
  baseAddr :: u64
  icmPage :: "nat \<Rightarrow> u64"
  rescSz :: u32

definition num2phyAddr :: "u32 \<Rightarrow> IcmManage \<Rightarrow> u64 res" where
  "num2phyAddr num m =
     (let vAddr = num * rescSz m;
          icmIdx = drop_bit 12 vAddr;
          offset = vAddr AND 0xfff
      in ensure (icmIdx < ICM_MAX_PAGE_NUM) (Undefined ''icmPage index'')
           (Inr (icmPage m (unat icmIdx) + ucast offset)))"

definition icm_setBase :: "u64 \<Rightarrow> IcmManage \<Rightarrow> IcmManage" where
  "icm_setBase base m = m\<lparr>baseAddr := base\<rparr>"

text \<open>The inner loop of \<^verbatim>\<open>icmStore\<close>, on the number of pages left.\<close>

fun icmStore_pages :: "nat \<Rightarrow> u32 \<Rightarrow> u64 \<Rightarrow> (nat \<Rightarrow> u64) \<Rightarrow> (nat \<Rightarrow> u64) res" where
  "icmStore_pages 0 idx pAddr pages = Inr pages"
| "icmStore_pages (Suc n) idx pAddr pages =
     ensure (idx < ICM_MAX_PAGE_NUM) (Undefined ''icmPage index'')
       (icmStore_pages n (idx + 1) (pAddr + 4096) (pages(unat idx := pAddr)))"

definition icmStore_chunk :: "IcmResc \<Rightarrow> IcmManage \<Rightarrow> IcmManage res" where
  "icmStore_chunk r m =
     ebind (icmStore_pages (unat (icm_pageNum r)) (ucast (drop_bit 12 (icm_vAddr r - baseAddr m)))
              (icm_pAddr r) (icmPage m))
       (\<lambda>pages. Inr (m\<lparr>icmPage := pages\<rparr>))"

fun icmStore :: "IcmResc list \<Rightarrow> IcmManage \<Rightarrow> IcmManage res" where
  "icmStore [] m = Inr m"
| "icmStore (r # rs) m = ebind (icmStore_chunk r m) (icmStore rs)"

section \<open>Behaviour\<close>

lemma icmStore_pages_eq:
  assumes "unat idx + n \<le> 65536"
  shows "icmStore_pages n idx pAddr pages =
     Inr (\<lambda>j. if unat idx \<le> j \<and> j < unat idx + n
              then pAddr + 4096 * of_nat (j - unat idx) else pages j)"
  using assms
proof (induction n arbitrary: idx pAddr pages)
  case 0
  then show ?case by (auto simp: fun_eq_iff)
next
  case (Suc n)
  have u: "n = 0 \<or> unat (idx + 1) = Suc (unat idx)"
  proof (cases n)
    case (Suc k)
    then have "Suc (unat idx) < 2 ^ 32" using Suc.prems by simp
    then show ?thesis by (simp add: unat_word_ariths)
  qed simp
  have i: "unat idx < 65536" using Suc.prems by simp
  show ?case
  proof (cases "n = 0")
    case True
    with i show ?thesis by (auto simp: fun_eq_iff le_Suc_eq word_less_nat_alt)
  next
    case False
    with u have u1: "unat (idx + 1) = Suc (unat idx)" by simp
    have "icmStore_pages n (idx + 1) (pAddr + 4096) (pages(unat idx := pAddr)) =
       Inr (\<lambda>j. if Suc (unat idx) \<le> j \<and> j < Suc (unat idx) + n
                then pAddr + 4096 + 4096 * of_nat (j - Suc (unat idx))
                else (pages(unat idx := pAddr)) j)"
      using Suc.IH [of "idx + 1"] Suc.prems u1 by (simp cong: if_cong)
    also have "\<dots> = Inr (\<lambda>j. if unat idx \<le> j \<and> j < unat idx + Suc n
              then pAddr + 4096 * of_nat (j - unat idx) else pages j)"
    proof -
      have "of_nat (j - unat idx) = (1 :: u64) + of_nat (j - Suc (unat idx))" if "unat idx < j" for j
        using that by (metis Suc_diff_Suc of_nat_Suc)
      then show ?thesis by (auto simp: fun_eq_iff algebra_simps)
    qed
    finally show ?thesis using i by (simp add: word_less_nat_alt)
  qed
qed

lemma icmStore_pages_fits: "icmStore_pages (Suc n) idx pAddr pages = Inr p' \<Longrightarrow> unat idx + n < 65536"
proof (induction n arbitrary: idx pAddr pages)
  case 0
  then show ?case by (simp add: ensure_Inr word_less_nat_alt)
next
  case (Suc n)
  then have i: "unat idx < 65536" and
    "icmStore_pages (Suc n) (idx + 1) (pAddr + 4096) (pages(unat idx := pAddr)) = Inr p'"
    by (simp_all only: icmStore_pages.simps(2) [of "Suc n"] ensure_Inr word_less_nat_alt unat_numeral) simp_all
  from Suc.IH [OF this(2)] i show ?case by (simp add: unat_word_ariths)
qed

lemma drop_bit_unat: "unat (drop_bit k (w :: 'a::len word)) = unat w div 2 ^ k"
  by (subst unat_drop_bit_eq) (simp add: drop_bit_eq_div)

lemma and_mask_unat: "unat ((w :: u32) AND 0xfff) = unat w mod 4096"
proof -
  have "w AND 0xfff = take_bit 12 w"
    by (simp add: take_bit_eq_mask mask_eq_exp_minus_1)
  then show ?thesis by (simp add: take_bit_eq_mod unat_mod)
qed

text \<open>
  Entry \<open>n\<close> lies in page \<open>n * rescSz div 4096\<close> of the space; if a chunk maps that page, the
  entry is at the same distance from the start of the chunk in host memory.
\<close>

lemma num2phyAddr_chunk:
  assumes st: "icmStore_chunk r m = Inr m'"
    and al: "unat (icm_vAddr r - baseAddr m) = 4096 * p0"
    and fit: "p0 + unat (icm_pageNum r) \<le> 65536"
    and no: "unat num * unat (rescSz m) < 2 ^ 32"
    and lo: "4096 * p0 \<le> unat num * unat (rescSz m)"
    and hi: "unat num * unat (rescSz m) < 4096 * (p0 + unat (icm_pageNum r))"
  shows "num2phyAddr num m' =
     Inr (icm_pAddr r + of_nat (unat num * unat (rescSz m) - 4096 * p0))"
proof -
  define v where "v = unat num * unat (rescSz m)"
  have p0: "p0 < 65536" using lo hi fit by simp
  have db: "unat (drop_bit 12 (icm_vAddr r - baseAddr m)) = p0"
    using al by (simp add: drop_bit_unat)
  have idx: "unat (ucast (drop_bit 12 (icm_vAddr r - baseAddr m)) :: u32) = p0"
    using db p0 by (simp add: unsigned_ucast_eq take_bit_nat_eq_self_iff)
  have m': "m' = m\<lparr>icmPage := \<lambda>j. if p0 \<le> j \<and> j < p0 + unat (icm_pageNum r)
      then icm_pAddr r + 4096 * of_nat (j - p0) else icmPage m j\<rparr>"
    using st fit idx
    by (simp add: icmStore_chunk_def icmStore_pages_eq cong: if_cong)
  have va: "unat (num * rescSz m) = v"
    using no by (simp add: v_def unat_word_ariths)
  have ix: "unat (drop_bit 12 (num * rescSz m)) = v div 4096"
    by (simp add: drop_bit_unat va)
  have rng: "p0 \<le> v div 4096" "v div 4096 < p0 + unat (icm_pageNum r)"
    using lo hi unfolding v_def by simp_all
  have of: "(ucast ((num * rescSz m) AND 0xfff) :: u64) = of_nat (v mod 4096)"
    by (simp flip: va and_mask_unat)
  have "4096 * (v div 4096 - p0) + v mod 4096 = v - 4096 * p0"
    using rng(1) lo unfolding v_def by (simp add: diff_mult_distrib2)
  then have eq: "(4096 * of_nat (v div 4096 - p0) + of_nat (v mod 4096) :: u64) = of_nat (v - 4096 * p0)"
    by (metis of_nat_add of_nat_mult of_nat_numeral)
  have fin: "icm_pAddr r + 4096 * of_nat (v div 4096 - p0) + of_nat (v mod 4096) =
      icm_pAddr r + (of_nat (v - 4096 * p0) :: u64)"
    using eq by (simp add: add.assoc)
  show ?thesis
    using rng fit fin by (simp add: num2phyAddr_def m' ix of Let_def v_def word_less_nat_alt)
qed

text \<open>A chunk leaves the pages it does not cover alone.\<close>

definition chunk_first :: "IcmManage \<Rightarrow> IcmResc \<Rightarrow> nat" where
  "chunk_first m r = unat (ucast (drop_bit 12 (icm_vAddr r - baseAddr m)) :: u32)"

definition chunk_covers :: "IcmManage \<Rightarrow> IcmResc \<Rightarrow> nat \<Rightarrow> bool" where
  "chunk_covers m r pg \<longleftrightarrow> chunk_first m r \<le> pg \<and> pg < chunk_first m r + unat (icm_pageNum r)"

lemma icmStore_chunk_other:
  assumes st: "icmStore_chunk r m = Inr m'" and nc: "\<not> chunk_covers m r pg"
  shows "icmPage m' pg = icmPage m pg" "baseAddr m' = baseAddr m" "rescSz m' = rescSz m"
proof -
  obtain p where p: "icmStore_pages (unat (icm_pageNum r))
        (ucast (drop_bit 12 (icm_vAddr r - baseAddr m))) (icm_pAddr r) (icmPage m) = Inr p"
    and m': "m' = m\<lparr>icmPage := p\<rparr>"
    using st by (auto simp: icmStore_chunk_def ebind_Inr)
  have "p pg = icmPage m pg"
  proof (cases "unat (icm_pageNum r)")
    case 0
    with p show ?thesis by simp
  next
    case (Suc n)
    then have "chunk_first m r + unat (icm_pageNum r) \<le> 65536"
      using icmStore_pages_fits p by (fastforce simp: chunk_first_def)
    from icmStore_pages_eq [OF this [unfolded chunk_first_def]] p nc show ?thesis
      by (auto simp: chunk_covers_def chunk_first_def)
  qed
  then show "icmPage m' pg = icmPage m pg" "baseAddr m' = baseAddr m" "rescSz m' = rescSz m"
    by (simp_all add: m')
qed

lemma icmStore_chunk_keeps:
  "icmStore_chunk r m = Inr m' \<Longrightarrow> baseAddr m' = baseAddr m \<and> rescSz m' = rescSz m"
  by (auto simp: icmStore_chunk_def ebind_Inr)

lemma icmStore_keeps:
  "icmStore rs m = Inr m' \<Longrightarrow> baseAddr m' = baseAddr m \<and> rescSz m' = rescSz m"
  by (induction rs arbitrary: m) (auto simp: ebind_Inr dest: icmStore_chunk_keeps)

lemma icmStore_other:
  "icmStore rs m = Inr m' \<Longrightarrow> (\<And>r. r \<in> set rs \<Longrightarrow> \<not> chunk_covers m r pg) \<Longrightarrow>
     icmPage m' pg = icmPage m pg"
proof (induction rs arbitrary: m)
  case (Cons r rs)
  then obtain m1 where m1: "icmStore_chunk r m = Inr m1" "icmStore rs m1 = Inr m'"
    by (auto simp: ebind_Inr)
  have "chunk_covers m1 r' pg = chunk_covers m r' pg" for r'
    using icmStore_chunk_keeps [OF m1(1)] by (simp add: chunk_covers_def chunk_first_def)
  with Cons m1 icmStore_chunk_other(1) [OF m1(1)] show ?case by simp
qed simp

lemma icmStore_append:
  "icmStore (rs @ rs') m = ebind (icmStore rs m) (icmStore rs')"
  by (induction rs arbitrary: m) (auto simp: ebind_def split: sum.splits)

lemma num2phyAddr_page:
  "rescSz m = rescSz m' \<Longrightarrow>
   icmPage m (unat (drop_bit 12 (num * rescSz m))) = icmPage m' (unat (drop_bit 12 (num * rescSz m))) \<Longrightarrow>
   num2phyAddr num m = num2phyAddr num m'"
  by (simp add: num2phyAddr_def Let_def)

text \<open>
  C19. Address translation. The driver writes a list of chunks; entry \<open>num\<close> of the resource,
  in a page covered by chunk \<open>r\<close> and by no later chunk, is translated to its place in that chunk's
  host memory.
\<close>

theorem num2phyAddr_icmStore:
  assumes "icmStore (rs @ r # rs') m = Inr m'"
    and "unat (icm_vAddr r - baseAddr m) = 4096 * p0"
    and "p0 + unat (icm_pageNum r) \<le> 65536"
    and "unat num * unat (rescSz m) < 2 ^ 32"
    and "4096 * p0 \<le> unat num * unat (rescSz m)"
    and "unat num * unat (rescSz m) < 4096 * (p0 + unat (icm_pageNum r))"
    and "\<And>r'. r' \<in> set rs' \<Longrightarrow> \<not> chunk_covers m r' (unat num * unat (rescSz m) div 4096)"
  shows "num2phyAddr num m' =
     Inr (icm_pAddr r + of_nat (unat num * unat (rescSz m) - 4096 * p0))"
proof -
  obtain m1 m2 where m1: "icmStore rs m = Inr m1" and m2: "icmStore_chunk r m1 = Inr m2"
    and m3: "icmStore rs' m2 = Inr m'"
    using assms(1) by (auto simp: icmStore_append ebind_Inr)
  have k1: "baseAddr m1 = baseAddr m" "rescSz m1 = rescSz m"
    and k2: "baseAddr m2 = baseAddr m" "rescSz m2 = rescSz m" "rescSz m' = rescSz m"
    using icmStore_keeps [OF m1] icmStore_chunk_keeps [OF m2] icmStore_keeps [OF m3] by auto
  have n2: "num2phyAddr num m2 = Inr (icm_pAddr r + of_nat (unat num * unat (rescSz m) - 4096 * p0))"
    using num2phyAddr_chunk [OF m2, of p0 num] assms k1 by simp
  have "unat (num * rescSz m) = unat num * unat (rescSz m)"
    using assms(4) by (simp add: unat_word_ariths)
  then have "\<not> chunk_covers m2 r' (unat (drop_bit 12 (num * rescSz m)))" if "r' \<in> set rs'" for r'
    using assms(7) [OF that] k2 by (simp add: chunk_covers_def chunk_first_def drop_bit_unat)
  then have "icmPage m' (unat (drop_bit 12 (num * rescSz m))) = icmPage m2 (unat (drop_bit 12 (num * rescSz m)))"
    by (rule icmStore_other [OF m3])
  with num2phyAddr_page [of m' m2 num] k2 n2 show ?thesis by simp
qed

definition icm_two :: IcmManage where
  "icm_two = \<lparr>baseAddr = 0x100000, icmPage = (\<lambda>_. 0), rescSz = 256\<rparr>"

definition icm_chunks :: "IcmResc list" where
  "icm_chunks = [\<lparr>icm_pageNum = 2, icm_vAddr = 0x100000, icm_pAddr = 0x7000\<rparr>,
                 \<lparr>icm_pageNum = 1, icm_vAddr = 0x102000, icm_pAddr = 0x3000\<rparr>]"

lemma num2phyAddr_icmStore_witness:
  "\<exists>m'. icmStore icm_chunks icm_two = Inr m' \<and> num2phyAddr 20 m' = Inr 0x8400"
proof -
  obtain m' where m': "icmStore icm_chunks icm_two = Inr m'"
    by (simp add: icm_chunks_def icm_two_def icmStore_chunk_def icmStore_pages_eq)
  then have "icmStore ([] @ hd icm_chunks # tl icm_chunks) icm_two = Inr m'"
    by (simp add: icm_chunks_def)
  then have "num2phyAddr 20 m' = Inr (icm_pAddr (hd icm_chunks) +
      of_nat (unat (20 :: u32) * unat (rescSz icm_two) - 4096 * 0))"
    by (rule num2phyAddr_icmStore)
      (auto simp: icm_chunks_def icm_two_def chunk_covers_def chunk_first_def)
  with m' show ?thesis by (simp add: icm_two_def icm_chunks_def)
qed

end
