(* ===== verification/RescCache.thy ===== *)
theory RescCache
  imports Icm
begin

text \<open>
  The template \<^verbatim>\<open>RescCache<T, S>\<close> of \<^verbatim>\<open>hangu_rnic.hh\<close>/\<^verbatim>\<open>.cc\<close>, used for protection entries, translation
  entries and completion queue contexts: a cache of resources \<open>'t\<close> in front of host memory whose
  read requests carry a packet \<open>'s\<close> that comes back with the response. Misses are fetched by DMA,
  one at a time; a full cache writes a random victim back. The operations work on the cache and the
  device state \<open>'a nicbase_scheme\<close> (event queue, heap, DMA requests).
\<close>

section \<open>Data\<close>

record ('t, 's) CacheRdPkt =
  cr_cplEvent :: "event option"
  cr_rescIdx :: u32
  cr_rescDma :: "nat option"
  cr_reqPkt :: 's
  cr_dmaReq :: "nat option"
  cr_rspResc :: "nat option"
  cr_rescUpdate :: "('t \<Rightarrow> 't) option"

text \<open>
  \<open>rc_inj\<close>, \<open>rc_prj\<close> and \<open>rc_fresh\<close> describe the resource type on the heap: how a value becomes an
  object and back, and the content of a new one.
\<close>

record ('t, 's) RescCache =
  rc_cache :: "(u32, 't) umap"
  rc_capacity :: u32
  rc_reqFifo :: "('t, 's) CacheRdPkt list"
  rc_icm :: IcmManage
  rc_rreq2rrspFifo :: "('t, 's) CacheRdPkt list"
  rc_rrspFifo :: "(nat \<times> 's) list"
  rc_readProcEvent :: event
  rc_fetchCplEvent :: event
  rc_inj :: "'t \<Rightarrow> obj"
  rc_prj :: "obj \<Rightarrow> 't option"
  rc_fresh :: 't

definition new_RescCache ::
  "u32 \<Rightarrow> IcmManage \<Rightarrow> event \<Rightarrow> event \<Rightarrow> ('t \<Rightarrow> obj) \<Rightarrow> (obj \<Rightarrow> 't option) \<Rightarrow> 't \<Rightarrow> ('t, 's) RescCache" where
  "new_RescCache cacheSize icm rdE fcE mk prj fresh =
     \<lparr>rc_cache = um_empty, rc_capacity = cacheSize, rc_reqFifo = [], rc_icm = icm,
      rc_rreq2rrspFifo = [], rc_rrspFifo = [], rc_readProcEvent = rdE, rc_fetchCplEvent = fcE,
      rc_inj = mk, rc_prj = prj, rc_fresh = fresh\<rparr>"

definition deref_resc :: "('t, 's) RescCache \<Rightarrow> nat option \<Rightarrow> 'a nicbase_scheme \<Rightarrow> 't res" where
  "deref_resc c p s =
     (case p of None \<Rightarrow> Inl (Undefined ''null resource pointer'')
      | Some q \<Rightarrow> ebind (deref q s)
          (\<lambda>ob. case rc_prj c ob of None \<Rightarrow> Inl (Undefined ''wrong type'') | Some v \<Rightarrow> Inr v))"

text \<open>A copy to where the pointer leads, if there is one; a pointer to no object is undefined.\<close>

definition put_resc :: "('t, 's) RescCache \<Rightarrow> nat option \<Rightarrow> 't \<Rightarrow> 'a nicbase_scheme \<Rightarrow> 'a nicbase_scheme res" where
  "put_resc c p v s =
     (case p of None \<Rightarrow> Inr s | Some q \<Rightarrow> ebind (deref q s) (\<lambda>_. Inr (heap_set q (rc_inj c v) s)))"

section \<open>Operations\<close>

definition rescNum2phyAddr :: "u32 \<Rightarrow> ('t, 's) RescCache \<Rightarrow> u64 res" where
  "rescNum2phyAddr num c = num2phyAddr num (rc_icm c)"

definition replaceScheme :: "('t, 's) RescCache \<Rightarrow> 'a nicbase_scheme \<Rightarrow> (u32 \<times> 'a nicbase_scheme) res" where
  "replaceScheme c s =
     (case um_list (rc_cache c) of
        [] \<Rightarrow> Inl (Undefined ''begin() of an empty map'')
      | e # _ \<Rightarrow>
          let r = random_upto (um_size (rc_cache c) - 1) s
          in Inr (fst (foldl (\<lambda>(rescNum, cnt) it. (if cnt = 0 then fst it else rescNum, cnt - 1))
                         (fst e, of_nat (fst r) :: u32) (um_list (rc_cache c))), snd r))"

definition storeReq :: "u64 \<Rightarrow> nat \<Rightarrow> ('t, 's) RescCache \<Rightarrow> 'a nicbase_scheme \<Rightarrow> 'a nicbase_scheme" where
  "storeReq addr resc c s =
     snd (post_cacheDma
       ((new_DmaReq (pciToDma s addr) (sint (rescSz (rc_icm c))) None (Some (resc, 0)))\<lparr>dr_reqType := 1\<rparr>)
       DmaWriteEvent s)"

definition fetchReq ::
  "u64 \<Rightarrow> event option \<Rightarrow> u32 \<Rightarrow> 's \<Rightarrow> nat option \<Rightarrow> ('t \<Rightarrow> 't) option \<Rightarrow> ('t, 's) RescCache \<Rightarrow>
     'a nicbase_scheme \<Rightarrow> ('t, 's) RescCache \<times> 'a nicbase_scheme" where
  "fetchReq addr cplEvent rescIdx reqPkt rspResc rescUpdate c s =
     (let a = alloc (rc_inj c (rc_fresh c)) s;
          d = post_cacheDma
            (new_DmaReq (pciToDma s addr) (sint (rescSz (rc_icm c))) (Some (rc_fetchCplEvent c))
               (Some (fst a, 0))) DmaReadEvent (snd a)
      in (c\<lparr>rc_rreq2rrspFifo := rc_rreq2rrspFifo c @
             [\<lparr>cr_cplEvent = cplEvent, cr_rescIdx = rescIdx, cr_rescDma = Some (fst a),
               cr_reqPkt = reqPkt, cr_dmaReq = Some (fst d), cr_rspResc = rspResc,
               cr_rescUpdate = rescUpdate\<rparr>]\<rparr>, snd d))"

text \<open>A write to the cache on a miss: insert, after writing a victim back if the cache is full.\<close>

definition insert_resc ::
  "u32 \<Rightarrow> 't \<Rightarrow> ('t, 's) RescCache \<Rightarrow> 'a nicbase_scheme \<Rightarrow> (('t, 's) RescCache \<times> 'a nicbase_scheme) res" where
  "insert_resc rescIdx v c s =
     (if um_size (rc_cache c) < unat (rc_capacity c)
      then Inr (c\<lparr>rc_cache := um_emplace (rc_cache c) rescIdx v\<rparr>, s)
      else
        ebind (replaceScheme c s) (\<lambda>vic.
        ebind (rescNum2phyAddr (fst vic) c) (\<lambda>pAddr.
        case um_lookup (rc_cache c) (fst vic) of
          None \<Rightarrow> Inl (Undefined ''victim not in the cache'')
        | Some old \<Rightarrow>
            let b = alloc (rc_inj c old) (snd vic)
            in Inr (c\<lparr>rc_cache := um_emplace (um_erase (rc_cache c) (fst vic)) rescIdx v\<rparr>,
                    storeReq pAddr (fst b) c (snd b)))))"

definition dma_rdVld :: "('t, 's) CacheRdPkt \<Rightarrow> 'a nicbase_scheme \<Rightarrow> bool" where
  "dma_rdVld r s = (case cr_dmaReq r of None \<Rightarrow> False | Some i \<Rightarrow> dr_rdVld (dmaReqs s ! i))"

definition respond ::
  "event option \<Rightarrow> nat \<Rightarrow> 's \<Rightarrow> ('t, 's) RescCache \<Rightarrow> 'a nicbase_scheme \<Rightarrow> ('t, 's) RescCache \<times> 'a nicbase_scheme" where
  "respond cplEvent resc reqPkt c s =
     (case cplEvent of
        None \<Rightarrow> (c, s)
      | Some e \<Rightarrow> (c\<lparr>rc_rrspFifo := rc_rrspFifo c @ [(resc, reqPkt)]\<rparr>, sched_next e s))"

definition update_resc :: "('t \<Rightarrow> 't) option \<Rightarrow> u32 \<Rightarrow> ('t, 's) RescCache \<Rightarrow> ('t, 's) RescCache" where
  "update_resc rescUpdate rescIdx c =
     (case (rescUpdate, um_lookup (rc_cache c) rescIdx) of
        (Some f, Some v) \<Rightarrow> c\<lparr>rc_cache := um_assign (rc_cache c) rescIdx (f v)\<rparr>
      | _ \<Rightarrow> c)"

definition fetchRsp_tail :: "('t, 's) RescCache \<Rightarrow> 'a nicbase_scheme \<Rightarrow> 'a nicbase_scheme" where
  "fetchRsp_tail c s =
     (case rc_rreq2rrspFifo c of
        [] \<Rightarrow> sched_next (rc_readProcEvent c) s
      | r # _ \<Rightarrow> sched_next_if (dma_rdVld r s) (rc_fetchCplEvent c) s)"

text \<open>
  The three stages of \<^verbatim>\<open>fetchRsp\<close>: bring the entry into the cache and to the requester's buffer,
  answer, update the entry and schedule what comes next.
\<close>

definition fetchRsp_fill ::
  "('t, 's) CacheRdPkt \<Rightarrow> nat \<Rightarrow> ('t, 's) RescCache \<Rightarrow> 'a nicbase_scheme \<Rightarrow>
     (('t, 's) RescCache \<times> 'a nicbase_scheme) res" where
  "fetchRsp_fill rrsp rescDma c s =
     (case um_lookup (rc_cache c) (cr_rescIdx rrsp) of
        Some v \<Rightarrow>
          ebind (put_resc c (Some rescDma) v s) (\<lambda>s1.
          ebind (put_resc c (cr_rspResc rrsp) v s1) (\<lambda>s2. Inr (c, s2)))
      | None \<Rightarrow>
          ebind (deref_resc c (Some rescDma) s) (\<lambda>v.
          ebind (insert_resc (cr_rescIdx rrsp) v c s) (\<lambda>cs.
          ebind (put_resc c (cr_rspResc rrsp) v (snd cs)) (\<lambda>s1. Inr (fst cs, s1)))))"

definition fetchRsp_finish ::
  "('t, 's) CacheRdPkt \<Rightarrow> nat \<Rightarrow> ('t, 's) RescCache \<times> 'a nicbase_scheme \<Rightarrow>
     ('t, 's) RescCache \<times> 'a nicbase_scheme" where
  "fetchRsp_finish rrsp rescDma cs =
     (let cs1 = respond (cr_cplEvent rrsp) rescDma (cr_reqPkt rrsp) (fst cs) (snd cs);
          c2 = update_resc (cr_rescUpdate rrsp) (cr_rescIdx rrsp) (fst cs1)
      in (c2, fetchRsp_tail c2 (snd cs1)))"

definition fetchRsp ::
  "('t, 's) RescCache \<Rightarrow> 'a nicbase_scheme \<Rightarrow> (('t, 's) RescCache \<times> 'a nicbase_scheme) res" where
  "fetchRsp c s =
     (case rc_rreq2rrspFifo c of
        [] \<Rightarrow> Inr (c, s)
      | rrsp # rest \<Rightarrow>
          (case cr_dmaReq rrsp of
             None \<Rightarrow> Inl (Undefined ''null dmaReq'')
           | Some _ \<Rightarrow>
               if \<not> dma_rdVld rrsp s then Inr (c, s)
               else (case cr_rescDma rrsp of
                  None \<Rightarrow> Inl (Undefined ''null rescDma'')
                | Some rescDma \<Rightarrow>
                    ebind (fetchRsp_fill rrsp rescDma (c\<lparr>rc_rreq2rrspFifo := rest\<rparr>) s)
                      (\<lambda>cs. Inr (fetchRsp_finish rrsp rescDma cs)))))"

definition rc_setBase :: "u64 \<Rightarrow> ('t, 's) RescCache \<Rightarrow> ('t, 's) RescCache" where
  "rc_setBase base c = c\<lparr>rc_icm := icm_setBase base (rc_icm c)\<rparr>"

definition rc_icmStore :: "IcmResc list \<Rightarrow> ('t, 's) RescCache \<Rightarrow> ('t, 's) RescCache res" where
  "rc_icmStore rs c = ebind (icmStore rs (rc_icm c)) (\<lambda>m. Inr (c\<lparr>rc_icm := m\<rparr>))"

text \<open>
  On a hit with no update function the code copies the entry to a local variable and deletes the
  address of that variable, which the language gives no meaning to.
\<close>

definition rescWrite ::
  "u32 \<Rightarrow> 't \<Rightarrow> ('t \<Rightarrow> 't \<Rightarrow> 't) option \<Rightarrow> ('t, 's) RescCache \<Rightarrow> 'a nicbase_scheme \<Rightarrow>
     (('t, 's) RescCache \<times> 'a nicbase_scheme) res" where
  "rescWrite rescIdx resc rescUpdate c s =
     (case um_lookup (rc_cache c) rescIdx of
        Some v \<Rightarrow>
          (case rescUpdate of
             None \<Rightarrow> Inl (Undefined ''delete of a local variable'')
           | Some f \<Rightarrow> Inr (c\<lparr>rc_cache := um_assign (rc_cache c) rescIdx (f v resc)\<rparr>, s))
      | None \<Rightarrow>
          if um_size (rc_cache c) \<le> unat (rc_capacity c) then insert_resc rescIdx resc c s
          else Inl (Panicked ''RescCache.rescWrite: mismatch''))"

definition rescRead ::
  "u32 \<Rightarrow> event option \<Rightarrow> 's \<Rightarrow> nat option \<Rightarrow> ('t \<Rightarrow> 't) option \<Rightarrow> ('t, 's) RescCache \<Rightarrow>
     'a nicbase_scheme \<Rightarrow> ('t, 's) RescCache \<times> 'a nicbase_scheme" where
  "rescRead rescIdx cplEvent reqPkt rspResc rescUpdate c s =
     (c\<lparr>rc_reqFifo := rc_reqFifo c @
         [\<lparr>cr_cplEvent = cplEvent, cr_rescIdx = rescIdx, cr_rescDma = None, cr_reqPkt = reqPkt,
           cr_dmaReq = None, cr_rspResc = rspResc, cr_rescUpdate = rescUpdate\<rparr>]\<rparr>,
      sched_next (rc_readProcEvent c) s)"

definition readProc_hit ::
  "('t, 's) CacheRdPkt \<Rightarrow> 't \<Rightarrow> ('t, 's) RescCache \<Rightarrow> 'a nicbase_scheme \<Rightarrow>
     (('t, 's) RescCache \<times> 'a nicbase_scheme) res" where
  "readProc_hit rreq v c s =
     ebind (put_resc c (cr_rspResc rreq) v s) (\<lambda>s1.
       let cs = (if cr_cplEvent rreq = None then (c, s1)
                 else let b = alloc (rc_inj c v) s1
                      in respond (cr_cplEvent rreq) (fst b) (cr_reqPkt rreq) c (snd b));
           c2 = update_resc (cr_rescUpdate rreq) (cr_rescIdx rreq) (fst cs)
       in Inr (c2, sched_next_if (rc_reqFifo c2 \<noteq> []) (rc_readProcEvent c2) (snd cs)))"

definition rc_readProc ::
  "('t, 's) RescCache \<Rightarrow> 'a nicbase_scheme \<Rightarrow> (('t, 's) RescCache \<times> 'a nicbase_scheme) res" where
  "rc_readProc c s =
     (case rc_reqFifo c of
        [] \<Rightarrow> Inr (c, s)
      | rreq # rest \<Rightarrow>
          if rc_rreq2rrspFifo c \<noteq> [] then Inr (c, s)
          else
            let rescIdx = cr_rescIdx rreq;
                c1 = c\<lparr>rc_reqFifo := rest\<rparr>
            in case um_lookup (rc_cache c1) rescIdx of
                 Some v \<Rightarrow> readProc_hit rreq v c1 s
               | None \<Rightarrow>
                   if um_size (rc_cache c1) \<le> unat (rc_capacity c1)
                   then ebind (rescNum2phyAddr rescIdx c1) (\<lambda>pAddr.
                          Inr (fetchReq pAddr (cr_cplEvent rreq) rescIdx (cr_reqPkt rreq)
                                 (cr_rspResc rreq) (cr_rescUpdate rreq) c1 s))
                   else Inl (Panicked ''RescCache.readProc: mismatch''))"

section \<open>Invariant and capacity\<close>

definition rc_inv :: "('t, 's) RescCache \<Rightarrow> bool" where
  "rc_inv c \<longleftrightarrow> um_inv (rc_cache c) \<and> um_size (rc_cache c) \<le> unat (rc_capacity c) \<and>
     rc_capacity c \<noteq> 0 \<and> length (rc_rreq2rrspFifo c) \<le> 1"

lemma foldl_pick_cnt:
  "fst (foldl (\<lambda>(r, cnt) it. (if cnt = 0 then f it else r, cnt - 1)) (r0, k :: u32) xs)
     \<in> insert r0 (f ` set xs)"
proof (induction xs arbitrary: r0 k)
  case (Cons x xs)
  from Cons.IH [of "if k = 0 then f x else r0" "k - 1"] show ?case by (auto split: if_splits)
qed simp

lemma replaceScheme_in:
  "replaceScheme c s = Inr (n, s') \<Longrightarrow> um_lookup (rc_cache c) n \<noteq> None"
proof -
  assume r: "replaceScheme c s = Inr (n, s')"
  then have ne: "um_list (rc_cache c) \<noteq> []" by (auto simp: replaceScheme_def)
  obtain k where "n = fst (foldl (\<lambda>(r, cnt) it. (if cnt = 0 then fst it else r, cnt - 1))
      (fst (hd (um_list (rc_cache c))), of_nat k :: u32) (um_list (rc_cache c)))"
    using r by (auto simp: replaceScheme_def Let_def split: list.splits prod.splits)
  then have "n \<in> insert (fst (hd (um_list (rc_cache c)))) (fst ` set (um_list (rc_cache c)))"
    using foldl_pick_cnt [of fst "fst (hd (um_list (rc_cache c)))" "of_nat k" "um_list (rc_cache c)"]
    by simp
  then have "n \<in> fst ` set (um_list (rc_cache c))" using hd_in_set [OF ne] by blast
  then show ?thesis by (simp add: um_lookup_def map_of_eq_None_iff)
qed

lemma insert_resc_inv:
  assumes "insert_resc n v c s = Inr (c', s')" and "rc_inv c" and "um_lookup (rc_cache c) n = None"
  shows "rc_inv c' \<and> um_lookup (rc_cache c') n = Some v \<and> rc_reqFifo c' = rc_reqFifo c \<and>
    rc_rreq2rrspFifo c' = rc_rreq2rrspFifo c \<and> rc_rrspFifo c' = rc_rrspFifo c \<and>
    (\<forall>k w. k \<noteq> n \<longrightarrow> um_lookup (rc_cache c') k = Some w \<longrightarrow> um_lookup (rc_cache c) k = Some w)"
proof (cases "um_size (rc_cache c) < unat (rc_capacity c)")
  case True
  then show ?thesis
    using assms by (auto simp: insert_resc_def rc_inv_def um.invar_emplace um.size_emplace_new um.lookup_emplace)
next
  case False
  then obtain w s1 where w: "replaceScheme c s = Inr (w, s1)"
    and c': "c' = c\<lparr>rc_cache := um_emplace (um_erase (rc_cache c) w) n v\<rparr>"
    using assms(1)
    by (auto simp: insert_resc_def ebind_Inr Let_def alloc_def split: option.splits)
  from replaceScheme_in [OF w] assms(2,3) um.size_replace [of "rc_cache c" w n v] show ?thesis
    by (auto simp: c' rc_inv_def um.invar_emplace um.invar_erase um.lookup_replace split: if_splits)
qed

text \<open>Filling a cache that is not over its capacity succeeds if the victim's page is in the table.\<close>

lemma insert_resc_ok:
  assumes "rc_inv c" and "\<And>k. um_lookup (rc_cache c) k \<noteq> None \<Longrightarrow> \<exists>a. rescNum2phyAddr k c = Inr a"
  shows "\<exists>r. insert_resc n v c s = Inr r"
proof (cases "um_size (rc_cache c) < unat (rc_capacity c)")
  case True
  then show ?thesis by (simp add: insert_resc_def)
next
  case False
  with assms(1) have "um_list (rc_cache c) \<noteq> []"
    by (auto simp: rc_inv_def um_size_def unat_eq_0)
  then obtain w s1 where w: "replaceScheme c s = Inr (w, s1)"
    by (cases "replaceScheme c s") (auto simp: replaceScheme_def Let_def split: list.splits prod.splits)
  then obtain a where "rescNum2phyAddr w c = Inr a"
    using assms(2) replaceScheme_in by blast
  moreover obtain old where "um_lookup (rc_cache c) w = Some old" using replaceScheme_in [OF w] by blast
  ultimately show ?thesis using w False by (simp add: insert_resc_def Let_def alloc_def)
qed

lemma update_resc_inv:
  "rc_inv c \<Longrightarrow> rc_inv (update_resc f n c)"
  "rc_reqFifo (update_resc f n c) = rc_reqFifo c"
  "rc_rreq2rrspFifo (update_resc f n c) = rc_rreq2rrspFifo c"
  "rc_rrspFifo (update_resc f n c) = rc_rrspFifo c"
  by (auto simp: update_resc_def rc_inv_def um.invar_assign um.size_assign_old split: option.splits)

lemma respond_inv:
  "rc_inv (fst (respond e p r c s)) = rc_inv c"
  "rc_reqFifo (fst (respond e p r c s)) = rc_reqFifo c"
  "rc_rreq2rrspFifo (fst (respond e p r c s)) = rc_rreq2rrspFifo c"
  "rc_cache (fst (respond e p r c s)) = rc_cache c"
  "rc_rrspFifo (fst (respond e p r c s)) = rc_rrspFifo c @ (if e = None then [] else [(p, r)])"
  by (auto simp: respond_def rc_inv_def split: option.splits)

section \<open>Every read is answered once, in order\<close>

text \<open>The request packets that have been or will be answered, in the order of the answers.\<close>

definition rc_stream :: "('t, 's) RescCache \<Rightarrow> 's list" where
  "rc_stream c = map snd (rc_rrspFifo c) @
     map cr_reqPkt (filter (\<lambda>r. cr_cplEvent r \<noteq> None) (rc_rreq2rrspFifo c @ rc_reqFifo c))"

lemma fetchRsp_fill_inv:
  "fetchRsp_fill r d c s = Inr cs \<Longrightarrow> rc_inv c \<Longrightarrow>
     rc_inv (fst cs) \<and> rc_reqFifo (fst cs) = rc_reqFifo c \<and>
     rc_rreq2rrspFifo (fst cs) = rc_rreq2rrspFifo c \<and> rc_rrspFifo (fst cs) = rc_rrspFifo c \<and>
     um_lookup (rc_cache (fst cs)) (cr_rescIdx r) \<noteq> None"
  by (auto simp: fetchRsp_fill_def ebind_Inr split: option.splits dest: insert_resc_inv)

lemma fetchRsp_inv:
  assumes "fetchRsp c s = Inr (c', s')" and "rc_inv c"
  shows "rc_inv c' \<and> rc_stream c' = rc_stream c"
proof (cases "rc_rreq2rrspFifo c")
  case Nil
  then show ?thesis using assms by (simp add: fetchRsp_def)
next
  case (Cons r rest)
  with assms(2) have rest: "rest = []" by (simp add: rc_inv_def)
  have inv1: "rc_inv (c\<lparr>rc_rreq2rrspFifo := []\<rparr>)" using assms(2) by (simp add: rc_inv_def)
  consider "c' = c" | d cs where "fetchRsp_fill r d (c\<lparr>rc_rreq2rrspFifo := []\<rparr>) s = Inr cs"
      "(c', s') = fetchRsp_finish r d cs"
    using assms(1) Cons rest by (auto simp: fetchRsp_def ebind_Inr split: option.splits if_splits)
  then show ?thesis
  proof cases
    case 2
    with fetchRsp_fill_inv [OF 2(1) inv1] show ?thesis
      by (simp add: fetchRsp_finish_def Let_def update_resc_inv respond_inv rc_stream_def Cons rest)
  qed (use assms in simp)
qed

lemma rc_readProc_inv:
  assumes "rc_readProc c s = Inr (c', s')" and "rc_inv c"
  shows "rc_inv c' \<and> rc_stream c' = rc_stream c"
proof (cases "rc_reqFifo c")
  case Nil
  then show ?thesis using assms by (simp add: rc_readProc_def)
next
  case (Cons r rest)
  define c1 where "c1 = c\<lparr>rc_reqFifo := rest\<rparr>"
  have inv1: "rc_inv c1" using assms(2) by (simp add: c1_def rc_inv_def)
  consider "rc_rreq2rrspFifo c \<noteq> []" "c' = c"
    | (hit) v where "rc_rreq2rrspFifo c = []" "readProc_hit r v c1 s = Inr (c', s')"
    | (miss) a where "rc_rreq2rrspFifo c = []" "(c', s') =
        fetchReq a (cr_cplEvent r) (cr_rescIdx r) (cr_reqPkt r) (cr_rspResc r) (cr_rescUpdate r) c1 s"
    using assms(1) Cons
    by (auto simp: rc_readProc_def Let_def c1_def [symmetric] ebind_Inr split: if_splits option.splits
        intro: sym)
  then show ?thesis
  proof cases
    case hit
    with inv1 show ?thesis
      by (auto simp: readProc_hit_def Let_def ebind_Inr update_resc_inv respond_inv rc_stream_def Cons c1_def)
  next
    case miss
    with inv1 show ?thesis
      by (simp add: fetchReq_def Let_def rc_inv_def rc_stream_def Cons c1_def)
  qed (use assms in simp)
qed

lemma rescRead_inv:
  assumes "rescRead n (Some e) r p f c s = (c', s')" and "rc_inv c"
  shows "rc_inv c' \<and> rc_stream c' = rc_stream c @ [r]"
  using assms by (auto simp: rescRead_def rc_inv_def rc_stream_def)

lemma rescWrite_inv:
  assumes "rescWrite n v f c s = Inr (c', s')" and "rc_inv c"
  shows "rc_inv c' \<and> rc_stream c' = rc_stream c"
proof (cases "um_lookup (rc_cache c) n")
  case None
  then have "insert_resc n v c s = Inr (c', s')"
    using assms(1) by (simp add: rescWrite_def split: if_splits)
  from insert_resc_inv [OF this assms(2) None] show ?thesis by (simp add: rc_stream_def)
next
  case (Some w)
  with assms show ?thesis
    by (auto simp: rescWrite_def rc_inv_def rc_stream_def um.invar_assign um.size_assign_old
        split: option.splits)
qed

text \<open>
  What can happen to a cache: a read or a write is posted, one of its two events runs, its client
  takes a response, or the rest of the device changes its own state in any way.
\<close>

datatype ('t, 's, 'a) rc_act =
    RRead u32 event 's "nat option" "('t \<Rightarrow> 't) option"
  | RWrite u32 't
  | RReadProc
  | RFetchRsp
  | RTake
  | REnv "'a nicbase_scheme"

fun rc_step ::
  "('t, 's, 'a) rc_act \<Rightarrow> 's list \<times> ('t, 's) RescCache \<times> 'a nicbase_scheme \<Rightarrow>
     ('s list \<times> ('t, 's) RescCache \<times> 'a nicbase_scheme) res" where
  "rc_step (RRead n e r p f) (tk, c, s) = Inr (tk, rescRead n (Some e) r p f c s)"
| "rc_step (RWrite n v) (tk, c, s) = ebind (rescWrite n v None c s) (\<lambda>cs. Inr (tk, cs))"
| "rc_step RReadProc (tk, c, s) = ebind (rc_readProc c s) (\<lambda>cs. Inr (tk, cs))"
| "rc_step RFetchRsp (tk, c, s) = ebind (fetchRsp c s) (\<lambda>cs. Inr (tk, cs))"
| "rc_step RTake (tk, c, s) =
     (case rc_rrspFifo c of
        [] \<Rightarrow> Inl (Undefined ''front() of an empty queue'')
      | r # rs \<Rightarrow> Inr (tk @ [snd r], c\<lparr>rc_rrspFifo := rs\<rparr>, s))"
| "rc_step (REnv s') (tk, c, s) = Inr (tk, c, s')"

fun rc_asked :: "('t, 's, 'a) rc_act \<Rightarrow> 's list" where
  "rc_asked (RRead n e r p f) = [r]"
| "rc_asked _ = []"

lemma rc_step_law:
  assumes step: "rc_step a (tk, c, s) = Inr (tk', c', s')" and inv: "rc_inv c"
  shows "rc_inv c' \<and> tk' @ rc_stream c' = tk @ rc_stream c @ rc_asked a"
proof (cases a)
  case RTake
  then show ?thesis
    using step inv by (cases "rc_rrspFifo c") (auto simp: rc_stream_def rc_inv_def)
next
  case (RRead n e r p f)
  then show ?thesis using step inv rescRead_inv [of n e r p f c s c' s'] by simp
next
  case (RWrite n v)
  then show ?thesis using step inv rescWrite_inv [of n v None c s c' s'] by (auto simp: ebind_Inr)
next
  case RReadProc
  then show ?thesis using step inv rc_readProc_inv [of c s c' s'] by (auto simp: ebind_Inr)
next
  case RFetchRsp
  then show ?thesis using step inv fetchRsp_inv [of c s c' s'] by (auto simp: ebind_Inr)
next
  case (REnv z)
  then show ?thesis using step inv by simp
qed

interpretation rcs: in_order_service rc_step rc_asked fst "\<lambda>st. rc_stream (fst (snd st))"
  "\<lambda>st. rc_inv (fst (snd st))"
  by unfold_locales (clarsimp simp: rc_step_law)

text \<open>
  C5. Responses come back exactly once and in request order. Whatever mixture of reads, writes,
  hits, misses, write-backs and DMA completions a cache goes through, the packets its client has
  taken, followed by those still waiting in it, are the packets of the reads that were posted.
\<close>

theorem RescCache_in_order:
  assumes "run_acts rc_step acts ([], c, s) = Inr (taken, c', s')" and "rc_inv c" and "rc_stream c = []"
  shows "taken @ rc_stream c' = concat (map rc_asked acts)"
  using rcs.run_law [OF assms(1)] assms(2,3) by simp

definition rc_sample :: "(MttResc, nat) RescCache" where
  "rc_sample = new_RescCache 1 icm_two MttReadProcEvent MttFetchCplEvent OMtt
     (\<lambda>ob. case ob of OMtt m \<Rightarrow> Some m | _ \<Rightarrow> None) \<lparr>mtt_pAddr = 0\<rparr>"

text \<open>Entry 3 is written and read; a read of entry 4 misses, is fetched, and evicts it.\<close>

definition rc_sample_acts :: "(MttResc, nat, unit) rc_act list" where
  "rc_sample_acts =
     [RWrite 3 \<lparr>mtt_pAddr = 0x1000\<rparr>, RRead 3 MttRspEvent 7 None None, RReadProc,
      RRead 4 MttRspEvent 8 None None, RReadProc, RTake,
      REnv (nicbase0\<lparr>dmaReqs := [(new_DmaReq 0 8 None None)\<lparr>dr_rdVld := True\<rparr>],
                     heap := [None, Some (OMtt \<lparr>mtt_pAddr = 0x2000\<rparr>)]\<rparr>),
      RFetchRsp, RTake, RRead 3 MttRspEvent 9 None None]"

lemma rc_sample_runs: "\<exists>tk c s. run_acts rc_step rc_sample_acts ([], rc_sample, nicbase0) = Inr (tk, c, s)"
proof -
  have "\<not> isl (run_acts rc_step rc_sample_acts ([], rc_sample, nicbase0))" by code_simp
  then show ?thesis by (cases "run_acts rc_step rc_sample_acts ([], rc_sample, nicbase0)") auto
qed

lemma rc_sample_inv: "rc_inv rc_sample" "rc_stream rc_sample = []"
  by (simp_all add: rc_inv_def rc_stream_def rc_sample_def new_RescCache_def um_inv_def um_size_def um_empty_def)

lemma RescCache_in_order_witness:
  "\<exists>tk c s. run_acts rc_step rc_sample_acts ([], rc_sample, nicbase0) = Inr (tk, c, s) \<and>
     tk @ rc_stream c = [7, 8, 9]"
proof -
  obtain tk c s where r: "run_acts rc_step rc_sample_acts ([], rc_sample, nicbase0) = Inr (tk, c, s)"
    using rc_sample_runs by blast
  from RescCache_in_order [OF r rc_sample_inv] have "tk @ rc_stream c = [7, 8, 9]"
    by (simp add: rc_sample_acts_def)
  with r show ?thesis by blast
qed

lemma readProc_hit_no_panic: "readProc_hit r w c t \<noteq> Inl (Panicked x)"
  by (auto simp: readProc_hit_def put_resc_def deref_def ebind_Inl Let_def split: option.splits if_splits)

text \<open>
  C18. A cache never grows beyond its capacity, has at most one fetch outstanding, and so never
  reaches the two \<^verbatim>\<open>mismatch\<close> panics, through any sequence of operations.
\<close>

theorem RescCache_bounded:
  assumes "run_acts rc_step acts ([], c, s) = Inr (taken, c', s')" and "rc_inv c"
  shows "um_size (rc_cache c') \<le> unat (rc_capacity c') \<and> length (rc_rreq2rrspFifo c') \<le> 1 \<and>
    rc_readProc c' s'' \<noteq> Inl (Panicked ''RescCache.readProc: mismatch'') \<and>
    rescWrite n v f c' s'' \<noteq> Inl (Panicked ''RescCache.rescWrite: mismatch'')"
proof -
  have inv: "rc_inv c'" using rcs.run_law [OF assms(1)] assms(2) by simp
  have "insert_resc n v c' s'' \<noteq> Inl (Panicked x)" for n v x
    by (auto simp: insert_resc_def replaceScheme_def rescNum2phyAddr_def num2phyAddr_def Let_def
        ensure_def ebind_def split: list.splits option.splits)
  then have w: "rescWrite n v f c' s'' \<noteq> Inl (Panicked x)" for x
    using inv by (simp add: rescWrite_def rc_inv_def split: option.splits)
  have "rc_readProc c' s'' \<noteq> Inl (Panicked x)" for x
    using inv by (simp add: readProc_hit_no_panic rc_inv_def rc_readProc_def Let_def rescNum2phyAddr_def
        num2phyAddr_def ensure_def split: list.splits option.splits)
  with inv w show ?thesis by (simp add: rc_inv_def)
qed

lemma RescCache_bounded_witness:
  "\<exists>tk c s. run_acts rc_step rc_sample_acts ([], rc_sample, nicbase0) = Inr (tk, c, s) \<and>
     um_size (rc_cache c) \<le> unat (rc_capacity c)"
  using rc_sample_runs RescCache_bounded [OF _ rc_sample_inv(1)] by blast

end
