(* ===== verification/QpcCache.thy ===== *)
theory QpcCache
  imports Icm
begin

text \<open>
  The template \<^verbatim>\<open>Cache<T>\<close> of \<^verbatim>\<open>hangu_rnic.hh\<close> and \<^verbatim>\<open>hangu_rnic.cc\<close>, which holds the queue pair
  contexts on the device. The entries are objects the cache owns alone, so they are held by
  value. \<open>context_cache\<close> is the contract the context module relies on.
\<close>

section \<open>Operations\<close>

record 'v Cache =
  qc_cache :: "(u32, 'v \<times> u64) umap"
  qc_capacity :: u32
  qc_seq_end :: u64

definition new_Cache :: "u32 \<Rightarrow> 'v Cache" where
  "new_Cache n = \<lparr>qc_cache = um_empty, qc_capacity = n, qc_seq_end = 0\<rparr>"

definition replaceEntry :: "'v Cache \<Rightarrow> u32 res" where
  "replaceEntry c =
     (case um_list (qc_cache c) of
        [] \<Rightarrow> Inl (Undefined ''begin() of an empty map'')
      | e # _ \<Rightarrow>
          let mini = qc_seq_end c
          in Inr (foldl (\<lambda>rescNum it. if mini \<ge> snd (snd it) then fst it else rescNum)
                   (fst e) (um_list (qc_cache c))))"

definition lookupHit :: "u32 \<Rightarrow> 'v Cache \<Rightarrow> bool \<times> 'v Cache" where
  "lookupHit n c =
     (case um_lookup (qc_cache c) n of
        None \<Rightarrow> (False, c)
      | Some (v, _) \<Rightarrow>
          (True, c\<lparr>qc_cache := um_assign (qc_cache c) n (v, qc_seq_end c),
                   qc_seq_end := qc_seq_end c + 1\<rparr>))"

definition lookupFull :: "u32 \<Rightarrow> 'v Cache \<Rightarrow> bool" where
  "lookupFull n c \<longleftrightarrow> um_size (qc_cache c) = unat (qc_capacity c)"

definition readEntry :: "u32 \<Rightarrow> 'v Cache \<Rightarrow> 'v res" where
  "readEntry n c =
     (case um_lookup (qc_cache c) n of
        None \<Rightarrow> Inl (Assert_failed ''readEntry'') | Some (v, _) \<Rightarrow> Inr v)"

definition updateEntry :: "u32 \<Rightarrow> ('v \<Rightarrow> 'v res) \<Rightarrow> 'v Cache \<Rightarrow> 'v Cache res" where
  "updateEntry n upd c =
     (case um_lookup (qc_cache c) n of
        None \<Rightarrow> Inl (Assert_failed ''updateEntry'')
      | Some (v, t) \<Rightarrow>
          ebind (upd v) (\<lambda>v'. Inr (c\<lparr>qc_cache := um_assign (qc_cache c) n (v', t)\<rparr>)))"

definition writeEntry :: "u32 \<Rightarrow> 'v \<Rightarrow> 'v Cache \<Rightarrow> 'v Cache res" where
  "writeEntry n v c =
     ensure (um_lookup (qc_cache c) n = None) (Assert_failed ''writeEntry'')
       (Inr (c\<lparr>qc_cache := um_emplace (qc_cache c) n (v, qc_seq_end c),
               qc_seq_end := qc_seq_end c + 1\<rparr>))"

definition deleteEntry :: "u32 \<Rightarrow> 'v Cache \<Rightarrow> ('v \<times> 'v Cache) res" where
  "deleteEntry n c =
     (case um_lookup (qc_cache c) n of
        None \<Rightarrow> Inl (Assert_failed ''deleteEntry'')
      | Some (v, _) \<Rightarrow>
          let m = um_erase (qc_cache c) n
          in ensure (um_size m = unat (qc_capacity c - 1)) (Assert_failed ''cache.size() == capacity - 1'')
               (Inr (v, c\<lparr>qc_cache := m\<rparr>)))"

section \<open>The contract\<close>

text \<open>
  A cache of contexts is a partial function from numbers to contexts of at most \<open>cap\<close> entries;
  the stamps are not visible through it.
\<close>

locale context_cache =
  fixes content :: "'c \<Rightarrow> u32 \<Rightarrow> 'v option"
    and card_of :: "'c \<Rightarrow> nat"
    and hit :: "u32 \<Rightarrow> 'c \<Rightarrow> bool \<times> 'c"
    and read :: "u32 \<Rightarrow> 'c \<Rightarrow> 'v res"
    and update :: "u32 \<Rightarrow> ('v \<Rightarrow> 'v res) \<Rightarrow> 'c \<Rightarrow> 'c res"
    and store :: "u32 \<Rightarrow> 'v \<Rightarrow> 'c \<Rightarrow> 'c res"
    and remove :: "u32 \<Rightarrow> 'c \<Rightarrow> ('v \<times> 'c) res"
    and victim :: "'c \<Rightarrow> u32 res"
    and cap :: "'c \<Rightarrow> nat"
    and invar :: "'c \<Rightarrow> bool"
  assumes fst_hit: "fst (hit n c) \<longleftrightarrow> content c n \<noteq> None"
    and content_hit: "content (snd (hit n c)) = content c"
    and card_hit: "invar c \<Longrightarrow> invar (snd (hit n c)) \<and> card_of (snd (hit n c)) = card_of c \<and> cap (snd (hit n c)) = cap c"
    and read_iff: "read n c = Inr v \<longleftrightarrow> content c n = Some v"
    and update_iff: "update n f c = Inr c' \<Longrightarrow>
          \<exists>v v'. content c n = Some v \<and> f v = Inr v' \<and> content c' = (content c)(n \<mapsto> v') \<and> cap c' = cap c"
    and update_ok: "content c n = Some v \<Longrightarrow> f v = Inr v' \<Longrightarrow> \<exists>c'. update n f c = Inr c'"
    and update_inv: "update n f c = Inr c' \<Longrightarrow> invar c \<Longrightarrow> invar c' \<and> card_of c' = card_of c"
    and store_iff: "store n v c = Inr c' \<Longrightarrow>
          content c n = None \<and> content c' = (content c)(n \<mapsto> v) \<and> cap c' = cap c"
    and store_ok: "content c n = None \<Longrightarrow> \<exists>c'. store n v c = Inr c'"
    and store_inv: "store n v c = Inr c' \<Longrightarrow> invar c \<Longrightarrow> invar c' \<and> card_of c' = Suc (card_of c)"
    and remove_iff: "remove n c = Inr (v, c') \<Longrightarrow>
          content c n = Some v \<and> content c' = (content c)(n := None) \<and> cap c' = cap c"
    and remove_ok: "invar c \<Longrightarrow> content c n \<noteq> None \<Longrightarrow> card_of c = cap c \<Longrightarrow> \<exists>p. remove n c = Inr p"
    and remove_inv: "remove n c = Inr (v, c') \<Longrightarrow> invar c \<Longrightarrow> invar c' \<and> Suc (card_of c') = card_of c"
    and victim_in: "victim c = Inr n \<Longrightarrow> content c n \<noteq> None"
    and victim_ok: "invar c \<Longrightarrow> 0 < card_of c \<Longrightarrow> \<exists>n. victim c = Inr n"
begin

text \<open>A write to a cache that may be full, as the clients do it.\<close>

definition make_room :: "'c \<Rightarrow> ((u32 \<times> 'v) option \<times> 'c) res" where
  "make_room c =
     (if card_of c = cap c
      then ebind (victim c) (\<lambda>w. ebind (remove w c) (\<lambda>(v, c'). Inr (Some (w, v), c')))
      else Inr (None, c))"

lemma make_room_ok:
  "invar c \<Longrightarrow> card_of c \<le> cap c \<Longrightarrow> 0 < cap c \<Longrightarrow> \<exists>p. make_room c = Inr p"
  using victim_ok [of c] remove_ok [of c] victim_in [of c]
  by (auto simp: make_room_def) force

lemma make_room_inv:
  assumes "make_room c = Inr (ev, c')" "invar c" "card_of c \<le> cap c"
  shows "invar c'" "card_of c' < cap c'" "cap c' = cap c"
    "content c' = (case ev of None \<Rightarrow> content c | Some (w, _) \<Rightarrow> (content c)(w := None))"
    "\<And>w v. ev = Some (w, v) \<Longrightarrow> content c w = Some v"
    "ev = None \<longleftrightarrow> card_of c \<noteq> cap c"
  using assms remove_iff remove_inv victim_in
  by (auto simp: make_room_def ebind_Inr split: if_splits option.splits) fastforce+

lemma store_after_room:
  assumes "make_room c = Inr (ev, c1)" "invar c" "card_of c \<le> cap c" "content c n = None"
  shows "\<exists>c2. store n v c1 = Inr c2 \<and> invar c2 \<and> card_of c2 \<le> cap c2 \<and> cap c2 = cap c \<and>
           content c2 = (content c1)(n \<mapsto> v)"
proof -
  note r = make_room_inv [OF assms(1-3)]
  have "content c1 n = None" using assms(4) r(4) by (auto split: option.splits)
  then obtain c2 where "store n v c1 = Inr c2" using store_ok by blast
  with store_iff store_inv r show ?thesis by fastforce
qed

end

definition qc_content :: "'v Cache \<Rightarrow> u32 \<Rightarrow> 'v option" where
  "qc_content c n = map_option fst (um_lookup (qc_cache c) n)"

definition qc_inv :: "'v Cache \<Rightarrow> bool" where
  "qc_inv c \<longleftrightarrow> um_inv (qc_cache c) \<and> qc_capacity c \<noteq> 0"

lemma foldl_pick:
  "foldl (\<lambda>r it. if P it then f it else r) r0 xs \<in> insert r0 (f ` set xs)"
  by (induction xs arbitrary: r0) auto

lemma replaceEntry_in: "replaceEntry c = Inr n \<Longrightarrow> n \<in> fst ` set (um_list (qc_cache c))"
  using foldl_pick [of "\<lambda>it. snd (snd it) \<le> qc_seq_end c" fst "fst (hd (um_list (qc_cache c)))"
      "um_list (qc_cache c)"]
  by (auto simp: replaceEntry_def Let_def split: list.splits)

lemma um_lookup_in: "n \<in> fst ` set (um_list m) \<longleftrightarrow> um_lookup m n \<noteq> None"
  by (simp add: um_lookup_def map_of_eq_None_iff)

interpretation qc: context_cache qc_content "\<lambda>c. um_size (qc_cache c)" lookupHit readEntry updateEntry
  writeEntry deleteEntry replaceEntry "\<lambda>c. unat (qc_capacity c)" qc_inv
proof unfold_locales
  fix n :: u32 and c c' :: "'v Cache" and v :: 'v and f
  show "fst (lookupHit n c) \<longleftrightarrow> qc_content c n \<noteq> None"
    by (auto simp: lookupHit_def qc_content_def split: option.splits)
  show "qc_content (snd (lookupHit n c)) = qc_content c"
    by (auto simp: lookupHit_def qc_content_def um.lookup_assign fun_eq_iff split: option.splits)
  show "qc_inv c \<Longrightarrow> qc_inv (snd (lookupHit n c)) \<and>
      um_size (qc_cache (snd (lookupHit n c))) = um_size (qc_cache c) \<and>
      unat (qc_capacity (snd (lookupHit n c))) = unat (qc_capacity c)"
    by (auto simp: lookupHit_def qc_inv_def um.invar_assign um.size_assign_old split: option.splits)
  show "(readEntry n c = Inr v) = (qc_content c n = Some v)"
    by (auto simp: readEntry_def qc_content_def split: option.splits)
  show "updateEntry n f c = Inr c' \<Longrightarrow> \<exists>v v'. qc_content c n = Some v \<and> f v = Inr v' \<and>
      qc_content c' = (qc_content c)(n \<mapsto> v') \<and> unat (qc_capacity c') = unat (qc_capacity c)"
    by (auto simp: updateEntry_def qc_content_def um.lookup_assign fun_eq_iff ebind_Inr split: option.splits)
  show "qc_content c n = Some v \<Longrightarrow> f v = Inr v' \<Longrightarrow> \<exists>c'. updateEntry n f c = Inr c'" for v'
    by (auto simp: updateEntry_def qc_content_def split: option.splits)
  show "updateEntry n f c = Inr c' \<Longrightarrow> qc_inv c \<Longrightarrow> qc_inv c' \<and> um_size (qc_cache c') = um_size (qc_cache c)"
    by (auto simp: updateEntry_def qc_inv_def um.invar_assign um.size_assign_old ebind_Inr split: option.splits)
  show "writeEntry n v c = Inr c' \<Longrightarrow> qc_content c n = None \<and>
      qc_content c' = (qc_content c)(n \<mapsto> v) \<and> unat (qc_capacity c') = unat (qc_capacity c)"
    by (auto simp: writeEntry_def qc_content_def um.lookup_emplace fun_eq_iff ensure_Inr)
  show "qc_content c n = None \<Longrightarrow> \<exists>c'. writeEntry n v c = Inr c'"
    by (simp add: writeEntry_def qc_content_def)
  show "writeEntry n v c = Inr c' \<Longrightarrow> qc_inv c \<Longrightarrow> qc_inv c' \<and> um_size (qc_cache c') = Suc (um_size (qc_cache c))"
    by (auto simp: writeEntry_def qc_inv_def um.invar_emplace um.size_emplace_new ensure_Inr)
  show "deleteEntry n c = Inr (v, c') \<Longrightarrow> qc_content c n = Some v \<and>
      qc_content c' = (qc_content c)(n := None) \<and> unat (qc_capacity c') = unat (qc_capacity c)"
    by (auto simp: deleteEntry_def qc_content_def um.lookup_erase fun_eq_iff ensure_Inr Let_def split: option.splits)
  show "qc_inv c \<Longrightarrow> qc_content c n \<noteq> None \<Longrightarrow> um_size (qc_cache c) = unat (qc_capacity c) \<Longrightarrow>
      \<exists>p. deleteEntry n c = Inr p"
    using um.size_erase_old [of "qc_cache c" n]
    by (auto simp: deleteEntry_def qc_content_def qc_inv_def Let_def unat_minus_one ensure_def split: option.splits)
  show "deleteEntry n c = Inr (v, c') \<Longrightarrow> qc_inv c \<Longrightarrow> qc_inv c' \<and> Suc (um_size (qc_cache c')) = um_size (qc_cache c)"
    using um.size_erase_old [of "qc_cache c" n]
    by (auto simp: deleteEntry_def qc_inv_def um.invar_erase ensure_Inr Let_def split: option.splits)
  show "replaceEntry c = Inr n \<Longrightarrow> qc_content c n \<noteq> None"
    using replaceEntry_in [of c n] um_lookup_in [of n "qc_cache c"] by (simp add: qc_content_def)
  show "qc_inv c \<Longrightarrow> 0 < um_size (qc_cache c) \<Longrightarrow> \<exists>n. replaceEntry c = Inr n"
    by (auto simp: replaceEntry_def um_size_def Let_def split: list.splits)
qed

section \<open>The replacement policy\<close>

text \<open>
  The comment on the map calls the stamp \<^verbatim>\<open>lru\<close>, but the scan never lowers the bound it compares
  with, so the victim is the last entry in iteration order whatever the stamps are.
\<close>

definition qc_stamped :: "'v Cache \<Rightarrow> bool" where
  "qc_stamped c \<longleftrightarrow> (\<forall>e \<in> set (um_list (qc_cache c)). snd (snd e) \<le> qc_seq_end c)"

lemma foldl_all: "(\<And>x. x \<in> set xs \<Longrightarrow> P x) \<Longrightarrow> xs \<noteq> [] \<Longrightarrow>
    foldl (\<lambda>r it. if P it then f it else r) r0 xs = f (last xs)"
  by (induction xs arbitrary: r0) auto

lemma replaceEntry_last:
  "qc_stamped c \<Longrightarrow> um_list (qc_cache c) \<noteq> [] \<Longrightarrow>
     replaceEntry c = Inr (fst (last (um_list (qc_cache c))))"
  by (auto simp: replaceEntry_def qc_stamped_def Let_def foldl_all split: list.splits)

lemma last_key_assign:
  "um_lookup m k \<noteq> None \<Longrightarrow> um_list m \<noteq> [] \<Longrightarrow>
     um_list (um_assign m k v) \<noteq> [] \<and> fst (last (um_list (um_assign m k v))) = fst (last (um_list m))"
  by (auto simp: um_assign_def last_map split: prod.splits)

lemma lookupHit_stamped:
  assumes "qc_stamped c" and "qc_seq_end c < - 1"
  shows "qc_stamped (snd (lookupHit n c))"
proof -
  have lt: "qc_seq_end c \<le> qc_seq_end c + 1"
  proof -
    have "1 + qc_seq_end c \<noteq> 0"
      using assms(2) by (metis add.commute eq_neg_iff_add_eq_0 order.irrefl)
    then show ?thesis by (simp add: word_le_nat_alt unatSuc add.commute)
  qed
  then have "t \<le> qc_seq_end c + 1" if "t \<le> qc_seq_end c" for t using that by simp
  with lt assms(1) show ?thesis
    by (auto simp: qc_stamped_def lookupHit_def um_assign_def split: option.splits prod.splits if_splits)
qed

text \<open>
  C40. The replacement is not least recently used: a lookup that hits the entry about to be
  replaced, which makes it the most recently used one, does not save it.
\<close>

theorem replaceEntry_not_lru:
  assumes "qc_stamped c" and "qc_seq_end c < - 1" and "replaceEntry c = Inr victim"
  shows "fst (lookupHit victim c) \<and> replaceEntry (snd (lookupHit victim c)) = Inr victim"
proof -
  have ne: "um_list (qc_cache c) \<noteq> []" using assms(3) by (auto simp: replaceEntry_def)
  have v: "victim = fst (last (um_list (qc_cache c)))"
    using replaceEntry_last [OF assms(1) ne] assms(3) by simp
  have hit: "um_lookup (qc_cache c) victim \<noteq> None"
    using replaceEntry_in [OF assms(3)] by (simp add: um_lookup_in)
  from last_key_assign [OF hit ne] hit
  have "um_list (qc_cache (snd (lookupHit victim c))) \<noteq> []"
    "fst (last (um_list (qc_cache (snd (lookupHit victim c))))) = victim"
    by (auto simp: lookupHit_def v [symmetric] split: option.splits)
  with replaceEntry_last [OF lookupHit_stamped [OF assms(1,2)]] hit show ?thesis
    by (auto simp: lookupHit_def split: option.splits)
qed

definition qc_sample :: "nat Cache" where
  "qc_sample = projr (writeEntry 5 50 (projr (writeEntry 4 40 (new_Cache 2))))"

lemma replaceEntry_not_lru_witness:
  "fst (lookupHit 4 qc_sample) \<and> replaceEntry (snd (lookupHit 4 qc_sample)) = Inr 4"
  by (rule replaceEntry_not_lru) code_simp+

end
