(* ===== verification/Pending.thy ===== *)
theory Pending
  imports Sim
begin

text \<open>
  \<^verbatim>\<open>PendingStruct\<close> of \<^verbatim>\<open>hangu_rnic.hh\<close>/\<^verbatim>\<open>.cc\<close>: the requests for queue pair contexts that wait for a
  context to be loaded. Two queues swap the roles "online" (elements already looked at in the
  current round of checks) and "offline" (elements still to be looked at); the structure is one
  list with a cursor. \<open>pending_queue\<close> states this as a contract.
\<close>

section \<open>Operations\<close>

record PendingStruct =
  pd_pushFifo :: "PendingElem list"
  pd_pendingFifo :: "PendingElem list list"
  pd_elemCap :: u32
  pd_elemNum :: u32
  pd_offlineIdx :: u8
  pd_onlineIdx :: u8

definition new_PendingStruct :: "u32 \<Rightarrow> PendingStruct" where
  "new_PendingStruct elemCap =
     \<lparr>pd_pushFifo = [], pd_pendingFifo = [[], []], pd_elemCap = elemCap, pd_elemNum = 0,
      pd_offlineIdx = 1, pd_onlineIdx = 0\<rparr>"

definition online :: "PendingStruct \<Rightarrow> PendingElem list" where
  "online p = pd_pendingFifo p ! unat (pd_onlineIdx p)"

definition offline :: "PendingStruct \<Rightarrow> PendingElem list" where
  "offline p = pd_pendingFifo p ! unat (pd_offlineIdx p)"

definition set_online :: "PendingElem list \<Rightarrow> PendingStruct \<Rightarrow> PendingStruct" where
  "set_online q p = p\<lparr>pd_pendingFifo := (pd_pendingFifo p)[unat (pd_onlineIdx p) := q]\<rparr>"

definition set_offline :: "PendingElem list \<Rightarrow> PendingStruct \<Rightarrow> PendingStruct" where
  "set_offline q p = p\<lparr>pd_pendingFifo := (pd_pendingFifo p)[unat (pd_offlineIdx p) := q]\<rparr>"

definition add_elemNum :: "u32 \<Rightarrow> PendingStruct \<Rightarrow> PendingStruct" where
  "add_elemNum d p = p\<lparr>pd_elemNum := pd_elemNum p + d\<rparr>"

definition swapIdx :: "PendingStruct \<Rightarrow> PendingStruct res" where
  "swapIdx p =
     (let p' = p\<lparr>pd_onlineIdx := pd_offlineIdx p, pd_offlineIdx := pd_onlineIdx p\<rparr>
      in ensure (pd_onlineIdx p' \<noteq> pd_offlineIdx p') (Assert_failed ''onlineIdx != offlineIdx'') (Inr p'))"

text \<open>The part of \<^verbatim>\<open>pushElemProc\<close> that moves one element to the pending queue.\<close>

definition pushElem_move :: "PendingStruct \<Rightarrow> (PendingElem \<times> PendingStruct) res" where
  "pushElem_move p =
     (case pd_pushFifo p of
        [] \<Rightarrow> Inl (Assert_failed ''pushFifo.size()'')
      | pElem # rest \<Rightarrow>
          ensure (pe_qpn pElem AND QPN_MASK \<le> QPN_NUM) (Assert_failed ''qpn'')
            (ensure (cx_num (pe_reqPkt pElem) AND QPN_MASK \<le> QPN_NUM) (Assert_failed ''reqPkt->num'')
              (let p1 = add_elemNum 1 (p\<lparr>pd_pushFifo := rest\<rparr>)
               in Inr (pElem,
                    if offline p1 \<noteq> [] then set_offline (offline p1 @ [pElem]) p1
                    else set_online (online p1 @ [pElem]) p1))))"

definition push_elem :: "PendingElem \<Rightarrow> PendingStruct \<times> 'a sim_scheme \<Rightarrow> PendingStruct \<times> 'a sim_scheme" where
  "push_elem pElem ps =
     ((fst ps)\<lparr>pd_pushFifo := pd_pushFifo (fst ps) @ [pElem]\<rparr>, sched_next PushElemProcEvent (snd ps))"

definition front_elem :: "PendingStruct \<Rightarrow> PendingElem res" where
  "front_elem p = (case online p of [] \<Rightarrow> Inl (Assert_failed ''front_elem'') | e # _ \<Rightarrow> Inr e)"

definition pop_elem :: "PendingStruct \<Rightarrow> (PendingElem \<times> PendingStruct) res" where
  "pop_elem p =
     (case online p of
        [] \<Rightarrow> Inl (Assert_failed ''pop_elem'')
      | pElem # rest \<Rightarrow>
          let p1 = add_elemNum (- 1) (set_online rest p)
          in if online p1 = [] \<and> offline p1 \<noteq> []
             then ebind (swapIdx p1) (\<lambda>p2. Inr (pElem, p2)) else Inr (pElem, p1))"

definition get_elem_check :: "PendingStruct \<Rightarrow> (PendingElem \<times> PendingStruct) res" where
  "get_elem_check p =
     ensure (offline p \<noteq> [] \<or> online p \<noteq> []) (Assert_failed ''get_elem_check'')
       (ebind (if offline p = [] then swapIdx p else Inr p)
         (\<lambda>p1. case offline p1 of
                 [] \<Rightarrow> Inl (Undefined ''front() of an empty queue'')
               | pElem # rest \<Rightarrow> Inr (pElem, add_elemNum (- 1) (set_offline rest p1))))"

definition ignore_elem_check :: "PendingElem \<Rightarrow> PendingStruct \<Rightarrow> PendingStruct" where
  "ignore_elem_check pElem p = add_elemNum 1 (set_online (online p @ [pElem]) p)"

definition succ_elem_check :: "PendingStruct \<Rightarrow> PendingStruct res" where
  "succ_elem_check p = (if online p = [] then swapIdx p else Inr p)"

definition push_elem_check :: "PendingElem \<Rightarrow> PendingStruct \<times> 'a sim_scheme \<Rightarrow> (PendingStruct \<times> 'a sim_scheme) res" where
  "push_elem_check pElem ps =
     ebind (if online (fst ps) = [] then swapIdx (fst ps) else Inr (fst ps))
       (\<lambda>p. Inr (push_elem pElem (p, snd ps)))"

definition get_pending_size :: "PendingStruct \<Rightarrow> u32" where
  "get_pending_size p = of_nat (length (pd_pendingFifo p ! 0) + length (pd_pendingFifo p ! 1))"

definition get_size :: "PendingStruct \<Rightarrow> u32" where
  "get_size p =
     of_nat (length (pd_pendingFifo p ! 0) + length (pd_pendingFifo p ! 1) + length (pd_pushFifo p))"

section \<open>The contract\<close>

text \<open>
  The pending queue is the list \<open>seen p @ todo p\<close>. At rest (\<open>rest\<close>) the seen part is empty only if
  the list is; between taking an element for a check and deciding on it, only \<open>mid\<close> holds.
\<close>

locale pending_queue =
  fixes seen todo pushed :: "'q \<Rightarrow> 'e list"
    and rest mid :: "'q \<Rightarrow> bool"
    and move :: "'q \<Rightarrow> ('e \<times> 'q) res"
    and ok :: "'e \<Rightarrow> bool"
    and front :: "'q \<Rightarrow> 'e res"
    and pop get :: "'q \<Rightarrow> ('e \<times> 'q) res"
    and ignore :: "'e \<Rightarrow> 'q \<Rightarrow> 'q"
    and succ :: "'q \<Rightarrow> 'q res"
  assumes rest_mid: "rest p \<Longrightarrow> mid p"
    and rest_seen: "rest p \<Longrightarrow> seen p = [] \<Longrightarrow> todo p = []"
    and move_ok: "pushed p = e # es \<Longrightarrow> ok e \<Longrightarrow> \<exists>p'. move p = Inr (e, p')"
    and move_law: "move p = Inr (e, p') \<Longrightarrow> rest p \<Longrightarrow>
          pushed p = e # pushed p' \<and> seen p' @ todo p' = seen p @ todo p @ [e] \<and> rest p'"
    and front_law: "front p = Inr e \<longleftrightarrow> (\<exists>es. seen p = e # es)"
    and pop_ok: "mid p \<Longrightarrow> seen p \<noteq> [] \<Longrightarrow> \<exists>e p'. pop p = Inr (e, p')"
    and pop_law: "pop p = Inr (e, p') \<Longrightarrow> rest p \<Longrightarrow>
          seen p @ todo p = e # seen p' @ todo p' \<and> pushed p' = pushed p \<and> rest p'"
    and get_ok: "rest p \<Longrightarrow> seen p \<noteq> [] \<Longrightarrow> \<exists>e p'. get p = Inr (e, p')"
    and get_law: "get p = Inr (e, p') \<Longrightarrow> rest p \<Longrightarrow>
          seen p @ todo p = seen p' @ e # todo p' \<and> pushed p' = pushed p \<and> mid p'"
    and ignore_law: "mid p \<Longrightarrow>
          seen (ignore e p) = seen p @ [e] \<and> todo (ignore e p) = todo p \<and>
          pushed (ignore e p) = pushed p \<and> rest (ignore e p)"
    and succ_ok: "mid p \<Longrightarrow> \<exists>p'. succ p = Inr p'"
    and succ_law: "succ p = Inr p' \<Longrightarrow> mid p \<Longrightarrow>
          seen p' @ todo p' = seen p @ todo p \<and> pushed p' = pushed p \<and> rest p'"
begin

definition elems :: "'q \<Rightarrow> 'e list" where
  "elems p = seen p @ todo p @ pushed p"

lemma front_hd: "rest p \<Longrightarrow> seen p @ todo p = e # es \<Longrightarrow> front p = Inr e"
  using rest_seen [of p] by (cases "seen p") (auto simp: front_law)

lemma front_hd': "front p = Inr e \<Longrightarrow> \<exists>es. seen p @ todo p = e # es"
  by (auto simp: front_law)

lemma elems_move: "move p = Inr (e, p') \<Longrightarrow> rest p \<Longrightarrow> elems p' = elems p"
  using move_law by (simp add: elems_def)

lemma elems_pop: "pop p = Inr (e, p') \<Longrightarrow> rest p \<Longrightarrow> elems p = e # elems p'"
  using pop_law by (simp add: elems_def)

lemma elems_succ: "succ p = Inr p' \<Longrightarrow> mid p \<Longrightarrow> elems p' = elems p"
  using succ_law by (simp add: elems_def)

lemma get_split:
  "get p = Inr (e, p') \<Longrightarrow> rest p \<Longrightarrow>
     elems p = seen p' @ e # todo p' @ pushed p' \<and> elems p' = seen p' @ todo p' @ pushed p' \<and> mid p'"
  using get_law by (simp add: elems_def)

text \<open>An element that is looked at and put back leaves the queue as it was.\<close>

lemma elems_get_ignore:
  "get p = Inr (e, p') \<Longrightarrow> rest p \<Longrightarrow> elems (ignore e p') = elems p \<and> rest (ignore e p')"
  using get_split [of p e p'] ignore_law [of p' e] by (simp add: elems_def)

text \<open>An element that is taken out leaves the others in order.\<close>

lemma elems_get_succ:
  assumes "get p = Inr (e, p1)" "rest p" "succ p1 = Inr p2"
  shows "\<exists>xs ys. elems p = xs @ e # ys \<and> elems p2 = xs @ ys \<and> rest p2"
  using get_split [OF assms(1,2)] succ_law [OF assms(3)] elems_succ [OF assms(3)] by auto

end

section \<open>The two queues implement it\<close>

definition pd_mid :: "PendingStruct \<Rightarrow> bool" where
  "pd_mid p \<longleftrightarrow> length (pd_pendingFifo p) = 2 \<and>
     (pd_onlineIdx p = 0 \<and> pd_offlineIdx p = 1 \<or> pd_onlineIdx p = 1 \<and> pd_offlineIdx p = 0)"

definition pd_rest :: "PendingStruct \<Rightarrow> bool" where
  "pd_rest p \<longleftrightarrow> pd_mid p \<and> (online p = [] \<longrightarrow> offline p = [])"

definition pe_ok :: "PendingElem \<Rightarrow> bool" where
  "pe_ok e \<longleftrightarrow> pe_qpn e AND QPN_MASK \<le> QPN_NUM \<and> cx_num (pe_reqPkt e) AND QPN_MASK \<le> QPN_NUM"

lemmas pd_ops = swapIdx_def pushElem_move_def front_elem_def pop_elem_def get_elem_check_def
  ignore_elem_check_def succ_elem_check_def set_online_def set_offline_def add_elemNum_def
  pd_mid_def pd_rest_def online_def offline_def Let_def

lemma length2: "length xs = 2 \<longleftrightarrow> (\<exists>a b. xs = [a, b])"
  by (auto simp: numeral_2_eq_2 length_Suc_conv)

lemma set_views [simp]:
  assumes "pd_mid p"
  shows "online (set_offline q p) = online p" "offline (set_offline q p) = q"
    "online (set_online q p) = q" "offline (set_online q p) = offline p"
    "pd_mid (set_offline q p)" "pd_mid (set_online q p)"
  using assms by (auto simp: pd_mid_def set_offline_def set_online_def online_def offline_def length2)

lemma add_views [simp]:
  "online (add_elemNum d p) = online p" "offline (add_elemNum d p) = offline p"
  "pd_mid (add_elemNum d p) = pd_mid p" "pd_pushFifo (add_elemNum d p) = pd_pushFifo p"
  "pd_pushFifo (set_offline q p) = pd_pushFifo p" "pd_pushFifo (set_online q p) = pd_pushFifo p"
  by (simp_all add: add_elemNum_def online_def offline_def pd_mid_def set_offline_def set_online_def)

lemma swap_views:
  "pd_mid p \<Longrightarrow> \<exists>p'. swapIdx p = Inr p' \<and> online p' = offline p \<and> offline p' = online p \<and>
     pd_pushFifo p' = pd_pushFifo p \<and> pd_mid p'"
  by (auto simp: swapIdx_def pd_mid_def online_def offline_def)

interpretation pq: pending_queue online offline pd_pushFifo pd_rest pd_mid pushElem_move pe_ok front_elem
  pop_elem get_elem_check ignore_elem_check succ_elem_check
proof unfold_locales
  fix p p' :: PendingStruct and e es
  show "pd_rest p \<Longrightarrow> pd_mid p" and "pd_rest p \<Longrightarrow> online p = [] \<Longrightarrow> offline p = []"
    by (simp_all add: pd_rest_def)
  show "pd_pushFifo p = e # es \<Longrightarrow> pe_ok e \<Longrightarrow> \<exists>p'. pushElem_move p = Inr (e, p')"
    by (simp add: pushElem_move_def pe_ok_def Let_def)
  show "pushElem_move p = Inr (e, p') \<Longrightarrow> pd_rest p \<Longrightarrow> pd_pushFifo p = e # pd_pushFifo p' \<and>
      online p' @ offline p' = online p @ offline p @ [e] \<and> pd_rest p'"
    by (auto simp: pd_ops length2 ensure_Inr split: list.splits if_splits)
  show "front_elem p = Inr e \<longleftrightarrow> (\<exists>es. online p = e # es)"
    by (auto simp: front_elem_def split: list.splits)
  show "pd_mid p \<Longrightarrow> online p \<noteq> [] \<Longrightarrow> \<exists>e p'. pop_elem p = Inr (e, p')"
    by (auto simp: pd_ops length2 split: list.splits)
  show "pop_elem p = Inr (e, p') \<Longrightarrow> pd_rest p \<Longrightarrow> online p @ offline p = e # online p' @ offline p' \<and>
      pd_pushFifo p' = pd_pushFifo p \<and> pd_rest p'"
    by (auto simp: pd_ops length2 ensure_Inr ebind_Inr split: list.splits if_splits)
  show "pd_rest p \<Longrightarrow> online p \<noteq> [] \<Longrightarrow> \<exists>e p'. get_elem_check p = Inr (e, p')"
    by (auto simp: pd_ops length2 split: list.splits)
  show "get_elem_check p = Inr (e, p') \<Longrightarrow> pd_rest p \<Longrightarrow> online p @ offline p = online p' @ e # offline p' \<and>
      pd_pushFifo p' = pd_pushFifo p \<and> pd_mid p'"
    using swap_views [of p]
    by (cases "offline p = []")
      (auto simp: get_elem_check_def pd_rest_def ensure_Inr split: list.splits)
  show "pd_mid p \<Longrightarrow> online (ignore_elem_check e p) = online p @ [e] \<and>
      offline (ignore_elem_check e p) = offline p \<and>
      pd_pushFifo (ignore_elem_check e p) = pd_pushFifo p \<and> pd_rest (ignore_elem_check e p)"
    by (auto simp: pd_ops length2)
  show "pd_mid p \<Longrightarrow> \<exists>p'. succ_elem_check p = Inr p'"
    by (auto simp: pd_ops)
  show "succ_elem_check p = Inr p' \<Longrightarrow> pd_mid p \<Longrightarrow> online p' @ offline p' = online p @ offline p \<and>
      pd_pushFifo p' = pd_pushFifo p \<and> pd_rest p'"
    by (auto simp: pd_ops length2 ensure_Inr split: if_splits)
qed

end
