(* ===== verification/Mem.thy ===== *)
theory Mem
  imports Sim
begin

text \<open>
  Bytes: packets (\<^verbatim>\<open>src/dev/net/etherpkt.hh\<close>), host memory, and the copies between the two kinds of
  object the device has on its heap, typed structures and byte buffers. A DMA transfer moves the
  bytes at once when the request is issued; the delay is modelled by the completion events. A
  transfer that does not fit its buffer is undefined.
\<close>

section \<open>Packets\<close>

definition new_EthPacket :: "u32 \<Rightarrow> (nat \<Rightarrow> u8) \<Rightarrow> EthPacket" where
  "new_EthPacket sz fresh = \<lparr>pk_data = fresh, pk_bufLength = sz, pk_length = 0, pk_simLength = 0\<rparr>"

definition pkt_get :: "nat \<Rightarrow> nat \<Rightarrow> EthPacket \<Rightarrow> u8 list" where
  "pkt_get off n k = map (\<lambda>i. pk_data k (off + i)) [0..<n]"

definition pkt_put :: "nat \<Rightarrow> u8 list \<Rightarrow> EthPacket \<Rightarrow> EthPacket" where
  "pkt_put off bs k =
     k\<lparr>pk_data := \<lambda>i. if off \<le> i \<and> i < off + length bs then bs ! (i - off) else pk_data k i\<rparr>"

text \<open>The headers of a packet: two MAC addresses, the BTH, and what follows it.\<close>

definition pkt_bth :: "EthPacket \<Rightarrow> BTH" where
  "pkt_bth k = dec_BTH (pkt_get 12 8 k)"

definition pkt_reth :: "EthPacket \<Rightarrow> RETH" where
  "pkt_reth k = dec_RETH (pkt_get 20 16 k)"

definition pkt_aeth :: "EthPacket \<Rightarrow> AETH" where
  "pkt_aeth k = dec_AETH (pkt_get 20 4 k)"

definition bth_op :: "BTH \<Rightarrow> u32" where
  "bth_op h = drop_bit 24 (op_destQpn h) AND 0x1F"

definition bth_srv :: "BTH \<Rightarrow> u32" where
  "bth_srv h = drop_bit 29 (op_destQpn h)"

definition bth_qpn :: "BTH \<Rightarrow> u32" where
  "bth_qpn h = op_destQpn h AND 0xFFFFFF"

definition bth_psn :: "BTH \<Rightarrow> u32" where
  "bth_psn h = needAck_psn h AND 0xFFFFFF"

lemma pkt_get_put_same [simp]: "length bs = n \<Longrightarrow> pkt_get off n (pkt_put off bs k) = bs"
  by (auto simp: pkt_get_def pkt_put_def intro!: nth_equalityI)

lemma pkt_get_put_other:
  "off + n \<le> off' \<or> off' + length bs \<le> off \<Longrightarrow> pkt_get off n (pkt_put off' bs k) = pkt_get off n k"
  by (auto simp: pkt_get_def pkt_put_def)

lemma length_pkt_get [simp]: "length (pkt_get off n k) = n"
  by (simp add: pkt_get_def)

section \<open>Fresh objects\<close>

definition junk_bytes :: "nat \<Rightarrow> 'a nicbase_scheme \<Rightarrow> u8 list" where
  "junk_bytes n s = map (junk s) [0..<n]"

definition new_QpcResc :: "'a nicbase_scheme \<Rightarrow> nat \<times> 'a nicbase_scheme" where
  "new_QpcResc s = alloc (OQpc (dec_QpcResc (junk_bytes 256 s))) s"

definition new_CqcResc :: "'a nicbase_scheme \<Rightarrow> nat \<times> 'a nicbase_scheme" where
  "new_CqcResc s = alloc (OCqc (dec_CqcResc (junk_bytes 16 s))) s"

definition new_TxDescs :: "nat \<Rightarrow> 'a nicbase_scheme \<Rightarrow> nat \<times> 'a nicbase_scheme" where
  "new_TxDescs n s =
     alloc (OTxDescs (replicate n \<lparr>tx_len = 0, tx_lkey = 0, tx_lVaddr = 0, tx_w0 = 0, tx_w1 = 0,
        tx_w2 = 0, tx_flags = 0\<rparr>)) s"

definition new_RxDesc :: "'a nicbase_scheme \<Rightarrow> nat \<times> 'a nicbase_scheme" where
  "new_RxDesc s = alloc (ORxDesc \<lparr>rx_len = 0, rx_lkey = 0, rx_lVaddr = 0\<rparr>) s"

definition new_bytes :: "u8 list \<Rightarrow> 'a nicbase_scheme \<Rightarrow> nat \<times> 'a nicbase_scheme" where
  "new_bytes bs s = alloc (OBytes bs) s"

text \<open>\<^verbatim>\<open>make_shared<EthPacketData>(16384)\<close> with the given length.\<close>

definition new_packet :: "u32 \<Rightarrow> 'a nicbase_scheme \<Rightarrow> nat \<times> 'a nicbase_scheme" where
  "new_packet len s = alloc (OPkt ((new_EthPacket 16384 (junk s))\<lparr>pk_length := len\<rparr>)) s"

definition upd_pkt :: "nat \<Rightarrow> (EthPacket \<Rightarrow> EthPacket) \<Rightarrow> 'a nicbase_scheme \<Rightarrow> 'a nicbase_scheme res" where
  "upd_pkt p f s = ebind (deref_pkt p s) (\<lambda>k. Inr (heap_set p (OPkt (f k)) s))"

section \<open>Copies\<close>

definition mem_read :: "u64 \<Rightarrow> nat \<Rightarrow> 'a nicbase_scheme \<Rightarrow> u8 list" where
  "mem_read a n s = map (\<lambda>i. hostMem s (a + of_nat i)) [0..<n]"

definition mem_write :: "u64 \<Rightarrow> u8 list \<Rightarrow> 'a nicbase_scheme \<Rightarrow> 'a nicbase_scheme" where
  "mem_write a bs s =
     s\<lparr>hostMem := \<lambda>x. if unat (x - a) < length bs then bs ! unat (x - a) else hostMem s x\<rparr>"

text \<open>The bytes of an object, and an object after bytes have been copied to it.\<close>

definition obj_bytes :: "obj \<Rightarrow> nat \<Rightarrow> nat \<Rightarrow> u8 list option" where
  "obj_bytes ob off n =
     (let part = (\<lambda>bs. if off + n \<le> length bs then Some (slice off n bs) else None)
      in case ob of
           OQpc r \<Rightarrow> part (enc_QpcResc r)
         | OCqc r \<Rightarrow> part (enc_CqcResc r)
         | OMpt r \<Rightarrow> part (enc_MptResc r)
         | OMtt r \<Rightarrow> part (enc_MttResc r)
         | OTxDescs ds \<Rightarrow> part (concat (map enc_TxDesc ds))
         | ORxDesc d \<Rightarrow> part (enc_RxDesc d)
         | OCqDesc d \<Rightarrow> part (enc_CqDesc d)
         | OBytes bs \<Rightarrow> part bs
         | OPkt k \<Rightarrow> if off + n \<le> unat (pk_bufLength k) then Some (pkt_get off n k) else None
         | ORETH h \<Rightarrow> part (enc_RETH h))"

definition obj_fill :: "obj \<Rightarrow> nat \<Rightarrow> u8 list \<Rightarrow> obj option" where
  "obj_fill ob off bs =
     (let whole = (\<lambda>sz x. if off = 0 \<and> length bs = sz then Some x else None)
      in case ob of
           OQpc _ \<Rightarrow> whole 256 (OQpc (dec_QpcResc bs))
         | OCqc _ \<Rightarrow> whole 16 (OCqc (dec_CqcResc bs))
         | OMpt _ \<Rightarrow> whole 32 (OMpt (dec_MptResc bs))
         | OMtt _ \<Rightarrow> whole 8 (OMtt (dec_MttResc bs))
         | OTxDescs ds \<Rightarrow> whole (32 * length ds) (OTxDescs (dec_array dec_TxDesc 32 (length ds) bs))
         | ORxDesc _ \<Rightarrow> whole 16 (ORxDesc (dec_RxDesc bs))
         | OCqDesc _ \<Rightarrow> whole 16 (OCqDesc (dec_CqDesc bs))
         | OBytes old \<Rightarrow>
             if off + length bs \<le> length old
             then Some (OBytes (take off old @ bs @ drop (off + length bs) old)) else None
         | OPkt k \<Rightarrow>
             if off + length bs \<le> unat (pk_bufLength k) then Some (OPkt (pkt_put off bs k)) else None
         | ORETH _ \<Rightarrow> whole 16 (ORETH (dec_RETH bs)))"

definition dmaRead :: "u64 \<Rightarrow> int \<Rightarrow> ptr option \<Rightarrow> 'a nicbase_scheme \<Rightarrow> 'a nicbase_scheme res" where
  "dmaRead addr sz data s =
     (case data of
        None \<Rightarrow> Inl (Undefined ''null DMA buffer'')
      | Some (p, off) \<Rightarrow>
          ebind (deref p s) (\<lambda>ob.
            case obj_fill ob off (mem_read addr (nat sz) s) of
              None \<Rightarrow> Inl (Undefined ''DMA buffer'')
            | Some ob' \<Rightarrow> Inr (heap_set p ob' s)))"

definition dmaWrite :: "u64 \<Rightarrow> int \<Rightarrow> ptr option \<Rightarrow> 'a nicbase_scheme \<Rightarrow> 'a nicbase_scheme res" where
  "dmaWrite addr sz data s =
     (case data of
        None \<Rightarrow> Inl (Undefined ''null DMA buffer'')
      | Some (p, off) \<Rightarrow>
          ebind (deref p s) (\<lambda>ob.
            case obj_bytes ob off (nat sz) of
              None \<Rightarrow> Inl (Undefined ''DMA buffer'')
            | Some bs \<Rightarrow> Inr (mem_write addr bs s)))"

text \<open>What a write put into memory is what a read of the same range finds.\<close>

lemma mem_read_write:
  assumes "length bs < 2 ^ 64"
  shows "mem_read a (length bs) (mem_write a bs s) = bs"
proof (intro nth_equalityI)
  fix i assume "i < length (mem_read a (length bs) (mem_write a bs s))"
  then have i: "i < length bs" by (simp add: mem_read_def)
  have "unat (of_nat i :: u64) = i"
    using i assms by (simp add: unat_of_nat)
  with i show "mem_read a (length bs) (mem_write a bs s) ! i = bs ! i"
    by (simp add: mem_read_def mem_write_def)
qed (simp add: mem_read_def)

text \<open>A context that is written back and loaded again is the same context.\<close>

lemma qpc_writeback_reload:
  assumes "qpc_wf r" "obj_bytes (OQpc r) 0 256 = Some bs"
  shows "obj_fill (OQpc r') 0 (mem_read a 256 (mem_write a bs s)) = Some (OQpc r)"
proof -
  have l: "length (enc_QpcResc r) = 256" by (rule qpcr.len_enc [OF assms(1)])
  then have bs: "bs = enc_QpcResc r" using assms(2) by (simp add: obj_bytes_def)
  have "mem_read a 256 (mem_write a bs s) = bs"
    using mem_read_write [of bs a s] l bs by simp
  then show ?thesis
    using l bs qpcr.dec_enc_all [OF assms(1)] by (simp add: obj_fill_def)
qed

text \<open>A context, for examples.\<close>

definition qpc_sample :: QpcResc where
  "qpc_sample =
     \<lparr>qpc_flag = 1, qpType = QP_TYPE_RC, sqSizeLog = 12, rqSizeLog = 12, sndWqeOffset = 0,
      rcvWqeOffset = 0, lLid = 1, dLid = 2, srcQpn = 5, destQpn = 6, sndPsn = 0, ackPsn = 0,
      expPsn = 0, qpc_cqn = 3, sndWqeBaseLkey = 8, rcvWqeBaseLkey = 9, qpc_qkey = 0,
      qpc_reserved = replicate 52 0\<rparr>"

end
