(* ===== verification/State.thy ===== *)
theory State
  imports RescCache QpcCache Pending Mem
begin

text \<open>
  The state of the device: one record for each class of \<^verbatim>\<open>hangu_rnic.hh\<close> with the class's members,
  and the record \<open>rnic\<close> of \<^verbatim>\<open>HanGuRnic\<close> that holds them together with the queues between the
  units. Packets, contexts and buffers are objects of the heap (a queue of packets is a list of
  addresses); requests and descriptors that a unit hands over and keeps no pointer to are held by
  value. Scheduling state is in \<open>evq\<close>.
\<close>

section \<open>Queue pair contexts\<close>

record QpnInfo =
  qi_qpn :: u32
  qi_reqCnt :: u8
  qi_isValid :: bool
  qi_isReturned :: bool

definition new_QpnInfo :: "u32 \<Rightarrow> QpnInfo" where
  "new_QpnInfo qpn = \<lparr>qi_qpn = qpn, qi_reqCnt = 1, qi_isValid = True, qi_isReturned = False\<rparr>"

record QpcModule =
  qpcIcm :: IcmManage
  qpcCache :: "QpcResc Cache"
  ccuQpcWreqFifo :: "CxtReqRsp list"
  txQpAddrRreqFifo :: "CxtReqRsp list"
  txQpcRreqFifo :: "CxtReqRsp list"
  rxQpcRreqFifo :: "CxtReqRsp list"
  qpc_chnlIdx :: u8
  qpnHashMap :: "(u32, QpnInfo) umap"
  rtnCnt :: u32
  pendStruct :: PendingStruct
  txQpAddrRspFifo :: "CxtReqRsp list"
  txQpcRspFifo :: "CxtReqRsp list"
  rxQpcRspFifo :: "CxtReqRsp list"

section \<open>Memory regions, completion queue contexts, DMA\<close>

record MrRescModule =
  mr_chnlIdx :: u8
  dmaReq2RspFifo :: "(MrReqRsp \<times> nat option) list"
  mptCache :: "(MptResc, MrReqRsp) RescCache"
  mttCache :: "(MttResc, MrReqRsp) RescCache"

record CqcModule =
  cqc_chnlIdx :: u8
  cqcCache :: "(CqcResc, CxtReqRsp) RescCache"

record DmaEngine =
  readIdx :: u8
  writeIdx :: u8
  dmaWrReq2RspFifo :: "nat list"
  dmaRdReq2RspFifo :: "nat list"
  dmaRReqFifo :: "nat list"
  dmaWReqFifo :: "nat list"

section \<open>The RDMA engine\<close>

text \<open>The transmit side, and on top of it the window and the receive side.\<close>

record RdmaEngineTx =
  df2ddFifo :: "DoorbellFifo list"
  dduDbell :: "DoorbellFifo option"
  allowNewDb :: bool
  dd2dpVector :: "TxDesc option list"
  pendingSlotVector :: "pendingSlot option list"
  slotStatusVector :: "bool list"
  slotScheduleIdx :: u8
  dp2ddIdxFifo :: "u8 list"
  dp2rgFifo :: "DP2RG list"

record RdmaEngineWin = RdmaEngineTx +
  sndWindowList :: "(u32, WinMapElem) umap"
  windowSize :: u32
  windowCap :: u32
  windowFull :: bool
  messageEnd :: bool
  rg2scFifo :: "CqDesc list"
  txsauFifo :: "nat list"

record RdmaEngine = RdmaEngineWin +
  ra2rgFifo :: "nat list"
  rs2rpVector :: "nat option list"
  rp2raIdxFifo :: "u8 list"
  rp2rcvRpFifo :: "(nat \<times> nat) list"
  rp2rpCplFifo :: "nat list"
  rp2rcFifo :: "CqDesc list"
  osRWRETH :: "(u32, nat) umap"

section \<open>The device\<close>

text \<open>
  \<open>linkFree\<close> is the answer of \<^verbatim>\<open>EtherInt::sendPacket\<close> (whether the link takes a packet now) and
  \<open>wire\<close> the packets it took; the link itself is outside the device.
\<close>

record rnic_ccu = nicbase +
  regs :: Regs
  pio2ccuDbFifo :: "DoorbellFifo list"
  doorbellVector :: "DoorbellFifo option list"
  df2ccuIdxFifo :: "u8 list"
  ccuDmaReadFifo :: "nat list"
  mboxBuf :: "nat option"
  cpuNum :: u32
  syncCnt :: u32
  syncSucc :: u8

record rnic_tpt = rnic_ccu +
  descReqFifo :: "MrReqRsp list"
  txdescRspFifo :: "TxDesc list"
  rxdescRspFifo :: "RxDesc list"
  cqWreqFifo :: "MrReqRsp list"
  dataReqFifo :: "MrReqRsp list"
  txdataRspFifo :: "MrReqRsp list"
  rxdataRspFifo :: "MrReqRsp list"
  descDmaReadFifo :: "nat list"
  dataDmaReadFifo :: "nat list"
  cqDmaWriteFifo :: "nat list"
  dataDmaWriteFifo :: "nat list"

record rnic_cxt = rnic_tpt +
  txCqcReqFifo :: "CxtReqRsp list"
  rxCqcReqFifo :: "CxtReqRsp list"
  txCqcRspFifo :: "CxtReqRsp list"
  rxCqcRspFifo :: "CxtReqRsp list"
  qpcDmaRdCplFifo :: "nat list"

record rnic_eth = rnic_cxt +
  rxFifo :: "nat list"
  dmaReadDelay :: nat
  dmaWriteDelay :: nat
  pciBandwidth :: u32
  etherBandwidth :: u32
  macAddr :: "u8 list"
  LinkDelay :: nat
  ethRxDelayFifo :: "(nat \<times> nat) list"
  linkFree :: bool
  wire :: "nat list"

record rnic = rnic_eth +
  rdmaEngine :: RdmaEngine
  mrRescModule :: MrRescModule
  cqcModule :: CqcModule
  qpcModule :: QpcModule
  dmaEngine :: DmaEngine

definition upd_qpcM :: "(QpcModule \<Rightarrow> QpcModule) \<Rightarrow> rnic \<Rightarrow> rnic" where
  "upd_qpcM f s = s\<lparr>qpcModule := f (qpcModule s)\<rparr>"

definition upd_eng :: "(RdmaEngine \<Rightarrow> RdmaEngine) \<Rightarrow> rnic \<Rightarrow> rnic" where
  "upd_eng f s = s\<lparr>rdmaEngine := f (rdmaEngine s)\<rparr>"

definition upd_mrM :: "(MrRescModule \<Rightarrow> MrRescModule) \<Rightarrow> rnic \<Rightarrow> rnic" where
  "upd_mrM f s = s\<lparr>mrRescModule := f (mrRescModule s)\<rparr>"

definition upd_cqcM :: "(CqcModule \<Rightarrow> CqcModule) \<Rightarrow> rnic \<Rightarrow> rnic" where
  "upd_cqcM f s = s\<lparr>cqcModule := f (cqcModule s)\<rparr>"

definition upd_dma :: "(DmaEngine \<Rightarrow> DmaEngine) \<Rightarrow> rnic \<Rightarrow> rnic" where
  "upd_dma f s = s\<lparr>dmaEngine := f (dmaEngine s)\<rparr>"

text \<open>The round-robin scan on the \<^verbatim>\<open>uint8_t\<close> index of a unit.\<close>

definition rr_u8 :: "nat \<Rightarrow> (nat \<Rightarrow> bool) \<Rightarrow> u8 \<Rightarrow> nat option \<times> u8" where
  "rr_u8 n ne idx = (let r = rr_select n ne (unat idx) in (fst r, of_nat (snd r)))"

end
