(* ===== verification/Init.thy ===== *)
theory Init
  imports State
begin

text \<open>
  The constructors of \<^verbatim>\<open>HanGuRnic\<close> and its units: the device as the simulator starts it.
\<close>

section \<open>Constructors\<close>

record rnic_params =
  p_reorder_cap :: nat
  p_mpt_cache_num :: u32
  p_mtt_cache_num :: u32
  p_cqc_cache_num :: u32
  p_qpc_cache_cap :: u32
  p_dma_read_delay :: nat
  p_dma_write_delay :: nat
  p_pci_speed :: u32
  p_ether_speed :: u32
  p_link_delay :: nat
  p_cpu_num :: u32
  p_mac_addr :: u64

text \<open>Members the constructors leave unset start with what the memory held, \<open>junk\<close>.\<close>

definition junk_icm :: "(nat \<Rightarrow> u8) \<Rightarrow> u32 \<Rightarrow> IcmManage" where
  "junk_icm j sz =
     \<lparr>baseAddr = le_dec (map j [0..<8]), icmPage = (\<lambda>i. le_dec (map (\<lambda>k. j (8 * i + k)) [0..<8])), rescSz = sz\<rparr>"

definition prj_mpt :: "obj \<Rightarrow> MptResc option" where
  "prj_mpt ob = (case ob of OMpt r \<Rightarrow> Some r | _ \<Rightarrow> None)"

definition prj_mtt :: "obj \<Rightarrow> MttResc option" where
  "prj_mtt ob = (case ob of OMtt r \<Rightarrow> Some r | _ \<Rightarrow> None)"

definition prj_cqc :: "obj \<Rightarrow> CqcResc option" where
  "prj_cqc ob = (case ob of OCqc r \<Rightarrow> Some r | _ \<Rightarrow> None)"

definition new_MrRescModule :: "(nat \<Rightarrow> u8) \<Rightarrow> u32 \<Rightarrow> u32 \<Rightarrow> MrRescModule" where
  "new_MrRescModule j mptCacheNum mttCacheNum =
     \<lparr>mr_chnlIdx = 0, dmaReq2RspFifo = [],
      mptCache = new_RescCache mptCacheNum (junk_icm j 32) MptReadProcEvent MptFetchCplEvent OMpt prj_mpt
                   (dec_MptResc (map j [0..<32])),
      mttCache = new_RescCache mttCacheNum (junk_icm j 8) MttReadProcEvent MttFetchCplEvent OMtt prj_mtt
                   (dec_MttResc (map j [0..<8]))\<rparr>"

definition new_CqcModule :: "(nat \<Rightarrow> u8) \<Rightarrow> u32 \<Rightarrow> CqcModule" where
  "new_CqcModule j cqcCacheNum =
     \<lparr>cqc_chnlIdx = 0,
      cqcCache = new_RescCache cqcCacheNum (junk_icm j 16) CqcReadProcEvent CqcFetchCplEvent OCqc prj_cqc
                   (dec_CqcResc (map j [0..<16]))\<rparr>"

definition new_QpcModule :: "(nat \<Rightarrow> u8) \<Rightarrow> u32 \<Rightarrow> u32 \<Rightarrow> QpcModule" where
  "new_QpcModule j qpcCacheNum elemCap =
     \<lparr>qpcIcm = (junk_icm j 256)\<lparr>baseAddr := 0\<rparr>, qpcCache = new_Cache qpcCacheNum, ccuQpcWreqFifo = [],
      txQpAddrRreqFifo = [], txQpcRreqFifo = [], rxQpcRreqFifo = [], qpc_chnlIdx = 0,
      qpnHashMap = um_empty, rtnCnt = 0, pendStruct = new_PendingStruct elemCap,
      txQpAddrRspFifo = [], txQpcRspFifo = [], rxQpcRspFifo = []\<rparr>"

definition new_DmaEngine :: DmaEngine where
  "new_DmaEngine =
     \<lparr>readIdx = 0, writeIdx = 0, dmaWrReq2RspFifo = [], dmaRdReq2RspFifo = [], dmaRReqFifo = [],
      dmaWReqFifo = []\<rparr>"

definition new_RdmaEngine :: "nat \<Rightarrow> RdmaEngine" where
  "new_RdmaEngine elemCap =
     \<lparr>df2ddFifo = [], dduDbell = None, allowNewDb = True, dd2dpVector = replicate elemCap None,
      pendingSlotVector = replicate PENDINGSLOTNUM None,
      slotStatusVector = replicate PENDINGSLOTNUM False, slotScheduleIdx = 0,
      dp2ddIdxFifo = map of_nat [0..<elemCap], dp2rgFifo = [],
      sndWindowList = um_empty, windowSize = 0, windowCap = 100, windowFull = False, messageEnd = True,
      rg2scFifo = [], txsauFifo = [],
      ra2rgFifo = [], rs2rpVector = replicate elemCap None, rp2raIdxFifo = map of_nat [0..<elemCap],
      rp2rcvRpFifo = [], rp2rpCplFifo = [], rp2rcFifo = [], osRWRETH = um_empty\<rparr>"

definition new_Regs :: "(nat \<Rightarrow> u8) \<Rightarrow> Regs" where
  "new_Regs j =
     \<lparr>inParam = 0, modifier = le_dec (map j [0..<4]), outParam = 0, cmdCtrl = 0, db = 0,
      mptBase = le_dec (map j [0..<8]), mttBase = le_dec (map j [0..<8]), qpcBase = le_dec (map j [0..<8]),
      cqcBase = le_dec (map j [0..<8]), mptNumLog = j 0, mttNumLog = j 0, qpcNumLog = j 0, cqcNumLog = j 0\<rparr>"

definition new_HanGuRnic :: "rnic_params \<Rightarrow> nicbase \<Rightarrow> rnic" where
  "new_HanGuRnic p b =
     (let m = new_bytes (junk_bytes 4096 b) b; b1 = snd m
      in \<lparr>curTick = curTick b1, clockPeriod = clockPeriod b1, evq = (\<lambda>_. None), heap = heap b1,
          junk = junk b1, hostMem = hostMem b1, pciToDma = pciToDma b1, dmaReqs = [],
          cacheDmaAccessFifo = [], rnd = rnd b1, rndCnt = rndCnt b1,
          regs = new_Regs (junk b1), pio2ccuDbFifo = [],
          doorbellVector = replicate (p_reorder_cap p) None,
          df2ccuIdxFifo = map of_nat [0..<p_reorder_cap p], ccuDmaReadFifo = [], mboxBuf = Some (fst m),
          cpuNum = p_cpu_num p, syncCnt = 0, syncSucc = 0,
          descReqFifo = [], txdescRspFifo = [], rxdescRspFifo = [], cqWreqFifo = [], dataReqFifo = [],
          txdataRspFifo = [], rxdataRspFifo = [], descDmaReadFifo = [], dataDmaReadFifo = [],
          cqDmaWriteFifo = [], dataDmaWriteFifo = [],
          txCqcReqFifo = [], rxCqcReqFifo = [], txCqcRspFifo = [], rxCqcRspFifo = [], qpcDmaRdCplFifo = [],
          rxFifo = [], dmaReadDelay = p_dma_read_delay p, dmaWriteDelay = p_dma_write_delay p,
          pciBandwidth = p_pci_speed p, etherBandwidth = p_ether_speed p,
          macAddr = map (\<lambda>i. ucast (drop_bit (8 * (5 - i)) (p_mac_addr p))) [0..<ETH_ADDR_LEN], LinkDelay = p_link_delay p, ethRxDelayFifo = [],
          linkFree = True, wire = [],
          rdmaEngine = new_RdmaEngine (p_reorder_cap p),
          mrRescModule = new_MrRescModule (junk b1) (p_mpt_cache_num p) (p_mtt_cache_num p),
          cqcModule = new_CqcModule (junk b1) (p_cqc_cache_num p),
          qpcModule = new_QpcModule (junk b1) (p_qpc_cache_cap p) (of_nat (p_reorder_cap p)),
          dmaEngine = new_DmaEngine\<rparr>)"

text \<open>A small device, for examples.\<close>

definition dev0 :: rnic where
  "dev0 = new_HanGuRnic
     \<lparr>p_reorder_cap = 2, p_mpt_cache_num = 2, p_mtt_cache_num = 2, p_cqc_cache_num = 2, p_qpc_cache_cap = 1,
      p_dma_read_delay = 2, p_dma_write_delay = 1, p_pci_speed = 1, p_ether_speed = 1, p_link_delay = 1,
      p_cpu_num = 2, p_mac_addr = 1\<rparr> nicbase0"

end
