(* ===== verification/Qpc.thy ===== *)
theory Qpc
  imports Init
begin

text \<open>
  \<^verbatim>\<open>QpcModule\<close> of \<^verbatim>\<open>hangu_rnic.cc\<close>: queue pair contexts on demand. A read hits the cache, or waits in the
  pending structure for a DMA load; requests for a queue pair that already waits queue up behind
  the load without one of their own. Reads of the transmit and receive channels advance the
  context they read.
\<close>

section \<open>Updates on read\<close>

text \<open>The \<^verbatim>\<open>int\<close> value \<^verbatim>\<open>1 << log\<close> as it enters a comparison with a \<^verbatim>\<open>size_t\<close>.\<close>

definition shl1 :: "u8 \<Rightarrow> u64" where
  "shl1 lg = scast (push_bit (unat lg) (1 :: u32))"

definition qpcTxUpdate :: "u32 \<Rightarrow> QpcResc \<Rightarrow> QpcResc res" where
  "qpcTxUpdate sz resc =
     (let r1 = (if qpType resc = QP_TYPE_RC
                then resc\<lparr>ackPsn := ackPsn resc + sz, sndPsn := sndPsn resc + sz\<rparr> else resc);
          r2 = r1\<lparr>sndWqeOffset := sndWqeOffset r1 + 32\<rparr>
      in ensure (sqSizeLog resc < 32) (Undefined ''shift count'')
           (Inr (if ucast (sndWqeOffset r2) + 32 > shl1 (sqSizeLog r2)
                 then r2\<lparr>sndWqeOffset := 0\<rparr> else r2)))"

definition qpcRxUpdate :: "QpcResc \<Rightarrow> QpcResc res" where
  "qpcRxUpdate resc =
     (let r1 = (if qpType resc = QP_TYPE_RC then resc\<lparr>expPsn := expPsn resc + 1\<rparr> else resc);
          r2 = r1\<lparr>rcvWqeOffset := rcvWqeOffset r1 + 16\<rparr>;
          r3 = (if ucast (rcvWqeOffset r2) + 16 > shl1 (rqSizeLog r2)
                then r2\<lparr>rcvWqeOffset := 0\<rparr> else r2)
      in ensure (rqSizeLog r3 = 12) (Assert_failed ''rqSizeLog == 12'') (Inr r3))"

section \<open>Requests\<close>

definition postQpcReq :: "CxtReqRsp \<Rightarrow> rnic \<Rightarrow> rnic res" where
  "postQpcReq qpcReq s =
     ensure (cx_type qpcReq \<in> {CXT_WREQ_QP, CXT_RREQ_QP, CXT_RREQ_SQ, CXT_CREQ_QP})
       (Assert_failed ''qpcReq->type'')
     (ensure (cx_chnl qpcReq \<in> {CXT_CHNL_TX, CXT_CHNL_RX}) (Assert_failed ''qpcReq->chnl'')
     (ebind
       (if cx_type qpcReq = CXT_CREQ_QP
        then Inr (upd_qpcM (\<lambda>m. m\<lparr>ccuQpcWreqFifo := ccuQpcWreqFifo m @ [qpcReq]\<rparr>) s)
        else if cx_chnl qpcReq = CXT_CHNL_TX \<and> cx_type qpcReq = CXT_RREQ_SQ
        then Inr (upd_qpcM (\<lambda>m. m\<lparr>txQpAddrRreqFifo := txQpAddrRreqFifo m @ [qpcReq]\<rparr>) s)
        else if cx_chnl qpcReq = CXT_CHNL_TX \<and> cx_type qpcReq = CXT_RREQ_QP
        then Inr (upd_qpcM (\<lambda>m. m\<lparr>txQpcRreqFifo := txQpcRreqFifo m @ [qpcReq]\<rparr>) s)
        else if cx_chnl qpcReq = CXT_CHNL_RX \<and> cx_type qpcReq = CXT_RREQ_QP
        then Inr (upd_qpcM (\<lambda>m. m\<lparr>rxQpcRreqFifo := rxQpcRreqFifo m @ [qpcReq]\<rparr>) s)
        else Inl (Panicked ''QpcModule.postQpcReq: invalid chnl or type''))
       (\<lambda>s1. Inr (sched_next QpcReqProcEvent s1))))"

definition put_qpc :: "nat option \<Rightarrow> QpcResc \<Rightarrow> rnic \<Rightarrow> rnic res" where
  "put_qpc p r s = ebind (deref_qpc p s) (\<lambda>_. Inr (heap_set (the p) (OQpc r) s))"

definition hitProc_push :: "u8 \<Rightarrow> CxtReqRsp \<Rightarrow> rnic \<Rightarrow> (event \<times> rnic) res" where
  "hitProc_push chnlNum qpcReq s =
     (if chnlNum = 0
      then Inr (DfuEvent, upd_qpcM (\<lambda>m. m\<lparr>txQpAddrRspFifo := txQpAddrRspFifo m @ [qpcReq]\<rparr>) s)
      else if chnlNum = 1
      then ebind (updateEntry (cx_num qpcReq) (qpcTxUpdate (cx_sz qpcReq)) (qpcCache (qpcModule s)))
             (\<lambda>c. Inr (DpuEvent, upd_qpcM
                (\<lambda>m. m\<lparr>qpcCache := c, txQpcRspFifo := txQpcRspFifo m @ [qpcReq]\<rparr>) s))
      else if chnlNum = 2
      then ebind (updateEntry (cx_num qpcReq) qpcRxUpdate (qpcCache (qpcModule s)))
             (\<lambda>c. Inr (RpuEvent, upd_qpcM
                (\<lambda>m. m\<lparr>qpcCache := c, rxQpcRspFifo := rxQpcRspFifo m @ [qpcReq]\<rparr>) s))
      else Inl (Panicked ''QpcModule.readProc.hitProc: unrecognized chnl''))"

definition hitProc :: "u8 \<Rightarrow> CxtReqRsp \<Rightarrow> rnic \<Rightarrow> rnic res" where
  "hitProc chnlNum qpcReq s =
     ebind (readEntry (cx_num qpcReq) (qpcCache (qpcModule s))) (\<lambda>r.
     ebind (put_qpc (cx_resc qpcReq) r s) (\<lambda>s1.
     ensure (cx_num qpcReq = srcQpn r) (Assert_failed ''num == srcQpn'')
       (ebind (hitProc_push chnlNum qpcReq s1) (\<lambda>es. Inr (sched_next (fst es) (snd es))))))"

text \<open>The pending structure of the module, with the scheduling of \<^verbatim>\<open>pushElemProc\<close>.\<close>

definition pend_push :: "PendingElem \<Rightarrow> rnic \<Rightarrow> rnic" where
  "pend_push pElem s =
     (let ps = push_elem pElem (pendStruct (qpcModule s), s)
      in upd_qpcM (\<lambda>m. m\<lparr>pendStruct := fst ps\<rparr>) (snd ps))"

definition set_pend :: "PendingStruct \<Rightarrow> rnic \<Rightarrow> rnic" where
  "set_pend p s = upd_qpcM (\<lambda>m. m\<lparr>pendStruct := p\<rparr>) s"

definition set_info :: "u32 \<Rightarrow> QpnInfo \<Rightarrow> rnic \<Rightarrow> rnic" where
  "set_info qpn i s = upd_qpcM (\<lambda>m. m\<lparr>qpnHashMap := um_assign (qpnHashMap m) qpn i\<rparr>) s"

definition qpc_readProc :: "u8 \<Rightarrow> CxtReqRsp \<Rightarrow> rnic \<Rightarrow> rnic res" where
  "qpc_readProc chnlNum qpcReq s =
     (case um_lookup (qpnHashMap (qpcModule s)) (cx_num qpcReq) of
        Some i \<Rightarrow>
          Inr (pend_push (new_PendingElem (cx_idx qpcReq) chnlNum qpcReq False)
                (set_info (cx_num qpcReq) (i\<lparr>qi_reqCnt := qi_reqCnt i + 1\<rparr>) s))
      | None \<Rightarrow>
          let h = lookupHit (cx_num qpcReq) (qpcCache (qpcModule s));
              s1 = upd_qpcM (\<lambda>m. m\<lparr>qpcCache := snd h\<rparr>) s
          in if fst h then hitProc chnlNum qpcReq s1
             else Inr (upd_qpcM (\<lambda>m. m\<lparr>qpnHashMap :=
                          um_emplace (qpnHashMap m) (cx_num qpcReq) (new_QpnInfo (cx_num qpcReq))\<rparr>)
                        (pend_push (new_PendingElem (cx_idx qpcReq) chnlNum qpcReq True) s1)))"

definition storeMem :: "u64 \<Rightarrow> nat \<Rightarrow> rnic \<Rightarrow> rnic" where
  "storeMem paddr qpc s =
     snd (post_cacheDma ((new_DmaReq paddr 256 None (Some (qpc, 0)))\<lparr>dr_reqType := 1\<rparr>) DmaWriteEvent s)"

definition loadMem :: "CxtReqRsp \<Rightarrow> rnic \<Rightarrow> rnic res" where
  "loadMem qpcReq s =
     ebind (front_elem (pendStruct (qpcModule s))) (\<lambda>pElem.
     ensure (pe_qpn pElem AND QPN_MASK \<le> QPN_NUM) (Assert_failed ''qpn'')
       (ebind (num2phyAddr (cx_num qpcReq) (qpcIcm (qpcModule s))) (\<lambda>paddr.
        Inr (snd (post_cacheDma
          (new_DmaReq paddr 256 (Some QpcRspProcEvent) (map_option (\<lambda>p. (p, 0)) (cx_resc qpcReq)))
          DmaReadEvent s)))))"

definition writeOne_evict :: "rnic \<Rightarrow> rnic res" where
  "writeOne_evict s =
     ebind (replaceEntry (qpcCache (qpcModule s))) (\<lambda>wbQpn.
     ebind (deleteEntry wbQpn (qpcCache (qpcModule s))) (\<lambda>qc.
     ebind (num2phyAddr wbQpn (qpcIcm (qpcModule s))) (\<lambda>paddr.
       let b = alloc (OQpc (fst qc)) (upd_qpcM (\<lambda>m. m\<lparr>qpcCache := snd qc\<rparr>) s)
       in Inr (storeMem paddr (fst b) (snd b)))))"

definition writeOne :: "CxtReqRsp \<Rightarrow> rnic \<Rightarrow> rnic res" where
  "writeOne qpcReq s =
     ebind (deref_qpc (cx_resc qpcReq) s) (\<lambda>r.
     ensure (cx_num qpcReq = srcQpn r) (Assert_failed ''num == srcQpn'')
       (ebind (if lookupFull (cx_num qpcReq) (qpcCache (qpcModule s)) then writeOne_evict s else Inr s)
         (\<lambda>s1. ebind (writeEntry (cx_num qpcReq) r (qpcCache (qpcModule s1)))
           (\<lambda>c. Inr (upd_qpcM (\<lambda>m. m\<lparr>qpcCache := c\<rparr>) s1)))))"

definition qpcCreate :: "rnic \<Rightarrow> rnic res" where
  "qpcCreate s =
     (case ccuQpcWreqFifo (qpcModule s) of
        [] \<Rightarrow> Inl (Undefined ''front() of an empty queue'')
      | qpcReq # rest \<Rightarrow>
          let s1 = upd_qpcM (\<lambda>m. m\<lparr>ccuQpcWreqFifo := rest\<rparr>) s
          in ensure (cx_type qpcReq = CXT_CREQ_QP) (Assert_failed ''type == CXT_CREQ_QP'')
               (ebind (deref_qpc (cx_resc qpcReq) s1) (\<lambda>r.
                ensure (cx_num qpcReq = srcQpn r) (Assert_failed ''num == srcQpn'')
                  (ebind (writeOne qpcReq s1) (\<lambda>s2. delete_obj (the (cx_resc qpcReq)) s2)))))"

definition qpc_reqFifo :: "nat \<Rightarrow> QpcModule \<Rightarrow> CxtReqRsp list" where
  "qpc_reqFifo i m =
     (if i = 0 then txQpAddrRreqFifo m else if i = 1 then txQpcRreqFifo m else rxQpcRreqFifo m)"

definition qpc_reqPop :: "nat \<Rightarrow> QpcModule \<Rightarrow> QpcModule" where
  "qpc_reqPop i m =
     (if i = 0 then m\<lparr>txQpAddrRreqFifo := tl (txQpAddrRreqFifo m)\<rparr>
      else if i = 1 then m\<lparr>txQpcRreqFifo := tl (txQpcRreqFifo m)\<rparr>
      else m\<lparr>rxQpcRreqFifo := tl (rxQpcRreqFifo m)\<rparr>)"

definition qpc_chnl_ok :: "nat \<Rightarrow> CxtReqRsp \<Rightarrow> bool" where
  "qpc_chnl_ok i r \<longleftrightarrow>
     (if i = 0 then cx_chnl r = CXT_CHNL_TX \<and> cx_type r = CXT_RREQ_SQ
      else if i = 1 then cx_chnl r = CXT_CHNL_TX \<and> cx_type r = CXT_RREQ_QP
      else cx_chnl r = CXT_CHNL_RX \<and> cx_type r = CXT_RREQ_QP)"

definition qpcAccess :: "rnic \<Rightarrow> rnic res" where
  "qpcAccess s =
     (let sel = rr_u8 3 (\<lambda>i. qpc_reqFifo i (qpcModule s) \<noteq> []) (qpc_chnlIdx (qpcModule s))
      in case fst sel of
           None \<Rightarrow> Inr (upd_qpcM (\<lambda>m. m\<lparr>qpc_chnlIdx := snd sel\<rparr>) s)
         | Some i \<Rightarrow>
             let qpcReq = hd (qpc_reqFifo i (qpcModule s))
             in ensure (qpc_chnl_ok i qpcReq) (Assert_failed ''chnl and type'')
                  (ensure (cx_num qpcReq AND QPN_MASK \<le> QPN_NUM) (Assert_failed ''num & QPN_MASK'')
                    (ebind (qpc_readProc (of_nat i) qpcReq (upd_qpcM (qpc_reqPop i) s))
                      (\<lambda>s1. Inr (upd_qpcM (\<lambda>m. m\<lparr>qpc_chnlIdx := snd sel\<rparr>) s1)))))"

definition isReqValidRun :: "rnic \<Rightarrow> bool" where
  "isReqValidRun s \<longleftrightarrow>
     ccuQpcWreqFifo (qpcModule s) \<noteq> [] \<or> txQpAddrRreqFifo (qpcModule s) \<noteq> [] \<or>
     txQpcRreqFifo (qpcModule s) \<noteq> [] \<or> rxQpcRreqFifo (qpcModule s) \<noteq> []"

definition qpcReqProc :: "rnic \<Rightarrow> rnic res" where
  "qpcReqProc s =
     ebind (if ccuQpcWreqFifo (qpcModule s) \<noteq> [] then qpcCreate s else qpcAccess s)
       (\<lambda>s1. Inr (sched_next_if (isReqValidRun s1) QpcReqProcEvent s1))"

section \<open>Pending requests\<close>

definition pushElemProc :: "rnic \<Rightarrow> rnic res" where
  "pushElemProc s =
     ebind (pushElem_move (pendStruct (qpcModule s))) (\<lambda>ep.
       let s1 = set_pend (snd ep) s
       in ebind (if pe_has_dma (fst ep) then loadMem (pe_reqPkt (fst ep)) s1 else Inr s1)
            (\<lambda>s2. Inr (sched_next_if (pd_pushFifo (pendStruct (qpcModule s2)) \<noteq> []) PushElemProcEvent s2)))"

text \<open>Counting an answered request down; the last one removes the queue pair from the table.\<close>

definition drop_req :: "u32 \<Rightarrow> QpnInfo \<Rightarrow> rnic \<Rightarrow> rnic" where
  "drop_req qpn i s =
     (if qi_reqCnt i = 0
      then upd_qpcM (\<lambda>m. m\<lparr>rtnCnt := rtnCnt m - 1, qpnHashMap := um_erase (qpnHashMap m) qpn\<rparr>) s
      else s)"

text \<open>\<open>True\<close> stands for the return value 1.\<close>

definition checkNoDmaElem :: "PendingElem \<Rightarrow> u8 \<Rightarrow> u32 \<Rightarrow> rnic \<Rightarrow> (bool \<times> rnic) res" where
  "checkNoDmaElem pElem chnlNum qpn s =
     (case um_lookup (qpnHashMap (qpcModule s)) qpn of
        None \<Rightarrow> Inl (Undefined ''null QpnInfo'')
      | Some qInfo \<Rightarrow>
          ensure (qi_reqCnt qInfo \<noteq> 0) (Assert_failed ''qInfo->reqCnt'')
            (let h = lookupHit qpn (qpcCache (qpcModule s));
                 s1 = upd_qpcM (\<lambda>m. m\<lparr>qpcCache := snd h\<rparr>) s
             in if fst h then
                  let i1 = qInfo\<lparr>qi_reqCnt := qi_reqCnt qInfo - 1\<rparr>
                  in ebind (hitProc chnlNum (pe_reqPkt pElem) (drop_req qpn i1 (set_info qpn i1 s1))) (\<lambda>s2.
                     ebind (succ_elem_check (pendStruct (qpcModule s2))) (\<lambda>p.
                     Inr (False, set_pend p s2)))
                else if qi_isReturned qInfo then
                  let s2 = upd_qpcM (\<lambda>m. m\<lparr>rtnCnt := rtnCnt m - 1\<rparr>)
                             (set_info qpn (qInfo\<lparr>qi_isReturned := False\<rparr>) s1)
                  in ebind (push_elem_check (pElem\<lparr>pe_has_dma := True\<rparr>) (pendStruct (qpcModule s2), s2))
                       (\<lambda>ps. Inr (False, set_pend (fst ps) (snd ps)))
                else Inr (True, s1)))"

definition isRspValidRun :: "rnic \<Rightarrow> bool" where
  "isRspValidRun s \<longleftrightarrow>
     rtnCnt (qpcModule s) \<noteq> 0 \<and> get_size (pendStruct (qpcModule s)) \<noteq> 0 \<or> qpcDmaRdCplFifo s \<noteq> []"

text \<open>The three branches of \<^verbatim>\<open>qpcRspProc\<close>: a loaded context, a request overtaken by one, a check.\<close>

definition qpcRsp_loaded :: "PendingElem \<Rightarrow> QpnInfo \<Rightarrow> rnic \<Rightarrow> rnic res" where
  "qpcRsp_loaded pElem qInfo s =
     (let qpn = cx_num (pe_reqPkt pElem);
          i1 = qInfo\<lparr>qi_isReturned := True, qi_reqCnt := qi_reqCnt qInfo - 1\<rparr>;
          s1 = set_info qpn i1 (upd_qpcM (\<lambda>m. m\<lparr>rtnCnt := rtnCnt m + 1\<rparr>)
                 (s\<lparr>qpcDmaRdCplFifo := tl (qpcDmaRdCplFifo s)\<rparr>))
      in ebind (writeOne (pe_reqPkt pElem) s1) (\<lambda>s2.
         ebind (hitProc (pe_chnl pElem) (pe_reqPkt pElem) s2) (\<lambda>s3.
         ebind (pop_elem (pendStruct (qpcModule s3))) (\<lambda>ep.
         Inr (set_pend (snd ep) (drop_req qpn i1 s3))))))"

definition qpcRsp_front :: "rnic \<Rightarrow> rnic res" where
  "qpcRsp_front s =
     ebind (front_elem (pendStruct (qpcModule s))) (\<lambda>pElem.
       let qpn = cx_num (pe_reqPkt pElem)
       in case um_lookup (qpnHashMap (qpcModule s)) qpn of
            None \<Rightarrow> Inl (Undefined ''null QpnInfo'')
          | Some qInfo \<Rightarrow>
              if pe_has_dma pElem then qpcRsp_loaded pElem qInfo s
              else ebind (pop_elem (pendStruct (qpcModule s))) (\<lambda>ep.
                   ebind (checkNoDmaElem pElem (pe_chnl pElem) qpn (set_pend (snd ep) s)) (\<lambda>rs.
                   if fst rs then Inl (Panicked ''QpcModule.qpcRspProc'') else Inr (snd rs))))"

definition qpcRsp_check :: "rnic \<Rightarrow> rnic res" where
  "qpcRsp_check s =
     (if get_pending_size (pendStruct (qpcModule s)) = 0 then Inr s
      else ebind (get_elem_check (pendStruct (qpcModule s))) (\<lambda>ep.
        let cpElem = fst ep; s1 = set_pend (snd ep) s
        in if pe_has_dma cpElem then Inr (set_pend (ignore_elem_check cpElem (snd ep)) s1)
           else ebind (checkNoDmaElem cpElem (pe_chnl cpElem) (cx_num (pe_reqPkt cpElem)) s1) (\<lambda>rs.
                if fst rs
                then Inr (set_pend (ignore_elem_check cpElem (pendStruct (qpcModule (snd rs)))) (snd rs))
                else Inr (snd rs))))"

definition qpcRsp_asserts :: "rnic \<Rightarrow> bool" where
  "qpcRsp_asserts s \<longleftrightarrow>
     unat (rtnCnt (qpcModule s)) \<le> um_size (qpnHashMap (qpcModule s)) \<and>
     rtnCnt (qpcModule s) \<le> get_size (pendStruct (qpcModule s))"

definition qpcRspProc :: "rnic \<Rightarrow> rnic res" where
  "qpcRspProc s =
     ensure (qpcRsp_asserts s) (Assert_failed ''rtnCnt'')
       (ebind
         (if qpcDmaRdCplFifo s \<noteq> [] then qpcRsp_front s
          else if isRspValidRun s then qpcRsp_check s else Inr s)
         (\<lambda>s1.
           let s2 = sched_next_if (isRspValidRun s1) QpcRspProcEvent s1
           in ensure (\<not> (rtnCnt (qpcModule s2) \<noteq> 0 \<and> get_size (pendStruct (qpcModule s2)) = 0))
                (Assert_failed ''rtnCnt && get_size() == 0'')
                (ensure (qpcRsp_asserts s2) (Assert_failed ''rtnCnt'') (Inr s2))))"

end
