(* ===== verification/QpcInv.thy ===== *)
theory QpcInv
  imports Qpc
begin

text \<open>
  The invariant of the context module and what follows from it. \<open>ledger\<close> relates the table of
  waiting queue pairs to the pending elements, without the device around them: it is the abstract
  account of the module, and each operation of the module is one of its five moves.
\<close>

section \<open>The account of the pending requests\<close>

definition pe_key :: "PendingElem \<Rightarrow> u32" where
  "pe_key e = cx_num (pe_reqPkt e)"

definition cnt :: "u32 \<Rightarrow> PendingElem list \<Rightarrow> nat" where
  "cnt n E = length (filter (\<lambda>e. pe_key e = n) E)"

definition dmas :: "u32 \<Rightarrow> PendingElem list \<Rightarrow> nat" where
  "dmas n E = length (filter (\<lambda>e. pe_key e = n \<and> pe_has_dma e) E)"

lemma cnt_simps [simp]:
  "cnt n [] = 0" "cnt n (xs @ ys) = cnt n xs + cnt n ys"
  "cnt n (e # xs) = (if pe_key e = n then Suc (cnt n xs) else cnt n xs)"
  by (simp_all add: cnt_def)

lemma dmas_simps [simp]:
  "dmas n [] = 0" "dmas n (xs @ ys) = dmas n xs + dmas n ys"
  "dmas n (e # xs) = (if pe_key e = n \<and> pe_has_dma e then Suc (dmas n xs) else dmas n xs)"
  by (simp_all add: dmas_def)

lemma dmas_le_cnt: "dmas n E \<le> cnt n E"
  by (induction E) auto

lemma cnt_le_length: "cnt n E \<le> length E"
  by (simp add: cnt_def)

lemma cnt_pos_iff: "0 < cnt n E \<longleftrightarrow> n \<in> pe_key ` set E"
  by (induction E) auto

definition entry_ok :: "u32 \<Rightarrow> QpnInfo option \<Rightarrow> PendingElem list \<Rightarrow> u32 set \<Rightarrow> bool" where
  "entry_ok n oi E C \<longleftrightarrow>
     (case oi of
        None \<Rightarrow> cnt n E = 0
      | Some i \<Rightarrow> qi_qpn i = n \<and> 0 < cnt n E \<and> unat (qi_reqCnt i) = cnt n E \<and>
          dmas n E = (if qi_isReturned i then 0 else 1) \<and> (n \<in> C \<longrightarrow> qi_isReturned i))"

definition returned :: "(u32 \<Rightarrow> QpnInfo option) \<Rightarrow> u32 set" where
  "returned H = {n. \<exists>i. H n = Some i \<and> qi_isReturned i}"

definition ledger :: "(u32 \<Rightarrow> QpnInfo option) \<Rightarrow> PendingElem list \<Rightarrow> nat \<Rightarrow> u32 set \<Rightarrow> bool" where
  "ledger H E R C \<longleftrightarrow> (\<forall>n. entry_ok n (H n) E C) \<and> R = card (returned H)"

lemma ledger_at: "ledger H E R C \<Longrightarrow> entry_ok n (H n) E C"
  by (simp add: ledger_def)

lemma ledger_entry: "ledger H E R C \<Longrightarrow> H n = Some i \<Longrightarrow> entry_ok n (Some i) E C"
  using ledger_at [of H E R C n] by simp

lemma ledger_None: "ledger H E R C \<Longrightarrow> H n = None \<Longrightarrow> cnt n E = 0"
  using ledger_at [of H E R C n] by (simp add: entry_ok_def)

lemma returned_upd:
  "returned (H(n \<mapsto> i)) = (if qi_isReturned i then insert n (returned H) else returned H - {n})"
  "returned (H(n := None)) = returned H - {n}"
  by (auto simp: returned_def)

lemma finite_returned: "finite (returned H)"
  by simp

lemma in_returned: "H n = Some i \<Longrightarrow> n \<in> returned H \<longleftrightarrow> qi_isReturned i"
  by (simp add: returned_def)

lemma not_in_returned: "H n = None \<Longrightarrow> n \<notin> returned H"
  by (simp add: returned_def)

lemma unat_dec: "0 < unat (x :: 'a::len word) \<Longrightarrow> unat (x - 1) = unat x - 1"
  by (metis unat_minus_one unat_0 less_irrefl)

lemma unat_inc: "unat (x :: 'a::len word) + 1 < 2 ^ LENGTH('a) \<Longrightarrow> unat (x + 1) = unat x + 1"
  by (simp add: unat_word_ariths)

text \<open>A move that concerns one queue pair only has to account for that one.\<close>

lemma ledger_upd:
  assumes L: "ledger H E R C"
    and other: "\<And>n. n \<noteq> k \<Longrightarrow> cnt n E' = cnt n E \<and> dmas n E' = dmas n E"
    and C': "C' \<subseteq> insert k C" and k: "entry_ok k oi E' C'"
    and R': "R' = card (returned (H(k := oi)))"
  shows "ledger (H(k := oi)) E' R' C'"
proof -
  have "entry_ok n ((H(k := oi)) n) E' C'" for n
  proof (cases "n = k")
    case False
    have "entry_ok n (H n) E C" using L by (simp add: ledger_def)
    with False other [OF False] C' show ?thesis by (auto simp: entry_ok_def split: option.splits)
  qed (use k in simp)
  with R' show ?thesis by (simp add: ledger_def)
qed

lemma ledger_card: "ledger H E R C \<Longrightarrow> card (returned H) = R"
  by (simp add: ledger_def)

text \<open>A further request for a queue pair that is waiting.\<close>

lemma ledger_add_nodma:
  assumes L: "ledger H E R C" and i: "H (pe_key e) = Some i" and e: "\<not> pe_has_dma e"
    and room: "cnt (pe_key e) E < 255"
  shows "ledger (H(pe_key e \<mapsto> i\<lparr>qi_reqCnt := qi_reqCnt i + 1\<rparr>)) (E @ [e]) R C"
proof (rule ledger_upd [OF L])
  note ok = ledger_entry [OF L i]
  have u: "unat (qi_reqCnt i + 1) = unat (qi_reqCnt i) + 1"
    using ok room by (intro unat_inc) (simp add: entry_ok_def)
  with ok e show "entry_ok (pe_key e) (Some (i\<lparr>qi_reqCnt := qi_reqCnt i + 1\<rparr>)) (E @ [e]) C"
    by (simp add: entry_ok_def)
  have "returned (H(pe_key e \<mapsto> i\<lparr>qi_reqCnt := qi_reqCnt i + 1\<rparr>)) = returned H"
    using in_returned [of H, OF i] by (auto simp: returned_upd)
  then show "R = card (returned (H(pe_key e \<mapsto> i\<lparr>qi_reqCnt := qi_reqCnt i + 1\<rparr>)))"
    using ledger_card [OF L] by simp
qed (auto)

text \<open>The first request for a queue pair that is neither waiting nor in the cache.\<close>

lemma ledger_add_dma:
  assumes L: "ledger H E R C" and i: "H (pe_key e) = None" and e: "pe_has_dma e" and C: "pe_key e \<notin> C"
  shows "ledger (H(pe_key e \<mapsto> new_QpnInfo (pe_key e))) (E @ [e]) R C"
proof (rule ledger_upd [OF L])
  have z: "cnt (pe_key e) E = 0" by (rule ledger_None [OF L i])
  then have "dmas (pe_key e) E = 0" using dmas_le_cnt [of "pe_key e" E] by simp
  with z e C show "entry_ok (pe_key e) (Some (new_QpnInfo (pe_key e))) (E @ [e]) C"
    by (simp add: entry_ok_def new_QpnInfo_def)
  have "returned (H(pe_key e \<mapsto> new_QpnInfo (pe_key e))) = returned H"
    using not_in_returned [of H, OF i] by (auto simp: returned_upd new_QpnInfo_def)
  then show "R = card (returned (H(pe_key e \<mapsto> new_QpnInfo (pe_key e))))"
    using ledger_card [OF L] by simp
qed auto

text \<open>The load of a queue pair returns: its context enters the cache and one request is answered.\<close>

lemma ledger_loaded:
  assumes L: "ledger H (xs @ e # ys) R C" and i: "H (pe_key e) = Some i" and e: "pe_has_dma e"
    and C': "C' \<subseteq> insert (pe_key e) C"
  defines "i1 \<equiv> i\<lparr>qi_isReturned := True, qi_reqCnt := qi_reqCnt i - 1\<rparr>"
  shows "qi_reqCnt i1 = 0 \<Longrightarrow> ledger (H(pe_key e := None)) (xs @ ys) R C'"
    and "qi_reqCnt i1 \<noteq> 0 \<Longrightarrow> ledger (H(pe_key e \<mapsto> i1)) (xs @ ys) (R + 1) C'"
proof -
  note ok = ledger_entry [OF L i]
  have nr: "\<not> qi_isReturned i" using ok e by (auto simp: entry_ok_def split: if_splits)
  then have nin: "pe_key e \<notin> returned H" by (simp add: in_returned [of H, OF i])
  have u: "unat (qi_reqCnt i - 1) = unat (qi_reqCnt i) - 1"
    using ok by (intro unat_dec) (simp add: entry_ok_def)
  have oth: "cnt n (xs @ ys) = cnt n (xs @ e # ys) \<and> dmas n (xs @ ys) = dmas n (xs @ e # ys)"
    if "n \<noteq> pe_key e" for n using that by simp
  show "ledger (H(pe_key e := None)) (xs @ ys) R C'" if "qi_reqCnt i1 = 0"
  proof (rule ledger_upd [OF L oth C'])
    show "entry_ok (pe_key e) None (xs @ ys) C'" using that u ok by (simp add: i1_def entry_ok_def)
  qed (use ledger_card [OF L] nin in \<open>simp_all add: returned_upd\<close>)
  show "ledger (H(pe_key e \<mapsto> i1)) (xs @ ys) (R + 1) C'" if "qi_reqCnt i1 \<noteq> 0"
  proof (rule ledger_upd [OF L oth C'])
    show "entry_ok (pe_key e) (Some i1) (xs @ ys) C'"
      using that ok e u nr by (auto simp: i1_def entry_ok_def unat_eq_0 [symmetric])
  qed (use ledger_card [OF L] nin in \<open>simp_all add: returned_upd i1_def\<close>)
qed

text \<open>A waiting request is answered from the cache.\<close>

lemma ledger_serve:
  assumes L: "ledger H (xs @ e # ys) R C" and i: "H (pe_key e) = Some i" and e: "\<not> pe_has_dma e"
    and C: "pe_key e \<in> C"
  defines "i1 \<equiv> i\<lparr>qi_reqCnt := qi_reqCnt i - 1\<rparr>"
  shows "0 < R"
    and "qi_reqCnt i1 = 0 \<Longrightarrow> ledger (H(pe_key e := None)) (xs @ ys) (R - 1) C"
    and "qi_reqCnt i1 \<noteq> 0 \<Longrightarrow> ledger (H(pe_key e \<mapsto> i1)) (xs @ ys) R C"
proof -
  note ok = ledger_entry [OF L i]
  have ret: "qi_isReturned i" using ok C by (simp add: entry_ok_def)
  then have inn: "pe_key e \<in> returned H" by (simp add: in_returned [of H, OF i])
  then show "0 < R" using ledger_card [OF L] by (auto simp: card_gt_0_iff)
  have u: "unat (qi_reqCnt i - 1) = unat (qi_reqCnt i) - 1"
    using ok by (intro unat_dec) (simp add: entry_ok_def)
  have oth: "cnt n (xs @ ys) = cnt n (xs @ e # ys) \<and> dmas n (xs @ ys) = dmas n (xs @ e # ys)"
    if "n \<noteq> pe_key e" for n using that by simp
  show "ledger (H(pe_key e := None)) (xs @ ys) (R - 1) C" if "qi_reqCnt i1 = 0"
  proof (rule ledger_upd [OF L oth])
    show "entry_ok (pe_key e) None (xs @ ys) C" using that u ok by (simp add: i1_def entry_ok_def)
  qed (use ledger_card [OF L] inn in \<open>auto simp: returned_upd\<close>)
  show "ledger (H(pe_key e \<mapsto> i1)) (xs @ ys) R C" if "qi_reqCnt i1 \<noteq> 0"
  proof (rule ledger_upd [OF L oth])
    show "entry_ok (pe_key e) (Some i1) (xs @ ys) C"
      using that ok e u ret by (auto simp: i1_def entry_ok_def unat_eq_0 [symmetric])
  qed (use ledger_card [OF L] inn ret in \<open>auto simp: returned_upd i1_def insert_absorb\<close>)
qed

text \<open>A waiting request whose context has been evicted again asks for a load of its own.\<close>

lemma ledger_repost:
  assumes L: "ledger H (xs @ e # ys) R C" and i: "H (pe_key e) = Some i" and e: "\<not> pe_has_dma e"
    and C: "pe_key e \<notin> C" and ret: "qi_isReturned i"
  shows "0 < R" and "ledger (H(pe_key e \<mapsto> i\<lparr>qi_isReturned := False\<rparr>))
    (xs @ ys @ [e\<lparr>pe_has_dma := True\<rparr>]) (R - 1) C"
proof -
  note ok = ledger_entry [OF L i]
  have inn: "pe_key e \<in> returned H" using ret by (simp add: in_returned [of H, OF i])
  then show "0 < R" using ledger_card [OF L] by (auto simp: card_gt_0_iff)
  have k: "pe_key (e\<lparr>pe_has_dma := True\<rparr>) = pe_key e" by (simp add: pe_key_def)
  show "ledger (H(pe_key e \<mapsto> i\<lparr>qi_isReturned := False\<rparr>))
      (xs @ ys @ [e\<lparr>pe_has_dma := True\<rparr>]) (R - 1) C"
  proof (rule ledger_upd [OF L])
    show "entry_ok (pe_key e) (Some (i\<lparr>qi_isReturned := False\<rparr>)) (xs @ ys @ [e\<lparr>pe_has_dma := True\<rparr>]) C"
      using ok e C ret k by (simp add: entry_ok_def)
  qed (use ledger_card [OF L] inn k e in \<open>auto simp: returned_upd\<close>)
qed

lemma ledger_R_le:
  assumes "ledger H E R C" shows "R \<le> length E"
proof -
  have "n \<in> pe_key ` set E" if "n \<in> returned H" for n
    using that ledger_entry [OF assms, of n] by (auto simp: returned_def entry_ok_def simp flip: cnt_pos_iff)
  then have "returned H \<subseteq> pe_key ` set E" by blast
  then have "R \<le> card (pe_key ` set E)"
    using assms by (simp add: ledger_def card_mono)
  also have "\<dots> \<le> length E" by (meson card_image_le card_length finite_set order_trans)
  finally show ?thesis .
qed

lemma ledger_R_dom:
  assumes "ledger H E R C" shows "R \<le> card (dom H)"
  using assms by (auto simp: ledger_def returned_def intro!: card_mono)

end
