(* ===== verification/Dma.thy ===== *)
theory Dma
  imports Init
begin

text \<open>
  \<^verbatim>\<open>DmaEngine\<close> of \<^verbatim>\<open>hangu_rnic.cc\<close>: two round-robin arbiters, one for the write channels and one for
  the read channels, a channel that hands the requests to the bus, writes first, and the
  completions, which become due when latency and transfer time have passed.
\<close>

section \<open>Requests\<close>

definition dmaReq_at :: "nat \<Rightarrow> 'a nicbase_scheme \<Rightarrow> DmaReq" where
  "dmaReq_at i s = dmaReqs s ! i"

definition upd_dmaReq :: "nat \<Rightarrow> (DmaReq \<Rightarrow> DmaReq) \<Rightarrow> 'a nicbase_scheme \<Rightarrow> 'a nicbase_scheme" where
  "upd_dmaReq i f s = s\<lparr>dmaReqs := (dmaReqs s)[i := f (dmaReqs s ! i)]\<rparr>"

text \<open>\<^verbatim>\<open>Tick bwDelay = (dmaReq->size + 32) * rnic->pciBandwidth\<close>, a 32-bit product.\<close>

definition bwDelay :: "DmaReq \<Rightarrow> rnic \<Rightarrow> nat" where
  "bwDelay r s = unat (word_of_int (dr_size r + 32) * pciBandwidth s)"

text \<open>An event that may or may not be scheduled is moved to \<open>tm\<close>.\<close>

definition sched_or_resched :: "event \<Rightarrow> nat \<Rightarrow> 'a sim_scheme \<Rightarrow> 'a sim_scheme res" where
  "sched_or_resched e tm s = (if scheduled e s then reschedule e tm s else schedule e tm s)"

section \<open>Write arbiter\<close>

definition wrFifo :: "nat \<Rightarrow> rnic \<Rightarrow> nat list" where
  "wrFifo i s =
     (if i = 0 then cacheDmaAccessFifo s else if i = 1 then dataDmaWriteFifo s else cqDmaWriteFifo s)"

definition wrPop :: "nat \<Rightarrow> rnic \<Rightarrow> rnic" where
  "wrPop i s =
     (if i = 0 then s\<lparr>cacheDmaAccessFifo := tl (cacheDmaAccessFifo s)\<rparr>
      else if i = 1 then s\<lparr>dataDmaWriteFifo := tl (dataDmaWriteFifo s)\<rparr>
      else s\<lparr>cqDmaWriteFifo := tl (cqDmaWriteFifo s)\<rparr>)"

text \<open>The head of the shared FIFO of the caches is a request for the other arbiter.\<close>

definition cacheFront_is :: "u8 \<Rightarrow> rnic \<Rightarrow> bool" where
  "cacheFront_is ty s \<longleftrightarrow>
     cacheDmaAccessFifo s \<noteq> [] \<and> dr_reqType (dmaReq_at (hd (cacheDmaAccessFifo s)) s) = ty"

definition wrReady :: "rnic \<Rightarrow> nat \<Rightarrow> bool" where
  "wrReady s i \<longleftrightarrow> wrFifo i s \<noteq> [] \<and> \<not> (i = 0 \<and> cacheFront_is 0 s)"

definition dmaWrite_issue :: "nat \<Rightarrow> u8 \<Rightarrow> rnic \<Rightarrow> rnic res" where
  "dmaWrite_issue q idx s =
     (let bw = bwDelay (dmaReq_at q s) s;
          due = curTick s + (dmaWriteDelay s + bw);
          s1 = sched_next DmaChnlProcEvent (upd_dma (\<lambda>d. d\<lparr>dmaWReqFifo := dmaWReqFifo d @ [q]\<rparr>) s);
          s2 = upd_dma (\<lambda>d. d\<lparr>dmaWrReq2RspFifo := dmaWrReq2RspFifo d @ [q]\<rparr>)
                 (upd_dmaReq q (\<lambda>r. r\<lparr>dr_schd := due\<rparr>) s1);
          s3 = sched_at DmaWriteCplEvent due s2;
          s4 = upd_dma (\<lambda>d. d\<lparr>writeIdx := idx\<rparr>) s3
      in sched_or_resched DmaWriteEvent (curTick s4 + bw) s4)"

definition dmaWriteProcessing :: "rnic \<Rightarrow> rnic res" where
  "dmaWriteProcessing s =
     (let s1 = sched_next_if (cacheFront_is 0 s) DmaReadEvent s;
          sel = rr_u8 3 (wrReady s1) (writeIdx (dmaEngine s1))
      in case fst sel of
           None \<Rightarrow> Inr s1
         | Some i \<Rightarrow> dmaWrite_issue (hd (wrFifo i s1)) (snd sel) (wrPop i s1))"

definition dmaWriteCplProcessing :: "rnic \<Rightarrow> rnic res" where
  "dmaWriteCplProcessing s =
     (case dmaWrReq2RspFifo (dmaEngine s) of
        [] \<Rightarrow> Inl (Undefined ''front() of an empty queue'')
      | q # rest \<Rightarrow>
          let s1 = upd_dma (\<lambda>d. d\<lparr>dmaWrReq2RspFifo := rest\<rparr>) s
          in case rest of
               [] \<Rightarrow> Inr s1
             | q' # _ \<Rightarrow> schedule DmaWriteCplEvent (dr_schd (dmaReq_at q' s1)) s1)"

section \<open>Read arbiter\<close>

definition rdFifo :: "nat \<Rightarrow> rnic \<Rightarrow> nat list" where
  "rdFifo i s =
     (if i = 0 then cacheDmaAccessFifo s else if i = 1 then descDmaReadFifo s
      else if i = 2 then dataDmaReadFifo s else ccuDmaReadFifo s)"

definition rdPop :: "nat \<Rightarrow> rnic \<Rightarrow> rnic" where
  "rdPop i s =
     (if i = 0 then s\<lparr>cacheDmaAccessFifo := tl (cacheDmaAccessFifo s)\<rparr>
      else if i = 1 then s\<lparr>descDmaReadFifo := tl (descDmaReadFifo s)\<rparr>
      else if i = 2 then s\<lparr>dataDmaReadFifo := tl (dataDmaReadFifo s)\<rparr>
      else s\<lparr>ccuDmaReadFifo := tl (ccuDmaReadFifo s)\<rparr>)"

definition rdReady :: "rnic \<Rightarrow> nat \<Rightarrow> bool" where
  "rdReady s i \<longleftrightarrow> rdFifo i s \<noteq> [] \<and> \<not> (i = 0 \<and> cacheFront_is 1 s)"

definition dmaRead_issue :: "nat \<Rightarrow> u8 \<Rightarrow> rnic \<Rightarrow> rnic res" where
  "dmaRead_issue q idx s =
     (let bw = bwDelay (dmaReq_at q s) s;
          due = curTick s + (dmaReadDelay s + bw);
          s1 = sched_next DmaChnlProcEvent (upd_dma (\<lambda>d. d\<lparr>dmaRReqFifo := dmaRReqFifo d @ [q]\<rparr>) s);
          s2 = upd_dma (\<lambda>d. d\<lparr>dmaRdReq2RspFifo := dmaRdReq2RspFifo d @ [q]\<rparr>)
                 (upd_dmaReq q (\<lambda>r. r\<lparr>dr_schd := due\<rparr>) s1);
          s3 = sched_at DmaReadCplEvent due s2;
          s4 = upd_dma (\<lambda>d. d\<lparr>readIdx := idx\<rparr>) s3
      in sched_or_resched DmaReadEvent (curTick s4 + bw) s4)"

definition dmaReadProcessing :: "rnic \<Rightarrow> rnic res" where
  "dmaReadProcessing s =
     (let s1 = sched_next_if (cacheFront_is 1 s) DmaWriteEvent s;
          sel = rr_u8 4 (rdReady s1) (readIdx (dmaEngine s1))
      in case fst sel of
           None \<Rightarrow> Inr s1
         | Some i \<Rightarrow> dmaRead_issue (hd (rdFifo i s1)) (snd sel) (rdPop i s1))"

text \<open>
  A read request always names the event of the unit that waits for it; a completed load of a queue
  pair context is also handed over by value.
\<close>

definition dmaReadCpl_notify :: "nat \<Rightarrow> rnic \<Rightarrow> rnic res" where
  "dmaReadCpl_notify q s =
     (case dr_event (dmaReq_at q s) of
        None \<Rightarrow> Inl (Undefined ''null event'')
      | Some e \<Rightarrow>
          Inr (sched_next e
            (if e = QpcRspProcEvent then s\<lparr>qpcDmaRdCplFifo := qpcDmaRdCplFifo s @ [q]\<rparr> else s)))"

definition dmaReadCplProcessing :: "rnic \<Rightarrow> rnic res" where
  "dmaReadCplProcessing s =
     (case dmaRdReq2RspFifo (dmaEngine s) of
        [] \<Rightarrow> Inl (Undefined ''front() of an empty queue'')
      | q # rest \<Rightarrow>
          ebind (dmaReadCpl_notify q
                  (upd_dmaReq q (\<lambda>r. r\<lparr>dr_rdVld := True\<rparr>)
                    (upd_dma (\<lambda>d. d\<lparr>dmaRdReq2RspFifo := rest\<rparr>) s)))
            (\<lambda>s1. case rest of
                    [] \<Rightarrow> Inr s1
                  | q' # _ \<Rightarrow> schedule DmaReadCplEvent (dr_schd (dmaReq_at q' s1)) s1))"

section \<open>The channel\<close>

definition dmaChnl_one :: "rnic \<Rightarrow> rnic res" where
  "dmaChnl_one s =
     (case dmaWReqFifo (dmaEngine s) of
        q # rest \<Rightarrow>
          let r = dmaReq_at q s
          in dmaWrite (dr_addr r) (dr_size r) (dr_data r) (upd_dma (\<lambda>d. d\<lparr>dmaWReqFifo := rest\<rparr>) s)
      | [] \<Rightarrow>
          (case dmaRReqFifo (dmaEngine s) of
             q # rest \<Rightarrow>
               let r = dmaReq_at q s
               in dmaRead (dr_addr r) (dr_size r) (dr_data r) (upd_dma (\<lambda>d. d\<lparr>dmaRReqFifo := rest\<rparr>) s)
           | [] \<Rightarrow> Inr s))"

definition dmaChnlProc :: "rnic \<Rightarrow> rnic res" where
  "dmaChnlProc s =
     ebind (dmaChnl_one s) (\<lambda>s1.
       Inr (sched_next_if (dmaWReqFifo (dmaEngine s1) \<noteq> [] \<or> dmaRReqFifo (dmaEngine s1) \<noteq> [])
              DmaChnlProcEvent s1))"

end
