(* ===== verification/Mr.thy ===== *)
theory Mr
  imports Dma
begin

text \<open>
  \<^verbatim>\<open>MrRescModule\<close> of \<^verbatim>\<open>hangu_rnic.cc\<close>: address translation and protection. A request for a piece of a
  memory region is looked up in the protection table (the key), then in the translation table (the
  physical page), and becomes a DMA request; read data comes back in request order.
\<close>

section \<open>The two caches of the module\<close>

definition on_mpt ::
  "((MptResc, MrReqRsp) RescCache \<Rightarrow> rnic \<Rightarrow> (MptResc, MrReqRsp) RescCache \<times> rnic) \<Rightarrow> rnic \<Rightarrow> rnic" where
  "on_mpt f s = (let cs = f (mptCache (mrRescModule s)) s
                 in upd_mrM (\<lambda>m. m\<lparr>mptCache := fst cs\<rparr>) (snd cs))"

definition on_mtt ::
  "((MttResc, MrReqRsp) RescCache \<Rightarrow> rnic \<Rightarrow> (MttResc, MrReqRsp) RescCache \<times> rnic) \<Rightarrow> rnic \<Rightarrow> rnic" where
  "on_mtt f s = (let cs = f (mttCache (mrRescModule s)) s
                 in upd_mrM (\<lambda>m. m\<lparr>mttCache := fst cs\<rparr>) (snd cs))"

definition on_mpt_res ::
  "((MptResc, MrReqRsp) RescCache \<Rightarrow> rnic \<Rightarrow> ((MptResc, MrReqRsp) RescCache \<times> rnic) res) \<Rightarrow> rnic \<Rightarrow> rnic res" where
  "on_mpt_res f s = ebind (f (mptCache (mrRescModule s)) s)
     (\<lambda>cs. Inr (upd_mrM (\<lambda>m. m\<lparr>mptCache := fst cs\<rparr>) (snd cs)))"

definition on_mtt_res ::
  "((MttResc, MrReqRsp) RescCache \<Rightarrow> rnic \<Rightarrow> ((MttResc, MrReqRsp) RescCache \<times> rnic) res) \<Rightarrow> rnic \<Rightarrow> rnic res" where
  "on_mtt_res f s = ebind (f (mttCache (mrRescModule s)) s)
     (\<lambda>cs. Inr (upd_mrM (\<lambda>m. m\<lparr>mttCache := fst cs\<rparr>) (snd cs)))"

section \<open>Requests\<close>

definition isMRMatching :: "MptResc \<Rightarrow> MrReqRsp \<Rightarrow> bool" where
  "isMRMatching mptResc mrReq \<longleftrightarrow> mpt_key mptResc = mr_lkey mrReq"

definition mptReqProcess :: "MrReqRsp \<Rightarrow> rnic \<Rightarrow> rnic" where
  "mptReqProcess mrReq s =
     on_mpt (rescRead (mr_lkey mrReq) (Some MptRspEvent) mrReq None None) s"

definition mttReqProcess :: "u64 \<Rightarrow> MrReqRsp \<Rightarrow> rnic \<Rightarrow> rnic" where
  "mttReqProcess mttIdx mrReq s =
     on_mtt (rescRead (ucast mttIdx) (Some MttRspEvent) mrReq None None) s"

text \<open>The FIFO of the DMA engine a request is posted to is chosen by its channel.\<close>

definition mr_dmaWrite :: "u64 \<Rightarrow> MrReqRsp \<Rightarrow> rnic \<Rightarrow> rnic" where
  "mr_dmaWrite pAddr mrReq s =
     (let q = add_dmaReq (new_DmaReq (pciToDma s pAddr) (sint (mr_length mrReq)) None (mr_data mrReq)) s
      in if mr_chnl mrReq \<in> {TPT_WCHNL_TX_CQUE, TPT_WCHNL_RX_CQUE}
         then (snd q)\<lparr>cqDmaWriteFifo := cqDmaWriteFifo (snd q) @ [fst q]\<rparr>
         else if mr_chnl mrReq \<in> {TPT_WCHNL_TX_DATA, TPT_WCHNL_RX_DATA}
         then (snd q)\<lparr>dataDmaWriteFifo := dataDmaWriteFifo (snd q) @ [fst q]\<rparr>
         else s)"

definition mr_dmaRead :: "u64 \<Rightarrow> MrReqRsp \<Rightarrow> rnic \<Rightarrow> nat option \<times> rnic" where
  "mr_dmaRead pAddr mrReq s =
     (let q = add_dmaReq (new_DmaReq (pciToDma s pAddr) (sint (mr_length mrReq)) (Some DmaRrspEvent)
                (mr_data mrReq)) s
      in if mr_chnl mrReq \<in> {MR_RCHNL_TX_DESC, MR_RCHNL_RX_DESC}
         then (Some (fst q), (snd q)\<lparr>descDmaReadFifo := descDmaReadFifo (snd q) @ [fst q]\<rparr>)
         else if mr_chnl mrReq \<in> {MR_RCHNL_TX_DATA, MR_RCHNL_RX_DATA}
         then (Some (fst q), (snd q)\<lparr>dataDmaReadFifo := dataDmaReadFifo (snd q) @ [fst q]\<rparr>)
         else (None, s))"

definition dmaReqProcess :: "u64 \<Rightarrow> MrReqRsp \<Rightarrow> rnic \<Rightarrow> rnic" where
  "dmaReqProcess pAddr mrReq s =
     (if mr_type mrReq = DMA_TYPE_WREQ then sched_next DmaWriteEvent (mr_dmaWrite pAddr mrReq s)
      else if mr_type mrReq = DMA_TYPE_RREQ then
        let q = mr_dmaRead pAddr mrReq s
        in sched_next DmaReadEvent
             (upd_mrM (\<lambda>m. m\<lparr>dmaReq2RspFifo := dmaReq2RspFifo m @ [(mrReq, fst q)]\<rparr>) (snd q))
      else s)"

definition transFifo :: "nat \<Rightarrow> rnic \<Rightarrow> MrReqRsp list" where
  "transFifo i s = (if i = 0 then descReqFifo s else if i = 1 then cqWreqFifo s else dataReqFifo s)"

definition transPop :: "nat \<Rightarrow> rnic \<Rightarrow> rnic" where
  "transPop i s =
     (if i = 0 then s\<lparr>descReqFifo := tl (descReqFifo s)\<rparr>
      else if i = 1 then s\<lparr>cqWreqFifo := tl (cqWreqFifo s)\<rparr>
      else s\<lparr>dataReqFifo := tl (dataReqFifo s)\<rparr>)"

definition transReqProcessing :: "rnic \<Rightarrow> rnic" where
  "transReqProcessing s =
     (let sel = rr_u8 3 (\<lambda>i. transFifo i s \<noteq> []) (mr_chnlIdx (mrRescModule s));
          s1 = upd_mrM (\<lambda>m. m\<lparr>mr_chnlIdx := snd sel\<rparr>) s
      in case fst sel of
           None \<Rightarrow> s1
         | Some i \<Rightarrow>
             let mrReq = hd (transFifo i s); s2 = transPop i s1
             in mptReqProcess mrReq
                  (sched_next_if (descReqFifo s2 \<noteq> [] \<or> cqWreqFifo s2 \<noteq> [] \<or> dataReqFifo s2 \<noteq> [])
                     TransReqEvent s2))"

section \<open>Table responses\<close>

definition mptRspProcessing :: "rnic \<Rightarrow> rnic res" where
  "mptRspProcessing s =
     (case rc_rrspFifo (mptCache (mrRescModule s)) of
        [] \<Rightarrow> Inl (Undefined ''front() of an empty queue'')
      | (mpt, reqPkt) # rest \<Rightarrow>
          let s1 = upd_mrM (\<lambda>m. m\<lparr>mptCache := (mptCache m)\<lparr>rc_rrspFifo := rest\<rparr>\<rparr>) s
          in ebind (deref_resc (mptCache (mrRescModule s)) (Some mpt) s) (\<lambda>mptResc.
             if \<not> isMRMatching mptResc reqPkt
             then Inl (Panicked ''MrRescModule: mpt resc in MR is not match with reqPkt'')
             else Inr (sched_next_if (rest \<noteq> []) MptRspEvent
                    (mttReqProcess (mpt_mttSeg mptResc)
                       (reqPkt\<lparr>mr_offset := mr_offset reqPkt AND 0xFFF\<rparr>) s1))))"

definition mttRspProcessing :: "rnic \<Rightarrow> rnic res" where
  "mttRspProcessing s =
     (case rc_rrspFifo (mttCache (mrRescModule s)) of
        [] \<Rightarrow> Inl (Undefined ''front() of an empty queue'')
      | (mtt, reqPkt) # rest \<Rightarrow>
          let s1 = upd_mrM (\<lambda>m. m\<lparr>mttCache := (mttCache m)\<lparr>rc_rrspFifo := rest\<rparr>\<rparr>) s
          in ebind (deref_resc (mttCache (mrRescModule s)) (Some mtt) s) (\<lambda>mttResc.
             Inr (sched_next_if (rest \<noteq> []) MttRspEvent
                    (dmaReqProcess (mtt_pAddr mttResc + ucast (mr_offset reqPkt)) reqPkt s1))))"

section \<open>Data responses\<close>

definition deref_txDescs :: "ptr option \<Rightarrow> 'a nicbase_scheme \<Rightarrow> TxDesc list res" where
  "deref_txDescs p s =
     (case p of None \<Rightarrow> Inl (Undefined ''null TxDesc pointer'')
      | Some q \<Rightarrow> ebind (deref (fst q) s)
          (\<lambda>ob. case ob of OTxDescs ds \<Rightarrow> Inr ds | _ \<Rightarrow> Inl (Undefined ''not a TxDesc array'')))"

definition deref_rxDesc :: "ptr option \<Rightarrow> 'a nicbase_scheme \<Rightarrow> RxDesc res" where
  "deref_rxDesc p s =
     (case p of None \<Rightarrow> Inl (Undefined ''null RxDesc pointer'')
      | Some q \<Rightarrow> ebind (deref (fst q) s)
          (\<lambda>ob. case ob of ORxDesc d \<Rightarrow> Inr d | _ \<Rightarrow> Inl (Undefined ''not a RxDesc'')))"

text \<open>The number of loop rounds: the least \<open>i\<close> with \<open>i * sz\<close> not below the length.\<close>

definition desc_rounds :: "nat \<Rightarrow> u32 \<Rightarrow> nat" where
  "desc_rounds sz len = (unat len + sz - 1) div sz"

definition txDesc_ok :: "TxDesc \<Rightarrow> bool" where
  "txDesc_ok d \<longleftrightarrow> tx_len d \<noteq> 0 \<and> tx_lVaddr d \<noteq> 0 \<and> tx_opcode d \<noteq> 0"

definition rxDesc_ok :: "RxDesc \<Rightarrow> bool" where
  "rxDesc_ok d \<longleftrightarrow> rx_len d \<noteq> 0 \<and> rx_lVaddr d \<noteq> 0"

definition dmaRrsp_txDesc :: "MrReqRsp \<Rightarrow> rnic \<Rightarrow> rnic res" where
  "dmaRrsp_txDesc rsp s =
     ebind (deref_txDescs (mr_data rsp) s) (\<lambda>ds.
     let n = desc_rounds 32 (mr_length rsp)
     in ensure (n \<le> length ds) (Undefined ''descriptor array'')
          (ensure (list_all txDesc_ok (take n ds)) (Assert_failed ''txDesc'')
            (Inr (s\<lparr>txdescRspFifo := txdescRspFifo s @ take n ds\<rparr>))))"

text \<open>The buffer of receive descriptors is a single one.\<close>

definition dmaRrsp_rxDesc :: "MrReqRsp \<Rightarrow> rnic \<Rightarrow> rnic res" where
  "dmaRrsp_rxDesc rsp s =
     ebind (deref_rxDesc (mr_data rsp) s) (\<lambda>d.
     let n = desc_rounds 16 (mr_length rsp)
     in ensure (n \<le> 1) (Undefined ''descriptor array'')
          (ensure (list_all rxDesc_ok (take n [d])) (Assert_failed ''rxDesc'')
            (delete_obj (fst (the (mr_data rsp)))
               (s\<lparr>rxdescRspFifo := rxdescRspFifo s @ take n [d]\<rparr>))))"

definition dmaRrsp_post :: "MrReqRsp \<Rightarrow> rnic \<Rightarrow> (event \<times> rnic) res" where
  "dmaRrsp_post rsp s =
     (if mr_chnl rsp = MR_RCHNL_TX_DESC then ebind (dmaRrsp_txDesc rsp s) (\<lambda>s1. Inr (DduEvent, s1))
      else if mr_chnl rsp = MR_RCHNL_RX_DESC then ebind (dmaRrsp_rxDesc rsp s) (\<lambda>s1. Inr (RcvRpuEvent, s1))
      else if mr_chnl rsp = MR_RCHNL_TX_DATA
      then Inr (RgrrEvent, s\<lparr>txdataRspFifo := txdataRspFifo s @ [rsp]\<rparr>)
      else if mr_chnl rsp = MR_RCHNL_RX_DATA
      then Inr (RdCplRpuEvent, s\<lparr>rxdataRspFifo := rxdataRspFifo s @ [rsp]\<rparr>)
      else Inl (Panicked ''TPT CHNL error, there should only exist RCHNL type''))"

definition mr_rdVld :: "nat option \<Rightarrow> rnic \<Rightarrow> bool res" where
  "mr_rdVld q s = (case q of None \<Rightarrow> Inl (Undefined ''null DmaReq'') | Some i \<Rightarrow> Inr (dr_rdVld (dmaReq_at i s)))"

definition dmaRrsp_tail :: "rnic \<Rightarrow> rnic res" where
  "dmaRrsp_tail s =
     (case dmaReq2RspFifo (mrRescModule s) of
        [] \<Rightarrow> Inr s
      | e # _ \<Rightarrow> ebind (mr_rdVld (snd e) s) (\<lambda>v. Inr (sched_next_if v DmaRrspEvent s)))"

definition dmaRrspProcessing :: "rnic \<Rightarrow> rnic res" where
  "dmaRrspProcessing s =
     (case dmaReq2RspFifo (mrRescModule s) of
        [] \<Rightarrow> Inr s
      | e # rest \<Rightarrow>
          ebind (mr_rdVld (snd e) s) (\<lambda>v.
          if \<not> v then Inr s
          else if mr_type (fst e) = DMA_TYPE_WREQ
          then Inl (Panicked ''mrReq type error, write type req cannot put into dmaReq2RspFifo'')
          else ebind (dmaRrsp_post ((fst e)\<lparr>mr_type := DMA_TYPE_RRSP\<rparr>)
                       (upd_mrM (\<lambda>m. m\<lparr>dmaReq2RspFifo := rest\<rparr>) s))
                 (\<lambda>es. dmaRrsp_tail (sched_next (fst es) (snd es)))))"

end
