(* ===== verification/Cqc.thy ===== *)
theory Cqc
  imports Dma
begin

text \<open>
  \<^verbatim>\<open>CqcModule\<close> of \<^verbatim>\<open>hangu_rnic.cc\<close>: completion queue contexts. A read gives the context before the
  read and advances the offset of the cached copy by one completion entry, around the ring.
\<close>

text \<open>A shift of 32 or more, which the language leaves open, gives 0 here; the driver uses 12.\<close>

definition cqcReadUpdate :: "CqcResc \<Rightarrow> CqcResc" where
  "cqcReadUpdate resc =
     (let r1 = resc\<lparr>cqc_offset := cqc_offset resc + 16\<rparr>
      in if ucast (cqc_offset r1) + (16 :: u64) > scast (push_bit (unat (cqc_sizeLog r1)) (1 :: u32))
         then r1\<lparr>cqc_offset := 0\<rparr> else r1)"

definition on_cqc ::
  "((CqcResc, CxtReqRsp) RescCache \<Rightarrow> rnic \<Rightarrow> (CqcResc, CxtReqRsp) RescCache \<times> rnic) \<Rightarrow> rnic \<Rightarrow> rnic" where
  "on_cqc f s = (let cs = f (cqcCache (cqcModule s)) s
                 in upd_cqcM (\<lambda>m. m\<lparr>cqcCache := fst cs\<rparr>) (snd cs))"

definition on_cqc_res ::
  "((CqcResc, CxtReqRsp) RescCache \<Rightarrow> rnic \<Rightarrow> ((CqcResc, CxtReqRsp) RescCache \<times> rnic) res) \<Rightarrow> rnic \<Rightarrow> rnic res" where
  "on_cqc_res f s = ebind (f (cqcCache (cqcModule s)) s)
     (\<lambda>cs. Inr (upd_cqcM (\<lambda>m. m\<lparr>cqcCache := fst cs\<rparr>) (snd cs)))"

definition postCqcReq :: "CxtReqRsp \<Rightarrow> rnic \<Rightarrow> rnic res" where
  "postCqcReq cqcReq s =
     ensure (cx_type cqcReq = CXT_RREQ_CQ) (Assert_failed ''cqcReq->type == CXT_RREQ_CQ'')
       (if cx_chnl cqcReq = CXT_CHNL_TX
        then Inr (sched_next CqcReqProcEvent (s\<lparr>txCqcReqFifo := txCqcReqFifo s @ [cqcReq]\<rparr>))
        else if cx_chnl cqcReq = CXT_CHNL_RX
        then Inr (sched_next CqcReqProcEvent (s\<lparr>rxCqcReqFifo := rxCqcReqFifo s @ [cqcReq]\<rparr>))
        else Inl (Panicked ''CqcModule: cqcReq->chnl error''))"

definition cqcReqFifo :: "nat \<Rightarrow> rnic \<Rightarrow> CxtReqRsp list" where
  "cqcReqFifo i s = (if i = 0 then txCqcReqFifo s else rxCqcReqFifo s)"

definition cqcReqPop :: "nat \<Rightarrow> rnic \<Rightarrow> rnic" where
  "cqcReqPop i s =
     (if i = 0 then s\<lparr>txCqcReqFifo := tl (txCqcReqFifo s)\<rparr> else s\<lparr>rxCqcReqFifo := tl (rxCqcReqFifo s)\<rparr>)"

definition cqcReqProc :: "rnic \<Rightarrow> rnic res" where
  "cqcReqProc s =
     (let sel = rr_u8 2 (\<lambda>i. cqcReqFifo i s \<noteq> []) (cqc_chnlIdx (cqcModule s));
          s1 = upd_cqcM (\<lambda>m. m\<lparr>cqc_chnlIdx := snd sel\<rparr>) s
      in case fst sel of
           None \<Rightarrow> Inr s1
         | Some i \<Rightarrow>
             let cqcReq = hd (cqcReqFifo i s)
             in ensure (cx_chnl cqcReq = (if i = 0 then CXT_CHNL_TX else CXT_CHNL_RX))
                  (Assert_failed ''cqcReq->chnl'')
                (ensure (cx_type cqcReq = CXT_RREQ_CQ) (Assert_failed ''cqcReq->type == CXT_RREQ_CQ'')
                  (let s2 = on_cqc (rescRead (cx_num cqcReq) (Some CqcRspProcEvent) cqcReq
                              (cx_resc cqcReq) (Some cqcReadUpdate)) (cqcReqPop i s1)
                   in Inr (sched_next_if (txCqcReqFifo s2 \<noteq> [] \<or> rxCqcReqFifo s2 \<noteq> [])
                             CqcReqProcEvent s2))))"

definition cqcRspProc :: "rnic \<Rightarrow> rnic res" where
  "cqcRspProc s =
     (case rc_rrspFifo (cqcCache (cqcModule s)) of
        [] \<Rightarrow> Inl (Assert_failed ''cqcCache.rrspFifo.size()'')
      | (_, cqcRsp) # rest \<Rightarrow>
          let s1 = upd_cqcM (\<lambda>m. m\<lparr>cqcCache := (cqcCache m)\<lparr>rc_rrspFifo := rest\<rparr>\<rparr>) s;
              rsp = cqcRsp\<lparr>cx_type := CXT_RRSP_CQ\<rparr>
          in if cx_type cqcRsp = CXT_RREQ_CQ \<and> cx_chnl cqcRsp = CXT_CHNL_TX
             then Inr (sched_next_if (rest \<noteq> []) CqcRspProcEvent
                    (sched_next ScuEvent (s1\<lparr>txCqcRspFifo := txCqcRspFifo s1 @ [rsp]\<rparr>)))
             else if cx_type cqcRsp = CXT_RREQ_CQ \<and> cx_chnl cqcRsp = CXT_CHNL_RX
             then Inr (sched_next_if (rest \<noteq> []) CqcRspProcEvent
                    (sched_next RcuEvent (s1\<lparr>rxCqcRspFifo := rxCqcRspFifo s1 @ [rsp]\<rparr>)))
             else Inl (Panicked ''CqcModule: cxtReq type error''))"

end
