(* ===== verification/Ccu.thy ===== *)
theory Ccu
  imports Mr Cqc Qpc
begin

text \<open>
  The host interface of \<^verbatim>\<open>hangu_rnic.cc\<close>: programmed I/O to the registers behind BAR 0, the command
  execution unit with its mailbox, and the doorbell unit that starts the processing of a send queue
  with a read of the queue pair context.
\<close>

section \<open>Programmed I/O\<close>

text \<open>The base address registers as the constructor of the device leaves them.\<close>

definition rnic_BARs :: "(u64 \<times> u32) list" where
  "rnic_BARs = (0xc000000000000000, push_bit 12 1) # replicate 5 (0, 0)"

definition isBAR :: "u64 \<Rightarrow> u64 \<times> u32 \<Rightarrow> bool" where
  "isBAR addr b \<longleftrightarrow> fst b \<le> addr \<and> addr < fst b + ucast (snd b)"

fun getBAR_from :: "nat \<Rightarrow> (u64 \<times> u32) list \<Rightarrow> u64 \<Rightarrow> (nat \<times> u64) option" where
  "getBAR_from i [] addr = None"
| "getBAR_from i (b # bs) addr = (if isBAR addr b then Some (i, addr - fst b) else getBAR_from (i + 1) bs addr)"

definition getBAR :: "u64 \<Rightarrow> (nat \<times> u64) option" where
  "getBAR addr = getBAR_from 0 rnic_BARs addr"

definition pio_read :: "u64 \<Rightarrow> nat \<Rightarrow> rnic \<Rightarrow> u32 res" where
  "pio_read addr sz s =
     (case getBAR addr of
        None \<Rightarrow> Inl (Panicked ''Invalid PCI memory access to unmapped memory'')
      | Some (bar, daddr) \<Rightarrow>
          ensure (bar = 0) (Assert_failed ''bar == 0'')
            (ensure (sz = 4) (Assert_failed ''pkt->getSize() == 4'')
              (Inr (if daddr = 20
                    then push_bit 31 (cmd_go (cmdCtrl (regs s))) OR cmd_op (cmdCtrl (regs s))
                    else if daddr = 0x20 then ucast (syncSucc s) else 0))))"

definition write_hcr :: "Hcr \<Rightarrow> Regs \<Rightarrow> Regs" where
  "write_hcr h r =
     r\<lparr>inParam := set_iparamh (set_iparaml (inParam r) (inParam_l h)) (inParam_h h),
       modifier := inMod h,
       outParam := set_oparamh (set_oparaml (outParam r) (outParam_l h)) (outParam_h h),
       cmdCtrl := goOpcode h\<rparr>"

definition doorbell_of :: "u64 \<Rightarrow> DoorbellFifo" where
  "doorbell_of r =
     \<lparr>db_opcode = ucast (dbr_opcode r), db_num = ucast (dbr_num r), db_qpn = ucast (dbr_qpn r),
      db_offset = ucast (dbr_offset r)\<rparr>"

definition write_sync :: "u32 \<Rightarrow> rnic \<Rightarrow> rnic res" where
  "write_sync v s =
     (if v = 1 then
        let s1 = s\<lparr>syncCnt := syncCnt s + 1\<rparr>
        in ensure (syncCnt s1 \<le> cpuNum s1) (Assert_failed ''syncCnt <= cpuNum'')
             (Inr (if syncCnt s1 = cpuNum s1 then s1\<lparr>syncSucc := 1\<rparr> else s1))
      else
        ensure (syncCnt s > 0) (Assert_failed ''syncCnt > 0'')
          (let s1 = s\<lparr>syncCnt := syncCnt s - 1\<rparr>
           in Inr (if syncCnt s1 = 0 then s1\<lparr>syncSucc := 0\<rparr> else s1)))"

definition pio_write :: "u64 \<Rightarrow> u8 list \<Rightarrow> rnic \<Rightarrow> rnic res" where
  "pio_write addr bs s =
     (case getBAR addr of
        None \<Rightarrow> Inl (Panicked ''Invalid PCI memory access to unmapped memory'')
      | Some (bar, daddr) \<Rightarrow>
          ensure (bar = 0) (Assert_failed ''bar == 0'')
            (if daddr = 0 \<and> length bs = 24
             then Inr (sched_next CeuProcEvent (s\<lparr>regs := write_hcr (dec_Hcr bs) (regs s)\<rparr>))
             else if daddr = 0x18 \<and> length bs = 8
             then Inr (sched_next DoorbellProcEvent
                    (s\<lparr>regs := (regs s)\<lparr>db := le_dec bs\<rparr>,
                       pio2ccuDbFifo := pio2ccuDbFifo s @ [doorbell_of (le_dec bs)]\<rparr>))
             else if daddr = 0x20 \<and> length bs = 4 then write_sync (le_dec bs) s
             else Inl (Panicked ''Write request to unknown address'')))"

section \<open>Command execution\<close>

definition cmd_op8 :: "Regs \<Rightarrow> u8" where
  "cmd_op8 r = ucast (cmd_op (cmdCtrl r))"

text \<open>The mailbox of a command: the number of entries and the size of one.\<close>

definition ceu_entries :: "Regs \<Rightarrow> (u64 \<times> nat) res" where
  "ceu_entries r =
     (if cmd_op8 r = INIT_ICM then Inr (1, 40)
      else if cmd_op8 r = WRITE_ICM then Inr (ucast (modifier r), 24)
      else if cmd_op8 r = WRITE_MPT then Inr (outParam r, 32)
      else if cmd_op8 r = WRITE_MTT then Inr (outParam r, 8)
      else if cmd_op8 r = WRITE_QPC then Inr (outParam r, 256)
      else if cmd_op8 r = WRITE_CQC then Inr (1, 16)
      else Inl (Panicked ''Bad input command''))"

text \<open>The \<^verbatim>\<open>int\<close> that receives the 64-bit product.\<close>

definition ceu_size :: "u64 \<Rightarrow> nat \<Rightarrow> int" where
  "ceu_size n sz = sint (ucast (n * of_nat sz) :: u32)"

definition ceuProc :: "rnic \<Rightarrow> rnic res" where
  "ceuProc s =
     ebind (ceu_entries (regs s)) (\<lambda>e.
       let size = ceu_size (fst e) (snd e);
           b = new_bytes (junk_bytes (unat (fst e) * snd e) s) s;
           s1 = (snd b)\<lparr>mboxBuf := Some (fst b)\<rparr>
       in ensure (size > 0 \<and> size \<le> 32 * 4096) (Assert_failed ''size > 0 && size <= MAILBOX'')
            (let q = add_dmaReq (new_DmaReq (pciToDma s1 (inParam (regs s1))) size (Some MboxEvent)
                       (Some (fst b, 0))) s1
             in Inr (sched_next DmaReadEvent
                  ((snd q)\<lparr>ccuDmaReadFifo := ccuDmaReadFifo (snd q) @ [fst q]\<rparr>))))"

section \<open>Command completion\<close>

definition mbox_array :: "(u8 list \<Rightarrow> 'b) \<Rightarrow> nat \<Rightarrow> nat \<Rightarrow> rnic \<Rightarrow> 'b list res" where
  "mbox_array dec sz n s =
     (case mboxBuf s of
        None \<Rightarrow> Inl (Undefined ''null mailbox'')
      | Some p \<Rightarrow> ebind (deref p s) (\<lambda>ob. case ob of
            OBytes bs \<Rightarrow> ensure (n * sz \<le> length bs) (Undefined ''mailbox size'')
                          (Inr (dec_array dec sz n bs))
          | _ \<Rightarrow> Inl (Undefined ''not a mailbox'')))"

definition delete_mbox :: "rnic \<Rightarrow> rnic res" where
  "delete_mbox s = (case mboxBuf s of None \<Rightarrow> Inr s | Some p \<Rightarrow> delete_obj p s)"

definition cmd_initIcm :: "rnic \<Rightarrow> rnic res" where
  "cmd_initIcm s =
     ebind (mbox_array dec_InitResc 40 1 s) (\<lambda>is.
       let i = hd is;
           r = (regs s)\<lparr>mptBase := init_mptBase i, mttBase := init_mttBase i, qpcBase := init_qpcBase i,
                 cqcBase := init_cqcBase i, mptNumLog := init_mptNumLog i,
                 qpcNumLog := init_qpsNumLog i, cqcNumLog := init_cqsNumLog i\<rparr>
       in Inr (upd_cqcM (\<lambda>m. m\<lparr>cqcCache := rc_setBase (cqcBase r) (cqcCache m)\<rparr>)
              (upd_qpcM (\<lambda>m. m\<lparr>qpcIcm := icm_setBase (qpcBase r) (qpcIcm m)\<rparr>)
              (upd_mrM (\<lambda>m. m\<lparr>mptCache := rc_setBase (mptBase r) (mptCache m),
                             mttCache := rc_setBase (mttBase r) (mttCache m)\<rparr>) (s\<lparr>regs := r\<rparr>)))))"

definition cmd_writeIcm :: "rnic \<Rightarrow> rnic res" where
  "cmd_writeIcm s =
     (let ty = oparaml (outParam (regs s))
      in ebind (mbox_array dec_IcmResc 24 (unat (modifier (regs s))) s) (\<lambda>rs.
         ebind
           (if ty = ucast ICMTYPE_MPT
            then on_mpt_res (\<lambda>c x. ebind (rc_icmStore rs c) (\<lambda>c'. Inr (c', x))) s
            else if ty = ucast ICMTYPE_MTT
            then on_mtt_res (\<lambda>c x. ebind (rc_icmStore rs c) (\<lambda>c'. Inr (c', x))) s
            else if ty = ucast ICMTYPE_QPC
            then ebind (icmStore rs (qpcIcm (qpcModule s))) (\<lambda>m. Inr (upd_qpcM (\<lambda>q. q\<lparr>qpcIcm := m\<rparr>) s))
            else if ty = ucast ICMTYPE_CQC
            then on_cqc_res (\<lambda>c x. ebind (rc_icmStore rs c) (\<lambda>c'. Inr (c', x))) s
            else Inl (Panicked ''ICM mapping do not belong any Resources''))
           delete_mbox))"

fun write_mpts :: "MptResc list \<Rightarrow> rnic \<Rightarrow> rnic res" where
  "write_mpts [] s = Inr s"
| "write_mpts (r # rs) s =
     ebind (on_mpt_res (rescWrite (mpt_key r) r None) s) (\<lambda>s1. write_mpts rs s1)"

fun write_mtts :: "u32 \<Rightarrow> MttResc list \<Rightarrow> rnic \<Rightarrow> rnic res" where
  "write_mtts i [] s = Inr s"
| "write_mtts i (r # rs) s =
     ebind (on_mtt_res (rescWrite i r None) s) (\<lambda>s1. write_mtts (i + 1) rs s1)"

fun create_qpcs :: "QpcResc list \<Rightarrow> rnic \<Rightarrow> rnic res" where
  "create_qpcs [] s = Inr s"
| "create_qpcs (r # rs) s =
     (let b = alloc (OQpc r) s
      in ebind (postQpcReq ((new_CxtReqRsp CXT_CREQ_QP CXT_CHNL_TX (srcQpn r) 1 0)\<lparr>cx_resc := Some (fst b)\<rparr>)
                 (snd b)) (\<lambda>s1. create_qpcs rs s1))"

definition mbox_command :: "rnic \<Rightarrow> rnic res" where
  "mbox_command s =
     (let op8 = cmd_op8 (regs s); n = unat (outParam (regs s))
      in if op8 = INIT_ICM then cmd_initIcm s
         else if op8 = WRITE_ICM then cmd_writeIcm s
         else if op8 = WRITE_MPT then ebind (mbox_array dec_MptResc 32 n s) (\<lambda>rs. write_mpts rs s)
         else if op8 = WRITE_MTT
         then ebind (mbox_array dec_MttResc 8 n s) (\<lambda>rs. write_mtts (modifier (regs s)) rs s)
         else if op8 = WRITE_QPC
         then ebind (mbox_array dec_QpcResc 256 n s) (\<lambda>rs. ebind (create_qpcs rs s) delete_mbox)
         else if op8 = WRITE_CQC
         then ebind (mbox_array dec_CqcResc 16 1 s)
                (\<lambda>rs. on_cqc_res (rescWrite (modifier (regs s)) (hd rs) None) s)
         else Inl (Panicked ''Bad inputed command''))"

definition mboxFetchCpl :: "rnic \<Rightarrow> rnic res" where
  "mboxFetchCpl s =
     ebind (mbox_command s) (\<lambda>s1.
       Inr (s1\<lparr>regs := (regs s1)\<lparr>cmdCtrl := set_cmd_go (cmdCtrl (regs s1)) 0\<rparr>\<rparr>))"

section \<open>Doorbells\<close>

definition doorbell_post :: "DoorbellFifo \<Rightarrow> u8 \<Rightarrow> rnic \<Rightarrow> rnic res" where
  "doorbell_post dbell idx s =
     (let b = new_QpcResc s
      in postQpcReq ((new_CxtReqRsp CXT_RREQ_SQ CXT_CHNL_TX (db_qpn dbell) 1 idx)\<lparr>cx_resc := Some (fst b)\<rparr>)
           (snd b))"

definition doorbellProc :: "rnic \<Rightarrow> rnic res" where
  "doorbellProc s =
     (case df2ccuIdxFifo s of
        [] \<Rightarrow> Inr s
      | idx # idxs \<Rightarrow>
          (case pio2ccuDbFifo s of
             [] \<Rightarrow> Inl (Assert_failed ''pio2ccuDbFifo.size()'')
           | dbell # dbs \<Rightarrow>
               ensure (unat idx < length (doorbellVector s)) (Undefined ''doorbellVector index'')
                 (ebind (doorbell_post dbell idx
                    (s\<lparr>pio2ccuDbFifo := dbs, df2ccuIdxFifo := idxs,
                       doorbellVector := (doorbellVector s)[unat idx := Some dbell]\<rparr>)) (\<lambda>s1.
                  Inr (sched_next_if (df2ccuIdxFifo s1 \<noteq> [] \<and> pio2ccuDbFifo s1 \<noteq> []) DoorbellProcEvent s1)))))"

section \<open>Checkpoints\<close>

definition serialize_regs :: "Regs \<Rightarrow> (string \<times> u64) list" where
  "serialize_regs r =
     [(''inParam'', inParam r), (''modifier'', ucast (modifier r)), (''outParam'', outParam r),
      (''cmdCtrl'', ucast (cmdCtrl r)), (''db'', db r), (''mptBase'', mptBase r), (''mttBase'', mttBase r),
      (''qpcBase'', qpcBase r), (''cqcBase'', cqcBase r), (''mptNumLog'', ucast (mptNumLog r)),
      (''mttNumLog'', ucast (mttNumLog r)), (''qpcNumLog'', ucast (qpcNumLog r)),
      (''cqcNumLog'', ucast (cqcNumLog r))]"

definition paramIn :: "(string \<times> u64) list \<Rightarrow> string \<Rightarrow> u64 res" where
  "paramIn cp nm = (case map_of cp nm of None \<Rightarrow> Inl (Panicked ''Can't unserialize'') | Some v \<Rightarrow> Inr v)"

definition unserialize_regs :: "(string \<times> u64) list \<Rightarrow> Regs \<Rightarrow> Regs res" where
  "unserialize_regs cp r =
     ebind (paramIn cp ''inParam'') (\<lambda>a. ebind (paramIn cp ''modifier'') (\<lambda>b.
     ebind (paramIn cp ''outParam'') (\<lambda>c. ebind (paramIn cp ''cmdCtrl'') (\<lambda>d.
     ebind (paramIn cp ''db'') (\<lambda>e. ebind (paramIn cp ''mptBase'') (\<lambda>f.
     ebind (paramIn cp ''mttBase'') (\<lambda>g. ebind (paramIn cp ''qpcBase'') (\<lambda>h.
     ebind (paramIn cp ''cqcBase'') (\<lambda>i. ebind (paramIn cp ''mptNumLog'') (\<lambda>j.
     ebind (paramIn cp ''mttNumLog'') (\<lambda>k. ebind (paramIn cp ''qpcNumLog'') (\<lambda>l.
     ebind (paramIn cp ''cqcNumLog'') (\<lambda>m.
     Inr (r\<lparr>inParam := a, modifier := ucast b, outParam := c, cmdCtrl := ucast d, db := e, mptBase := f,
       mttBase := g, qpcBase := h, cqcBase := i, mptNumLog := ucast j, mttNumLog := ucast k,
       qpcNumLog := ucast l, cqcNumLog := ucast m\<rparr>))))))))))))))"

end
