(* ===== verification/Driver.thy ===== *)
theory Driver
  imports Ccu
begin

text \<open>
  \<^verbatim>\<open>hangu_driver.cc\<close>: the emulated kernel driver. It hands out resource numbers from bitmaps, backs
  them with pages of the interconnect context memory (ICM), and writes commands to the device through
  the mailbox and the host command register. The request structures of \<^verbatim>\<open>kfd_ioctl.h\<close> keep their
  names; their arrays are functions with the bound checked where it is exceeded. What the calls find
  in the process is part of the driver's state: the page table, the end of the mapped region, and the
  next free physical page of the system.
\<close>

section \<open>Requests\<close>

abbreviation (input) "MAX_MR_BATCH \<equiv> (512 :: u32)"
abbreviation (input) "MAX_QPC_BATCH \<equiv> (256 :: u32)"

record kfd_ioctl_init_mtt_args =
  mtta_batch_size :: u32
  mtta_vaddr :: "nat \<Rightarrow> u64"
  mtta_mtt_index :: u32
  mtta_paddr :: "nat \<Rightarrow> u64"

record kfd_ioctl_alloc_mpt_args =
  mpta_batch_size :: u32
  mpta_mpt_index :: u32

record kfd_ioctl_write_mpt_args =
  mptw_batch_size :: u32
  mptw_flag :: "nat \<Rightarrow> u8"
  mptw_addr :: "nat \<Rightarrow> u64"
  mptw_length :: "nat \<Rightarrow> u64"
  mptw_mtt_index :: "nat \<Rightarrow> u32"
  mptw_mpt_index :: "nat \<Rightarrow> u32"

record kfd_ioctl_write_cqc_args =
  cqcw_cq_num :: u32
  cqcw_offset :: u32
  cqcw_lkey :: u32
  cqcw_size_log :: u32

record kfd_ioctl_alloc_qp_args =
  qpa_batch_size :: u32
  qpa_qp_num :: u32

text \<open>The arrays of the queue pair request, element by element.\<close>

record kfd_qpc_elem =
  qpw_flag :: u8
  qpw_type :: u8
  qpw_sq_size_log :: u8
  qpw_rq_size_log :: u8
  qpw_snd_wqe_offset :: u16
  qpw_rcv_wqe_offset :: u16
  qpw_llid :: u16
  qpw_dlid :: u16
  qpw_src_qpn :: u32
  qpw_dest_qpn :: u32
  qpw_snd_psn :: u32
  qpw_ack_psn :: u32
  qpw_exp_psn :: u32
  qpw_cq_num :: u32
  qpw_snd_wqe_base_lkey :: u32
  qpw_rcv_wqe_base_lkey :: u32
  qpw_qkey :: u32

record kfd_ioctl_write_qpc_args =
  qpw_batch_size :: u32
  qpw_elem :: "nat \<Rightarrow> kfd_qpc_elem"

datatype ioc =
    IOC_INIT_DEV
  | IOC_ALLOC_MTT kfd_ioctl_init_mtt_args
  | IOC_WRITE_MTT kfd_ioctl_init_mtt_args
  | IOC_ALLOC_MPT kfd_ioctl_alloc_mpt_args
  | IOC_WRITE_MPT kfd_ioctl_write_mpt_args
  | IOC_ALLOC_CQ u32
  | IOC_WRITE_CQC kfd_ioctl_write_cqc_args
  | IOC_ALLOC_QP kfd_ioctl_alloc_qp_args
  | IOC_WRITE_QPC kfd_ioctl_write_qpc_args
  | IOC_CHECK_GO
  | IOC_GET_TIME u64
  | IOC_BAD

section \<open>State\<close>

record RescMeta =
  rm_start :: u64
  rm_size :: u64
  rm_entrySize :: u32
  rm_entryNumLog :: u8
  rm_entryNumPage :: u32
  rm_bitmap :: "nat \<Rightarrow> u8"

record HanGuDriver =
  cpu_id :: u8
  hcrAddr :: u64
  mttMeta :: RescMeta
  mptMeta :: RescMeta
  cqcMeta :: RescMeta
  qpcMeta :: RescMeta
  icmAddrmap :: "(u64, u64) umap"
  mailbox_paddr :: u64
  mailbox_vaddr :: u64
  pTable :: "(u64, u64) umap"
  mmapEnd :: u64
  pagePtr :: u64

type_synonym host = "HanGuDriver \<times> rnic"

section \<open>Memory of the process\<close>

definition pt_translate :: "u64 \<Rightarrow> HanGuDriver \<Rightarrow> u64 option" where
  "pt_translate va d = map_option (\<lambda>pp. push_bit 12 pp OR (va AND 0xFFF)) (um_lookup (pTable d) (drop_bit 12 va))"

text \<open>Pages are entered one by one; none of the calls here allows a page that is mapped already.\<close>

fun pt_map_pages :: "nat \<Rightarrow> u64 \<Rightarrow> u64 \<Rightarrow> HanGuDriver \<Rightarrow> HanGuDriver res" where
  "pt_map_pages 0 vp pp d = Inr d"
| "pt_map_pages (Suc n) vp pp d =
     (if um_lookup (pTable d) vp \<noteq> None then Inl (Panicked ''addr already mapped'')
      else pt_map_pages n (vp + 1) (pp + 1) (d\<lparr>pTable := um_emplace (pTable d) vp pp\<rparr>))"

definition pt_map :: "u64 \<Rightarrow> u64 \<Rightarrow> nat \<Rightarrow> HanGuDriver \<Rightarrow> HanGuDriver res" where
  "pt_map va pa n d =
     ensure (va AND 0xFFF = 0) (Assert_failed ''pageOffset(vaddr) == 0'')
       (pt_map_pages n (drop_bit 12 va) (drop_bit 12 pa) d)"

definition allocPhysPages :: "nat \<Rightarrow> HanGuDriver \<Rightarrow> u64 \<times> HanGuDriver" where
  "allocPhysPages n d = (push_bit 12 (pagePtr d), d\<lparr>pagePtr := pagePtr d + of_nat n\<rparr>)"

text \<open>
  An access of the process: to the device when the address is mapped to its registers, to memory
  otherwise, where every byte is translated.
\<close>

fun write_bytes :: "u64 \<Rightarrow> u8 list \<Rightarrow> HanGuDriver \<Rightarrow> rnic \<Rightarrow> rnic res" where
  "write_bytes va [] d s = Inr s"
| "write_bytes va (b # bs) d s =
     (case pt_translate va d of
        None \<Rightarrow> Inl (Panicked ''page fault'')
      | Some pa \<Rightarrow> write_bytes (va + 1) bs d (mem_write pa [b] s))"

definition writeBlob :: "u64 \<Rightarrow> u8 list \<Rightarrow> host \<Rightarrow> host res" where
  "writeBlob va bs h =
     (case pt_translate va (fst h) of
        None \<Rightarrow> Inl (Panicked ''page fault'')
      | Some pa \<Rightarrow>
          ebind (if getBAR pa \<noteq> None then pio_write pa bs (snd h) else write_bytes va bs (fst h) (snd h))
            (\<lambda>s. Inr (fst h, s)))"

definition readBlob32 :: "u64 \<Rightarrow> host \<Rightarrow> u32 res" where
  "readBlob32 va h =
     (case pt_translate va (fst h) of
        None \<Rightarrow> Inl (Panicked ''page fault'')
      | Some pa \<Rightarrow>
          if getBAR pa \<noteq> None then pio_read pa 4 (snd h) else Inr (le_dec (mem_read pa 4 (snd h))))"

definition drv_open :: "u8 \<Rightarrow> HanGuDriver \<Rightarrow> HanGuDriver" where
  "drv_open contextId d = d\<lparr>cpu_id := contextId\<rparr>"

definition drv_mmap :: "u64 \<Rightarrow> u64 \<Rightarrow> HanGuDriver \<Rightarrow> (u64 \<times> HanGuDriver) res" where
  "drv_mmap start len d =
     (let st = (if start = 0 then mmapEnd d - len else start);
          d1 = (if start = 0 then d\<lparr>mmapEnd := st\<rparr> else d)
      in ebind (pt_map st (fst (hd rnic_BARs)) 1 d1) (\<lambda>d2. Inr (st + 24, d2\<lparr>hcrAddr := st\<rparr>)))"

section \<open>Host command register\<close>

definition checkHcr :: "host \<Rightarrow> bool res" where
  "checkHcr h = ebind (readBlob32 (hcrAddr (fst h) + 20) h) (\<lambda>goOp. Inr (drop_bit 31 goOp = 1))"

definition mk_hcr :: "u64 \<Rightarrow> u32 \<Rightarrow> u64 \<Rightarrow> u8 \<Rightarrow> Hcr" where
  "mk_hcr inP inM outP opcode =
     \<lparr>inParam_l = ucast (inP AND 0xffffffff), inParam_h = ucast (drop_bit 32 inP), inMod = inM,
      outParam_l = ucast (outP AND 0xffffffff), outParam_h = ucast (drop_bit 32 outP),
      goOpcode = push_bit 31 1 OR ucast opcode\<rparr>"

definition postHcr :: "u64 \<Rightarrow> u32 \<Rightarrow> u64 \<Rightarrow> u8 \<Rightarrow> host \<Rightarrow> host res" where
  "postHcr inP inM outP opcode h = writeBlob (hcrAddr (fst h)) (enc_Hcr (mk_hcr inP inM outP opcode)) h"

text \<open>A command with its data in the mailbox.\<close>

definition mbox_post :: "u8 list \<Rightarrow> u32 \<Rightarrow> u64 \<Rightarrow> u8 \<Rightarrow> host \<Rightarrow> host res" where
  "mbox_post bs inM outP opcode h =
     ebind (writeBlob (mailbox_vaddr (fst h)) bs h) (\<lambda>h1.
       postHcr (mailbox_paddr (fst h1)) inM outP opcode h1)"

section \<open>Context memory\<close>

definition new_meta :: "u64 \<Rightarrow> u32 \<Rightarrow> nat \<Rightarrow> u8 \<Rightarrow> RescMeta" where
  "new_meta start esz perPageLog numLog =
     \<lparr>rm_start = start, rm_size = push_bit (unat numLog) 1 * ucast esz, rm_entrySize = esz,
      rm_entryNumLog = numLog, rm_entryNumPage = push_bit (unat numLog - perPageLog) 1,
      rm_bitmap = (\<lambda>_. 0)\<rparr>"

definition initIcm :: "u8 \<Rightarrow> u8 \<Rightarrow> u8 \<Rightarrow> u8 \<Rightarrow> host \<Rightarrow> host res" where
  "initIcm qpcNumL cqcNumL mptNumL mttNumL h =
     (let mtt = new_meta 0 8 (12 - 3) mttNumL;
          mpt = new_meta (rm_size mtt) 32 (12 - 5) mptNumL;
          cqc = new_meta (rm_start mpt + rm_size mpt) 16 (12 - 4) cqcNumL;
          qpc = new_meta (rm_start cqc + rm_size cqc) 256 (12 - 8) qpcNumL;
          d = (fst h)\<lparr>mttMeta := mtt, mptMeta := mpt, cqcMeta := cqc, qpcMeta := qpc\<rparr>;
          ini = \<lparr>init_qpsNumLog = qpcNumL, init_cqsNumLog = cqcNumL, init_mptNumLog = mptNumL,
                 init_qpcBase = rm_start qpc, init_cqcBase = rm_start cqc, init_mptBase = rm_start mpt,
                 init_mttBase = rm_start mtt\<rparr>
      in mbox_post (enc_InitResc ini) 0 0 INIT_ICM (d, snd h))"

definition icm_page :: "RescMeta \<Rightarrow> u64 \<Rightarrow> u64" where
  "icm_page m index = drop_bit 12 (rm_start m + index * ucast (rm_entrySize m))"

definition isIcmMapped :: "RescMeta \<Rightarrow> u64 \<Rightarrow> HanGuDriver \<Rightarrow> bool" where
  "isIcmMapped m index d \<longleftrightarrow> um_lookup (icmAddrmap d) (icm_page m index) \<noteq> None"

text \<open>
  The search for an unmapped page. A map with \<open>n\<close> entries does not fill \<open>n + 1\<close> consecutive pages, so
  that many rounds are enough.
\<close>

fun first_unmapped :: "nat \<Rightarrow> (u64, u64) umap \<Rightarrow> u64 \<Rightarrow> u64" where
  "first_unmapped 0 m v = v"
| "first_unmapped (Suc n) m v = (if um_lookup m v \<noteq> None then first_unmapped n m (v + 1) else v)"

fun map_icm_pages :: "nat \<Rightarrow> u64 \<Rightarrow> u64 \<Rightarrow> (u64, u64) umap \<Rightarrow> (u64, u64) umap" where
  "map_icm_pages 0 v p m = m"
| "map_icm_pages (Suc n) v p m = map_icm_pages n (v + 1) (p + 4096) (um_assign m v p)"

definition allocIcm :: "RescMeta \<Rightarrow> u64 \<Rightarrow> HanGuDriver \<Rightarrow> u64 \<times> HanGuDriver" where
  "allocIcm m index d =
     (let v = first_unmapped (um_size (icmAddrmap d)) (icmAddrmap d) (icm_page m index);
          pd = allocPhysPages ICM_ALLOC_PAGE_NUM d
      in (v, (snd pd)\<lparr>icmAddrmap := map_icm_pages ICM_ALLOC_PAGE_NUM v (fst pd) (icmAddrmap d)\<rparr>))"

text \<open>
  The copy to the mailbox has the size of another structure, 40 bytes for one of 24: what follows
  the structure in memory goes along.
\<close>

definition writeIcm :: "u8 \<Rightarrow> u64 \<Rightarrow> host \<Rightarrow> host res" where
  "writeIcm rescType icmVPage h =
     (let r = \<lparr>icm_pageNum = of_nat ICM_ALLOC_PAGE_NUM, icm_vAddr = push_bit 12 icmVPage,
               icm_pAddr = (case um_lookup (icmAddrmap (fst h)) icmVPage of None \<Rightarrow> 0 | Some p \<Rightarrow> p)\<rparr>
      in mbox_post (enc_IcmResc r @ junk_bytes 16 (snd h)) 1 (ucast rescType) WRITE_ICM h)"

section \<open>Resource numbers\<close>

text \<open>The scan for a byte that is not full runs off the end of the array when there is none.\<close>

function free_byte :: "(nat \<Rightarrow> u8) \<Rightarrow> u32 \<Rightarrow> u32 \<Rightarrow> u32 res" where
  "free_byte bm n i =
     (if n \<le> i then Inl (Undefined ''read past the bitmap'')
      else if bm (unat i) = 0xff then free_byte bm n (i + 1) else Inr i)"
  by pat_completeness auto
termination
proof (relation "measure (\<lambda>(_, n, i). unat n - unat i)", goal_cases)
  case (2 bm n i)
  then have "unat i < unat n" by (simp add: word_le_nat_alt)
  moreover from this have "unat (i + 1) = unat i + 1"
    using unsigned_less [of n, where ?'a = nat] by (simp add: unat_word_ariths)
  ultimately show ?case by simp
qed simp

function free_bit :: "u8 \<Rightarrow> nat \<Rightarrow> nat" where
  "free_bit b j = (if bit b j then free_bit b (j + 1) else j)"
  by pat_completeness auto
termination
  by (relation "measure (\<lambda>(_, j). 8 - j)") (auto dest: bit_imp_le_length)

definition allocResc :: "u8 \<Rightarrow> RescMeta \<Rightarrow> (u32 \<times> RescMeta) res" where
  "allocResc cpu m =
     ebind (free_byte (rm_bitmap m) (rm_entryNumPage m) 0) (\<lambda>i.
       let j = free_bit (rm_bitmap m (unat i)) 0
       in Inr (i * 8 + of_nat j + push_bit RESC_LIM_LOG (ucast cpu),
               m\<lparr>rm_bitmap := (rm_bitmap m)(unat i := rm_bitmap m (unat i) OR push_bit j 1)\<rparr>))"

text \<open>A batch: the number of the last allocation, from which the code computes the first.\<close>

fun allocBatch :: "nat \<Rightarrow> u8 \<Rightarrow> u32 \<Rightarrow> RescMeta \<Rightarrow> (u32 \<times> RescMeta) res" where
  "allocBatch 0 cpu idx m = Inr (idx, m)"
| "allocBatch (Suc n) cpu idx m = ebind (allocResc cpu m) (\<lambda>r. allocBatch n cpu (fst r) (snd r))"

section \<open>Translation entries\<close>

fun translate_all :: "nat \<Rightarrow> nat \<Rightarrow> HanGuDriver \<Rightarrow> (nat \<Rightarrow> u64) \<Rightarrow> (nat \<Rightarrow> u64) \<Rightarrow> nat \<Rightarrow> u64" where
  "translate_all 0 i d va pa = pa"
| "translate_all (Suc n) i d va pa =
     translate_all n (i + 1) d va (case pt_translate (va i) d of None \<Rightarrow> pa | Some p \<Rightarrow> pa(i := p))"

definition allocMtt :: "kfd_ioctl_init_mtt_args \<Rightarrow> HanGuDriver \<Rightarrow> (kfd_ioctl_init_mtt_args \<times> HanGuDriver) res" where
  "allocMtt a d =
     ensure (mtta_batch_size a \<le> MAX_MR_BATCH) (Undefined ''vaddr[] index'')
       (ebind (allocBatch (unat (mtta_batch_size a)) (cpu_id d) (mtta_mtt_index a) (mttMeta d)) (\<lambda>r.
        Inr (a\<lparr>mtta_mtt_index := fst r - (mtta_batch_size a - 1),
               mtta_paddr := translate_all (unat (mtta_batch_size a)) 0 d (mtta_vaddr a) (mtta_paddr a)\<rparr>,
             d\<lparr>mttMeta := snd r\<rparr>)))"

definition writeMtt :: "kfd_ioctl_init_mtt_args \<Rightarrow> host \<Rightarrow> host res" where
  "writeMtt a h =
     ensure (mtta_batch_size a \<le> MAX_MR_BATCH) (Undefined ''mttResc[] index'')
       (mbox_post (concat (map (\<lambda>i. enc_MttResc \<lparr>mtt_pAddr = mtta_paddr a i\<rparr>) [0..<unat (mtta_batch_size a)]))
          (mtta_mtt_index a) (ucast (mtta_batch_size a)) WRITE_MTT h)"

section \<open>Protection entries\<close>

definition allocMpt :: "kfd_ioctl_alloc_mpt_args \<Rightarrow> HanGuDriver \<Rightarrow> (kfd_ioctl_alloc_mpt_args \<times> HanGuDriver) res" where
  "allocMpt a d =
     ebind (allocBatch (unat (mpta_batch_size a)) (cpu_id d) (mpta_mpt_index a) (mptMeta d)) (\<lambda>r.
     Inr (a\<lparr>mpta_mpt_index := fst r - (mpta_batch_size a - 1)\<rparr>, d\<lparr>mptMeta := snd r\<rparr>))"

definition mpt_entry :: "kfd_ioctl_write_mpt_args \<Rightarrow> nat \<Rightarrow> MptResc" where
  "mpt_entry a i =
     \<lparr>mpt_flag = ucast (mptw_flag a i), mpt_key = mptw_mpt_index a i, mpt_startVAddr = mptw_addr a i,
      mpt_length = mptw_length a i, mpt_mttSeg = ucast (mptw_mtt_index a i)\<rparr>"

definition writeMpt :: "kfd_ioctl_write_mpt_args \<Rightarrow> host \<Rightarrow> host res" where
  "writeMpt a h =
     ensure (mptw_batch_size a \<le> MAX_MR_BATCH) (Undefined ''mptResc[] index'')
       (mbox_post (concat (map (enc_MptResc \<circ> mpt_entry a) [0..<unat (mptw_batch_size a)]))
          (mptw_mpt_index a 0) (ucast (mptw_batch_size a)) WRITE_MPT h)"

section \<open>Completion queues and queue pairs\<close>

definition allocCqc :: "HanGuDriver \<Rightarrow> (u32 \<times> HanGuDriver) res" where
  "allocCqc d = ebind (allocResc (cpu_id d) (cqcMeta d)) (\<lambda>r. Inr (fst r, d\<lparr>cqcMeta := snd r\<rparr>))"

definition writeCqc :: "kfd_ioctl_write_cqc_args \<Rightarrow> host \<Rightarrow> host res" where
  "writeCqc a h =
     mbox_post (enc_CqcResc \<lparr>cqc_cqn = cqcw_cq_num a, cqc_offset = cqcw_offset a, cqc_lkey = cqcw_lkey a,
        cqc_sizeLog = cqcw_size_log a\<rparr>) (cqcw_cq_num a) 0 WRITE_CQC h"

definition allocQpc :: "kfd_ioctl_alloc_qp_args \<Rightarrow> HanGuDriver \<Rightarrow> (kfd_ioctl_alloc_qp_args \<times> HanGuDriver) res" where
  "allocQpc a d =
     ebind (allocBatch (unat (qpa_batch_size a)) (cpu_id d) (qpa_qp_num a) (qpcMeta d)) (\<lambda>r.
     Inr (a\<lparr>qpa_qp_num := fst r - (qpa_batch_size a - 1)\<rparr>, d\<lparr>qpcMeta := snd r\<rparr>))"

definition qpc_entry :: "kfd_qpc_elem \<Rightarrow> QpcResc" where
  "qpc_entry e =
     \<lparr>qpc_flag = qpw_flag e, qpType = qpw_type e, sqSizeLog = qpw_sq_size_log e,
      rqSizeLog = qpw_rq_size_log e, sndWqeOffset = qpw_snd_wqe_offset e,
      rcvWqeOffset = qpw_rcv_wqe_offset e, lLid = qpw_llid e, dLid = qpw_dlid e,
      srcQpn = qpw_src_qpn e, destQpn = qpw_dest_qpn e, sndPsn = qpw_snd_psn e, ackPsn = qpw_ack_psn e,
      expPsn = qpw_exp_psn e, qpc_cqn = qpw_cq_num e, sndWqeBaseLkey = qpw_snd_wqe_base_lkey e,
      rcvWqeBaseLkey = qpw_rcv_wqe_base_lkey e, qpc_qkey = qpw_qkey e, qpc_reserved = replicate 52 0\<rparr>"

definition writeQpc :: "kfd_ioctl_write_qpc_args \<Rightarrow> host \<Rightarrow> host res" where
  "writeQpc a h =
     ensure (qpw_batch_size a \<le> MAX_QPC_BATCH) (Undefined ''qpcResc[] index'')
       (mbox_post (concat (map (\<lambda>i. enc_QpcResc (qpc_entry (qpw_elem a i))) [0..<unat (qpw_batch_size a)]))
          (qpw_src_qpn (qpw_elem a 0)) (ucast (qpw_batch_size a)) WRITE_QPC h)"

definition initMailbox :: "HanGuDriver \<Rightarrow> HanGuDriver res" where
  "initMailbox d =
     (let pd = allocPhysPages MAILBOX_PAGE_NUM d;
          va = mmapEnd (snd pd) - push_bit 12 (of_nat MAILBOX_PAGE_NUM)
      in pt_map va (fst pd) MAILBOX_PAGE_NUM
           ((snd pd)\<lparr>mailbox_paddr := fst pd, mailbox_vaddr := va, mmapEnd := va\<rparr>))"

section \<open>System calls\<close>

text \<open>A freshly allocated range whose last entry has no page yet gets pages, and the device is told.\<close>

definition back_icm :: "u8 \<Rightarrow> RescMeta \<Rightarrow> u32 \<Rightarrow> u32 \<Rightarrow> host \<Rightarrow> host res" where
  "back_icm rescType m first lst h =
     (if isIcmMapped m (ucast lst) (fst h) then Inr h
      else let vd = allocIcm m (ucast first) (fst h)
           in writeIcm rescType (fst vd) (snd vd, snd h))"

definition ioctl_alloc :: "ioc \<Rightarrow> host \<Rightarrow> (ioc \<times> host) res" where
  "ioctl_alloc req h =
     (case req of
        IOC_ALLOC_MTT a \<Rightarrow>
          ebind (allocMtt a (fst h)) (\<lambda>r.
          ebind (back_icm ICMTYPE_MTT (mttMeta (snd r)) (mtta_mtt_index (fst r))
                   (mtta_mtt_index (fst r) + mtta_batch_size (fst r) - 1) (snd r, snd h)) (\<lambda>h1.
          Inr (IOC_ALLOC_MTT (fst r), h1)))
      | IOC_ALLOC_MPT a \<Rightarrow>
          ebind (allocMpt a (fst h)) (\<lambda>r.
          ebind (back_icm ICMTYPE_MPT (mptMeta (snd r)) (mpta_mpt_index (fst r))
                   (mpta_mpt_index (fst r) + mpta_batch_size (fst r) - 1) (snd r, snd h)) (\<lambda>h1.
          Inr (IOC_ALLOC_MPT (fst r), h1)))
      | IOC_ALLOC_CQ _ \<Rightarrow>
          ebind (allocCqc (fst h)) (\<lambda>r.
          ebind (back_icm ICMTYPE_CQC (cqcMeta (snd r)) (fst r) (fst r) (snd r, snd h)) (\<lambda>h1.
          Inr (IOC_ALLOC_CQ (fst r), h1)))
      | IOC_ALLOC_QP a \<Rightarrow>
          ebind (allocQpc a (fst h)) (\<lambda>r.
          ebind (back_icm ICMTYPE_QPC (qpcMeta (snd r)) (qpa_qp_num (fst r))
                   (qpa_qp_num (fst r) + qpa_batch_size (fst r) - 1) (snd r, snd h)) (\<lambda>h1.
          Inr (IOC_ALLOC_QP (fst r), h1)))
      | _ \<Rightarrow> Inr (req, h))"

definition ioctl_write :: "ioc \<Rightarrow> host \<Rightarrow> host res" where
  "ioctl_write req h =
     (case req of
        IOC_INIT_DEV \<Rightarrow>
          ebind (initMailbox (fst h)) (\<lambda>d.
          initIcm (of_nat RESC_LEN_LOG) (of_nat RESC_LEN_LOG) (of_nat RESC_LEN_LOG) (of_nat RESC_LEN_LOG) (d, snd h))
      | IOC_WRITE_MTT a \<Rightarrow> writeMtt a h
      | IOC_WRITE_MPT a \<Rightarrow> writeMpt a h
      | IOC_WRITE_CQC a \<Rightarrow> writeCqc a h
      | IOC_WRITE_QPC a \<Rightarrow> writeQpc a h
      | IOC_BAD \<Rightarrow> Inl (Panicked ''bad ioctl'')
      | _ \<Rightarrow> Inr h)"

text \<open>The return value, the request as copied back, and the new state.\<close>

definition ioctl :: "ioc \<Rightarrow> host \<Rightarrow> (int \<times> ioc \<times> host) res" where
  "ioctl req h =
     (case req of
        IOC_GET_TIME _ \<Rightarrow> Inr (0, IOC_GET_TIME (of_nat (curTick (snd h))), h)
      | _ \<Rightarrow>
          ebind (checkHcr h) (\<lambda>go.
          if go then Inr (-1, req, h)
          else ebind (ioctl_write req h) (\<lambda>h1.
               ebind (ioctl_alloc req h1) (\<lambda>r. Inr (0, fst r, snd r)))))"

end
