(* ===== verification/EngineTx.thy ===== *)
theory EngineTx
  imports Mr Cqc Qpc
begin

text \<open>
  The transmit side of \<^verbatim>\<open>RdmaEngine\<close> in \<^verbatim>\<open>hangu_rnic.cc\<close>: a doorbell fetches descriptors (DFU), each
  descriptor fetches its queue pair context (DDU), the pair is cut into packets (DPU and slicing),
  the packets get their headers when the payload has arrived (RGU), and go to the link (SAU). The
  baseline DPU, which cuts a whole message at once, is kept beside the optimised one, which leaves
  the message in a slot and emits one packet per slicing event.
\<close>

section \<open>Descriptor fetching: DFU\<close>

definition txDescLenSel :: "u8 \<Rightarrow> u32" where
  "txDescLenSel num = ucast num"

definition dfu_credit :: "u8 \<Rightarrow> rnic \<Rightarrow> rnic" where
  "dfu_credit idx s =
     (let s1 = s\<lparr>doorbellVector := (doorbellVector s)[unat idx := None],
                 df2ccuIdxFifo := df2ccuIdxFifo s @ [idx]\<rparr>
      in sched_next_if (length (df2ccuIdxFifo s1) = 1 \<and> pio2ccuDbFifo s1 \<noteq> []) DoorbellProcEvent s1)"

definition dfu_descReq :: "QpcResc \<Rightarrow> DoorbellFifo \<Rightarrow> rnic \<Rightarrow> rnic" where
  "dfu_descReq qpc dbell s =
     (let b = new_TxDescs (unat (db_num dbell)) s;
          descReq = (new_MrReqRsp DMA_TYPE_RREQ MR_RCHNL_TX_DESC (sndWqeBaseLkey qpc)
            (push_bit 5 (txDescLenSel (db_num dbell))) (db_offset dbell))\<lparr>mr_data := Some (fst b, 0)\<rparr>
      in sched_next TransReqEvent ((snd b)\<lparr>descReqFifo := descReqFifo (snd b) @ [descReq]\<rparr>))"

definition dfuProcessing :: "rnic \<Rightarrow> rnic res" where
  "dfuProcessing s =
     (case txQpAddrRspFifo (qpcModule s) of
        [] \<Rightarrow> Inl (Assert_failed ''txQpAddrRspFifo.size()'')
      | qpcRsp # rest \<Rightarrow>
          let idx = cx_idx qpcRsp
          in ensure (unat idx < length (doorbellVector s)) (Undefined ''doorbellVector index'')
               (case doorbellVector s ! unat idx of
                  None \<Rightarrow> Inl (Assert_failed ''doorbellVector[idx] != nullptr'')
                | Some dbell \<Rightarrow>
                    let s1 = dfu_credit idx (upd_qpcM (\<lambda>m. m\<lparr>txQpAddrRspFifo := rest\<rparr>) s);
                        s2 = upd_eng (\<lambda>e. e\<lparr>df2ddFifo := df2ddFifo e @ [dbell]\<rparr>) s1
                    in ebind (deref_qpc (cx_resc qpcRsp) s2) (\<lambda>qpc.
                       ensure (srcQpn qpc = db_qpn dbell) (Assert_failed ''srcQpn == dbell->qpn'')
                         (Inr (sched_next_if (rest \<noteq> []) DfuEvent (dfu_descReq qpc dbell s2))))))"

section \<open>Descriptor decoding: DDU\<close>

definition qpc_sz :: "TxDesc \<Rightarrow> u32" where
  "qpc_sz d =
     (if tx_opcode d = OPCODE_SEND \<or> tx_opcode d = OPCODE_RDMA_READ then 1
      else if tx_opcode d = OPCODE_RDMA_WRITE
      then (if tx_len d mod PMTU_4KB = 0 then tx_len d div PMTU_4KB else tx_len d div PMTU_4KB + 1)
      else 0)"

definition ddu_runnable :: "rnic \<Rightarrow> bool" where
  "ddu_runnable s \<longleftrightarrow>
     txdescRspFifo s \<noteq> [] \<and>
     (allowNewDb (rdmaEngine s) \<and> df2ddFifo (rdmaEngine s) \<noteq> [] \<or> \<not> allowNewDb (rdmaEngine s))"

definition ddu_doorbell :: "rnic \<Rightarrow> rnic res" where
  "ddu_doorbell s =
     (if \<not> allowNewDb (rdmaEngine s) then Inr s
      else (case df2ddFifo (rdmaEngine s) of
              [] \<Rightarrow> Inl (Assert_failed ''df2ddFifo.size()'')
            | dbell # rest \<Rightarrow>
                ensure (dduDbell (rdmaEngine s) = None) (Assert_failed ''dduDbell == nullptr'')
                  (Inr (upd_eng (\<lambda>e. e\<lparr>dduDbell := Some dbell, df2ddFifo := rest, allowNewDb := False\<rparr>) s))))"

definition ddu_count :: "DoorbellFifo \<Rightarrow> rnic \<Rightarrow> rnic" where
  "ddu_count dbell s =
     (let d1 = dbell\<lparr>db_num := db_num dbell - 1\<rparr>
      in if db_num d1 = 0 then upd_eng (\<lambda>e. e\<lparr>allowNewDb := True, dduDbell := None\<rparr>) s
         else upd_eng (\<lambda>e. e\<lparr>dduDbell := Some d1\<rparr>) s)"

definition ddu_desc :: "u8 \<Rightarrow> DoorbellFifo \<Rightarrow> TxDesc \<Rightarrow> rnic \<Rightarrow> rnic res" where
  "ddu_desc idx dbell txDesc s =
     ensure (unat idx < length (dd2dpVector (rdmaEngine s))) (Undefined ''dd2dpVector index'')
       (ensure (dd2dpVector (rdmaEngine s) ! unat idx = None) (Assert_failed ''dd2dpVector[idx] == nullptr'')
         (let s1 = upd_eng (\<lambda>e. e\<lparr>dd2dpVector := (dd2dpVector e)[unat idx := Some txDesc]\<rparr>) s;
              b = new_QpcResc s1
          in ebind (postQpcReq ((new_CxtReqRsp CXT_RREQ_QP CXT_CHNL_TX (db_qpn dbell) (qpc_sz txDesc) idx)
                                 \<lparr>cx_resc := Some (fst b)\<rparr>) (snd b)) (\<lambda>s2.
             let s3 = ddu_count dbell s2
             in Inr (sched_next_if (dp2ddIdxFifo (rdmaEngine s3) \<noteq> [] \<and> ddu_runnable s3) DduEvent s3))))"

definition dduProcessing :: "rnic \<Rightarrow> rnic res" where
  "dduProcessing s =
     (if dp2ddIdxFifo (rdmaEngine s) = [] then Inr s
      else ebind (ddu_doorbell s) (\<lambda>s1.
        case txdescRspFifo s1 of
          [] \<Rightarrow> Inl (Assert_failed ''txdescRspFifo.size()'')
        | txDesc # descs \<Rightarrow>
            (case (dduDbell (rdmaEngine s1), dp2ddIdxFifo (rdmaEngine s1)) of
               (Some dbell, idx # idxs) \<Rightarrow>
                 ddu_desc idx dbell txDesc
                   (upd_eng (\<lambda>e. e\<lparr>dp2ddIdxFifo := idxs\<rparr>) (s1\<lparr>txdescRspFifo := descs\<rparr>))
             | _ \<Rightarrow> Inl (Undefined ''null doorbell''))))"

section \<open>Descriptor processing: DPU\<close>

definition getRdmaHeadSize :: "u8 \<Rightarrow> u8 \<Rightarrow> u32 res" where
  "getRdmaHeadSize opcode ty =
     (if opcode = OPCODE_SEND then
        if ty = QP_TYPE_RC then Inr 8 else if ty = QP_TYPE_UD then Inr (8 + 8)
        else Inl (Panicked ''QP type error'')
      else if opcode = OPCODE_RDMA_WRITE \<or> opcode = OPCODE_RDMA_READ then
        ensure (ty = QP_TYPE_RC) (Assert_failed ''qpType == QP_TYPE_RC'') (Inr (8 + 16))
      else Inl (Panicked ''Post wrong descriptor type to send queue''))"

text \<open>A packet without payload, handed to the request generation together with its descriptor.\<close>

definition post_dp2rg :: "nat \<Rightarrow> TxDesc \<Rightarrow> u32 \<Rightarrow> u8 \<Rightarrow> u32 \<Rightarrow> u32 \<Rightarrow> rnic \<Rightarrow> nat \<times> rnic" where
  "post_dp2rg qpc desc hdr pos pldLen psn s =
     (let b = new_packet hdr s;
          dp = \<lparr>dp_qpc = qpc, dp_desc = desc, dp_txPkt = fst b, dp_pktPos = pos, dp_pldLen = pldLen,
                dp_pktPsn = psn\<rparr>
      in (fst b, upd_eng (\<lambda>e. e\<lparr>dp2rgFifo := dp2rgFifo e @ [dp]\<rparr>) (snd b)))"

text \<open>The read of the payload from host memory to behind the headers of the packet.\<close>

definition post_dataRead :: "nat \<Rightarrow> u32 \<Rightarrow> TxDesc \<Rightarrow> u32 \<Rightarrow> rnic \<Rightarrow> rnic" where
  "post_dataRead pkt hdr desc len s =
     (let rreq = (new_MrReqRsp DMA_TYPE_RREQ MR_RCHNL_TX_DATA (tx_lkey desc) len
                   (ucast (tx_lVaddr desc AND 0xFFF)))\<lparr>mr_data := Some (pkt, unat hdr)\<rparr>
      in sched_next TransReqEvent (s\<lparr>dataReqFifo := dataReqFifo s @ [rreq]\<rparr>))"

definition single_packet :: "nat \<Rightarrow> QpcResc \<Rightarrow> TxDesc \<Rightarrow> rnic \<Rightarrow> rnic res" where
  "single_packet qpcp qpc desc s =
     ebind (getRdmaHeadSize (tx_opcode desc) (qpType qpc)) (\<lambda>h.
       let hdr = 12 + h;
           p = post_dp2rg qpcp desc hdr PKT_ONLY (tx_len desc) (sndPsn qpc) s
       in if tx_opcode desc = OPCODE_SEND
          then Inr (post_dataRead (fst p) hdr desc (tx_len desc) (snd p))
          else if tx_opcode desc = OPCODE_RDMA_READ then Inr (sched_next RgrrEvent (snd p))
          else Inl (Panicked ''Post wrong descriptor type to send queue''))"

text \<open>One packet of an RDMA write: header length, position, payload length.\<close>

definition write_seg :: "bool \<Rightarrow> u32 \<Rightarrow> u32 \<times> u8 \<times> u32" where
  "write_seg first rem_len =
     (let isLast = rem_len \<le> PMTU_4KB
      in if first \<and> isLast then (12 + 8 + 16, PKT_ONLY, rem_len)
         else if first \<and> \<not> isLast then (12 + 8 + 16, PKT_FIRST, PMTU_4KB)
         else if \<not> first \<and> \<not> isLast then (12 + 8, PKT_MIDDLE, PMTU_4KB)
         else (12 + 8, PKT_LAST, rem_len))"

definition write_packet :: "nat \<Rightarrow> TxDesc \<Rightarrow> bool \<Rightarrow> u32 \<Rightarrow> u32 \<Rightarrow> rnic \<Rightarrow> rnic" where
  "write_packet qpcp desc first rem_len psn s =
     (let g = write_seg first rem_len;
          p = post_dp2rg qpcp desc (fst g) (fst (snd g)) (snd (snd g)) psn s
      in post_dataRead (fst p) (fst g) desc (snd (snd g)) (snd p))"

subsection \<open>Baseline\<close>

text \<open>The \<^verbatim>\<open>do ... while\<close> loop over the packets of a message.\<close>

function dpu_write_loop :: "nat \<Rightarrow> TxDesc \<Rightarrow> bool \<Rightarrow> u32 \<Rightarrow> u32 \<Rightarrow> rnic \<Rightarrow> rnic" where
  "dpu_write_loop qpcp desc first rem_len psn s =
     (let s1 = write_packet qpcp desc first rem_len psn s;
          rem1 = (if rem_len \<le> PMTU_4KB then 0 else rem_len - PMTU_4KB)
      in if rem1 > 0 then dpu_write_loop qpcp desc False rem1 (psn + 1) s1 else s1)"
  by pat_completeness auto
termination
proof (relation "measure (\<lambda>(_, _, _, r, _, _). unat r)", goal_cases)
  case (2 qpcp desc first rem_len psn s s1 rem1)
  then have "rem_len > PMTU_4KB" "rem1 = rem_len - PMTU_4KB" by (auto split: if_splits)
  then have "unat rem1 < unat rem_len"
    by (simp add: word_less_nat_alt unat_sub_if')
  then show ?case by simp
qed simp

text \<open>What both variants do when they take a descriptor: the entry of the vector is free again.\<close>

definition dpu_take :: "u8 \<Rightarrow> rnic \<Rightarrow> (TxDesc \<times> rnic) res" where
  "dpu_take idx s =
     (case dd2dpVector (rdmaEngine s) ! unat idx of
        None \<Rightarrow> Inl (Assert_failed ''dd2dpVector[idx] != nullptr'')
      | Some desc \<Rightarrow>
          let s1 = upd_eng (\<lambda>e. e\<lparr>dd2dpVector := (dd2dpVector e)[unat idx := None]\<rparr>) s
          in ensure (tx_opcode desc = OPCODE_RDMA_WRITE \<or>
                     (tx_opcode desc = OPCODE_SEND \<or> tx_opcode desc = OPCODE_RDMA_READ) \<and> tx_len desc \<le> 4096)
               (Assert_failed ''opcode and length'')
               (let s2 = upd_eng (\<lambda>e. e\<lparr>dp2ddIdxFifo := dp2ddIdxFifo e @ [idx]\<rparr>) s1
                in Inr (desc, sched_next_if (length (dp2ddIdxFifo (rdmaEngine s2)) = 1 \<and> ddu_runnable s2)
                                DduEvent s2)))"

definition qpType_ok :: "QpcResc \<Rightarrow> bool" where
  "qpType_ok qpc \<longleftrightarrow> qpType qpc = QP_TYPE_RC \<or> qpType qpc = QP_TYPE_UD"

definition dpuProcessing_base :: "rnic \<Rightarrow> rnic res" where
  "dpuProcessing_base s =
     (case txQpcRspFifo (qpcModule s) of
        [] \<Rightarrow> Inl (Assert_failed ''txQpcRspFifo.size()'')
      | dpuQpc # rest \<Rightarrow>
          let s1 = upd_qpcM (\<lambda>m. m\<lparr>txQpcRspFifo := rest\<rparr>) s
          in ebind (deref_qpc (cx_resc dpuQpc) s1) (\<lambda>qpc.
             ensure (qpType_ok qpc) (Assert_failed ''qpType'')
               (ensure (unat (cx_idx dpuQpc) < length (dd2dpVector (rdmaEngine s1))) (Undefined ''dd2dpVector index'')
                 (ebind (dpu_take (cx_idx dpuQpc) s1) (\<lambda>ds.
                  ebind (if tx_opcode (fst ds) = OPCODE_SEND \<or> tx_opcode (fst ds) = OPCODE_RDMA_READ
                         then single_packet (the (cx_resc dpuQpc)) qpc (fst ds) (snd ds)
                         else Inr (dpu_write_loop (the (cx_resc dpuQpc)) (fst ds) True (tx_len (fst ds))
                                     (sndPsn qpc) (snd ds)))
                    (\<lambda>s2. Inr (sched_next_if (txQpcRspFifo (qpcModule s2) \<noteq> []) DpuEvent s2)))))))"

subsection \<open>Optimised\<close>

definition slot_of :: "u32 \<Rightarrow> u8" where
  "slot_of qpn = ucast (drop_bit RESC_LIM_LOG qpn AND 0xFF)"

definition dpu_slot :: "nat \<Rightarrow> CxtReqRsp \<Rightarrow> rnic \<Rightarrow> rnic res" where
  "dpu_slot slot dpuQpc s =
     ebind (deref_qpc (cx_resc dpuQpc) s) (\<lambda>qpc.
     ensure (qpType_ok qpc) (Assert_failed ''qpType'')
       (ensure (unat (cx_idx dpuQpc) < length (dd2dpVector (rdmaEngine s))) (Panicked ''out_of_range'')
         (ebind (dpu_take (cx_idx dpuQpc) s) (\<lambda>ds.
            let ps = \<lparr>ps_dpuQpc = the (cx_resc dpuQpc), ps_desc = fst ds, ps_first = 1,
                      ps_rem_len = tx_len (fst ds), ps_pktPsn = sndPsn qpc\<rparr>;
                s1 = upd_eng (\<lambda>e. e\<lparr>pendingSlotVector := (pendingSlotVector e)[slot := Some ps],
                               slotStatusVector := (slotStatusVector e)[slot := True]\<rparr>) (snd ds)
            in Inr (sched_next SlicingEvent s1)))))"

definition dpuProcessing :: "rnic \<Rightarrow> rnic res" where
  "dpuProcessing s =
     (case txQpcRspFifo (qpcModule s) of
        [] \<Rightarrow> Inl (Assert_failed ''txQpcRspFifo.size()'')
      | dpuQpc # rest \<Rightarrow>
          let slot = unat (slot_of (cx_num dpuQpc))
          in ensure (slot < PENDINGSLOTNUM) (Assert_failed ''slot_addr < PENDINGSLOTNUM'')
               (if slotStatusVector (rdmaEngine s) ! slot then Inr (sched_next DpuEvent s)
                else ebind (dpu_slot slot dpuQpc (upd_qpcM (\<lambda>m. m\<lparr>txQpcRspFifo := rest\<rparr>) s))
                       (\<lambda>s1. Inr (sched_next_if (txQpcRspFifo (qpcModule s1) \<noteq> []) DpuEvent s1))))"

definition clear_slot :: "nat \<Rightarrow> rnic \<Rightarrow> rnic" where
  "clear_slot i s =
     upd_eng (\<lambda>e. e\<lparr>pendingSlotVector := (pendingSlotVector e)[i := None],
                    slotStatusVector := (slotStatusVector e)[i := False]\<rparr>) s"

definition slice_write :: "nat \<Rightarrow> pendingSlot \<Rightarrow> rnic \<Rightarrow> rnic" where
  "slice_write i ps s =
     (let s1 = write_packet (ps_dpuQpc ps) (ps_desc ps) (ps_first ps = 1) (ps_rem_len ps) (ps_pktPsn ps) s
      in if ps_rem_len ps \<le> PMTU_4KB then clear_slot i s1
         else upd_eng (\<lambda>e. e\<lparr>pendingSlotVector := (pendingSlotVector e)[i := Some
                (ps\<lparr>ps_first := 0, ps_pktPsn := ps_pktPsn ps + 1, ps_rem_len := ps_rem_len ps - PMTU_4KB\<rparr>)]\<rparr>) s1)"

definition slice_slot :: "nat \<Rightarrow> rnic \<Rightarrow> rnic res" where
  "slice_slot i s =
     (case pendingSlotVector (rdmaEngine s) ! i of
        None \<Rightarrow> Inl (Assert_failed ''pendingSlotVector.at(slotScheduleIdx) != nullptr'')
      | Some ps \<Rightarrow>
          if tx_opcode (ps_desc ps) = OPCODE_SEND \<or> tx_opcode (ps_desc ps) = OPCODE_RDMA_READ
          then ebind (deref_qpc (Some (ps_dpuQpc ps)) s) (\<lambda>qpc.
               ebind (single_packet (ps_dpuQpc ps) qpc (ps_desc ps) s) (\<lambda>s1. Inr (clear_slot i s1)))
          else if tx_opcode (ps_desc ps) = OPCODE_RDMA_WRITE then Inr (slice_write i ps s)
          else Inl (Panicked ''Post wrong descriptor type to send queue''))"

definition slicingProcessing :: "rnic \<Rightarrow> rnic res" where
  "slicingProcessing s =
     ensure (slotStatusVector (rdmaEngine s) ! 0 \<or> slotStatusVector (rdmaEngine s) ! 1)
       (Assert_failed ''slotStatusVector.at(0) || slotStatusVector.at(1)'')
       (let sel = rr_u8 PENDINGSLOTNUM (\<lambda>i. slotStatusVector (rdmaEngine s) ! i) (slotScheduleIdx (rdmaEngine s))
        in case fst sel of
             None \<Rightarrow> Inr (upd_eng (\<lambda>e. e\<lparr>slotScheduleIdx := snd sel\<rparr>) s)
           | Some i \<Rightarrow>
               ebind (slice_slot i s) (\<lambda>s1.
                 let s2 = upd_eng (\<lambda>e. e\<lparr>slotScheduleIdx := snd sel\<rparr>) s1
                 in Inr (if slotStatusVector (rdmaEngine s2) ! 0 \<or> slotStatusVector (rdmaEngine s2) ! 1
                         then sched_at SlicingEvent (curTick s2 + SLICING_SCHEDULE_CYCLE * clockPeriod s2) s2
                         else s2)))"

section \<open>Packets of a message\<close>

text \<open>The packets a message is cut into: position, payload length, sequence number.\<close>

function segs :: "bool \<Rightarrow> u32 \<Rightarrow> u32 \<Rightarrow> (u8 \<times> u32 \<times> u32) list" where
  "segs first rem_len psn =
     (fst (snd (write_seg first rem_len)), snd (snd (write_seg first rem_len)), psn) #
     (if rem_len \<le> PMTU_4KB then [] else segs False (rem_len - PMTU_4KB) (psn + 1))"
  by pat_completeness auto
termination
  by (relation "measure (\<lambda>(_, r, _). unat r)") (auto simp: word_less_nat_alt word_le_nat_alt unat_sub_if')

declare segs.simps [simp del]

definition dp_seg :: "DP2RG \<Rightarrow> u8 \<times> u32 \<times> u32" where
  "dp_seg dp = (dp_pktPos dp, dp_pldLen dp, dp_pktPsn dp)"

text \<open>The packets handed on for the message of a context, and those that wait in its slot.\<close>

definition sent :: "nat \<Rightarrow> rnic \<Rightarrow> (u8 \<times> u32 \<times> u32) list" where
  "sent q s = map dp_seg (filter (\<lambda>dp. dp_qpc dp = q) (dp2rgFifo (rdmaEngine s)))"

definition slot_segs :: "pendingSlot option \<Rightarrow> (u8 \<times> u32 \<times> u32) list" where
  "slot_segs p = (case p of None \<Rightarrow> [] | Some ps \<Rightarrow> segs (ps_first ps = 1) (ps_rem_len ps) (ps_pktPsn ps))"

definition slot :: "nat \<Rightarrow> rnic \<Rightarrow> pendingSlot option" where
  "slot i s = pendingSlotVector (rdmaEngine s) ! i"

text \<open>The two slots hold writes of different contexts, and the status says which are in use.\<close>

definition slots_ok :: "rnic \<Rightarrow> bool" where
  "slots_ok s \<longleftrightarrow>
     length (pendingSlotVector (rdmaEngine s)) = 2 \<and>
     slotStatusVector (rdmaEngine s) = map (\<lambda>p. p \<noteq> None) (pendingSlotVector (rdmaEngine s)) \<and>
     slotScheduleIdx (rdmaEngine s) < 2 \<and>
     (\<forall>i<2. \<forall>ps. slot i s = Some ps \<longrightarrow> tx_opcode (ps_desc ps) = OPCODE_RDMA_WRITE) \<and>
     (\<forall>a b. slot 0 s = Some a \<longrightarrow> slot 1 s = Some b \<longrightarrow> ps_dpuQpc a \<noteq> ps_dpuQpc b)"

subsection \<open>One packet\<close>

lemma upd_eng_eng [simp]: "rdmaEngine (upd_eng f s) = f (rdmaEngine s)"
  by (simp add: upd_eng_def)

lemma eng_sched [simp]:
  "rdmaEngine (sched_at e t s) = rdmaEngine s" "rdmaEngine (sched_next e s) = rdmaEngine s"
  "rdmaEngine (sched_next_if c e s) = rdmaEngine s"
  by (simp_all add: sched_at_def sched_next_def sched_next_if_def)

lemma eng_new_packet [simp]: "rdmaEngine (snd (new_packet n s)) = rdmaEngine s"
  by (simp add: new_packet_def alloc_def)

lemma eng_write_packet:
  "\<exists>dp. rdmaEngine (write_packet q d first r psn s)
     = (rdmaEngine s)\<lparr>dp2rgFifo := dp2rgFifo (rdmaEngine s) @ [dp]\<rparr> \<and> dp_qpc dp = q \<and> dp_desc dp = d \<and>
       dp_seg dp = (fst (snd (write_seg first r)), snd (snd (write_seg first r)), psn)"
  by (rule exI [of _ "\<lparr>dp_qpc = q, dp_desc = d, dp_txPkt = fst (new_packet (fst (write_seg first r)) s),
       dp_pktPos = fst (snd (write_seg first r)), dp_pldLen = snd (snd (write_seg first r)), dp_pktPsn = psn\<rparr>"])
     (simp add: write_packet_def post_dp2rg_def post_dataRead_def Let_def dp_seg_def)

lemma sent_write_packet:
  "sent q' (write_packet q d first r psn s) =
     sent q' s @ (if q' = q then [(fst (snd (write_seg first r)), snd (snd (write_seg first r)), psn)] else [])"
  using eng_write_packet [of q d first r psn s] by (auto simp: sent_def)

subsection \<open>The baseline\<close>

declare dpu_write_loop.simps [simp del]

lemma sent_dpu_write_loop:
  "sent q' (dpu_write_loop q d first r psn s) = sent q' s @ (if q' = q then segs first r psn else [])"
proof (induction q d first r psn s rule: dpu_write_loop.induct)
  case (1 q d first r psn s)
  have pos: "\<not> r \<le> PMTU_4KB \<Longrightarrow> r - PMTU_4KB > 0"
    by (metis order.refl right_minus_eq word_gt_0)
  show ?case
  proof (cases "r \<le> PMTU_4KB")
    case True
    then show ?thesis
      by (simp add: dpu_write_loop.simps [of q d first] segs.simps [of first] sent_write_packet)
  next
    case False
    with pos have *: "r - PMTU_4KB > 0" by simp
    have "sent q' (dpu_write_loop q d False (r - PMTU_4KB) (psn + 1) (write_packet q d first r psn s))
       = sent q' (write_packet q d first r psn s) @ (if q' = q then segs False (r - PMTU_4KB) (psn + 1) else [])"
      using 1 [OF refl refl] False * by simp
    then show ?thesis
      using False * by (simp add: dpu_write_loop.simps [of q d first] segs.simps [of first r] sent_write_packet Let_def)
  qed
qed

subsection \<open>Slicing\<close>

lemma slots_ok_length: "slots_ok s \<Longrightarrow> length (slotStatusVector (rdmaEngine s)) = 2"
  by (simp add: slots_ok_def)

lemma slots_ok_status:
  "slots_ok s \<Longrightarrow> i < 2 \<Longrightarrow> slotStatusVector (rdmaEngine s) ! i \<longleftrightarrow> slot i s \<noteq> None"
  by (simp add: slots_ok_def slot_def)

text \<open>One slicing event serves the slot the round robin chose and moves one packet of it.\<close>

lemma slice_write_slot:
  assumes "slots_ok s" "i < 2" "slot i s = Some ps"
  shows "slot j (slice_write i ps s) = (if j = i then
           (if ps_rem_len ps \<le> PMTU_4KB then None else
              Some (ps\<lparr>ps_first := 0, ps_pktPsn := ps_pktPsn ps + 1, ps_rem_len := ps_rem_len ps - PMTU_4KB\<rparr>))
         else slot j s)"
    and "dp2rgFifo (rdmaEngine (slice_write i ps s)) = dp2rgFifo (rdmaEngine (write_packet (ps_dpuQpc ps)
           (ps_desc ps) (ps_first ps = 1) (ps_rem_len ps) (ps_pktPsn ps) s))"
    and "slotScheduleIdx (rdmaEngine (slice_write i ps s)) = slotScheduleIdx (rdmaEngine s)"
    and "slots_ok (slice_write i ps s)"
proof -
  obtain dp where dp: "rdmaEngine (write_packet (ps_dpuQpc ps) (ps_desc ps) (ps_first ps = 1) (ps_rem_len ps)
      (ps_pktPsn ps) s) = (rdmaEngine s)\<lparr>dp2rgFifo := dp2rgFifo (rdmaEngine s) @ [dp]\<rparr>"
    using eng_write_packet by blast
  have len: "length (pendingSlotVector (rdmaEngine s)) = 2" using assms by (simp add: slots_ok_def)
  show sl: "slot j (slice_write i ps s) = (if j = i then
           (if ps_rem_len ps \<le> PMTU_4KB then None else
              Some (ps\<lparr>ps_first := 0, ps_pktPsn := ps_pktPsn ps + 1, ps_rem_len := ps_rem_len ps - PMTU_4KB\<rparr>))
         else slot j s)" for j
    using assms(2) len by (simp add: slice_write_def Let_def clear_slot_def dp slot_def)
  show "dp2rgFifo (rdmaEngine (slice_write i ps s)) = dp2rgFifo (rdmaEngine (write_packet (ps_dpuQpc ps)
           (ps_desc ps) (ps_first ps = 1) (ps_rem_len ps) (ps_pktPsn ps) s))"
    by (simp add: slice_write_def Let_def clear_slot_def)
  show "slotScheduleIdx (rdmaEngine (slice_write i ps s)) = slotScheduleIdx (rdmaEngine s)"
    by (simp add: slice_write_def Let_def clear_slot_def dp)
  have st: "slotStatusVector (rdmaEngine (slice_write i ps s))
      = map (\<lambda>p. p \<noteq> None) (pendingSlotVector (rdmaEngine (slice_write i ps s)))"
    using assms len
    by (intro nth_equalityI)
       (auto simp: slice_write_def Let_def clear_slot_def dp slots_ok_def slot_def nth_list_update)
  have op: "tx_opcode (ps_desc ps) = OPCODE_RDMA_WRITE" using assms by (auto simp: slots_ok_def)
  have "\<forall>k<2. \<forall>p. slot k (slice_write i ps s) = Some p \<longrightarrow> tx_opcode (ps_desc p) = OPCODE_RDMA_WRITE"
    using assms(1) op by (auto simp: sl slots_ok_def split: if_splits)
  moreover have "ps_dpuQpc a \<noteq> ps_dpuQpc b"
    if "slot 0 (slice_write i ps s) = Some a" "slot 1 (slice_write i ps s) = Some b" for a b
  proof -
    have "\<exists>a'. slot 0 s = Some a' \<and> ps_dpuQpc a' = ps_dpuQpc a"
      using that(1) assms(3) by (auto simp: sl split: if_splits)
    moreover have "\<exists>b'. slot 1 s = Some b' \<and> ps_dpuQpc b' = ps_dpuQpc b"
      using that(2) assms(3) by (auto simp: sl split: if_splits)
    ultimately show ?thesis using assms(1) unfolding slots_ok_def by metis
  qed
  moreover have "length (pendingSlotVector (rdmaEngine (slice_write i ps s))) = 2"
    "slotScheduleIdx (rdmaEngine (slice_write i ps s)) < 2"
    using assms(1) by (simp_all add: slice_write_def Let_def clear_slot_def dp slots_ok_def)
  ultimately show "slots_ok (slice_write i ps s)" using st by (simp add: slots_ok_def)
qed


lemma u8_less_2: "idx < (2 :: u8) \<Longrightarrow> idx = 0 \<or> idx = 1"
proof -
  assume "idx < 2"
  then have "unat idx = 0 \<or> unat idx = 1" by (simp add: word_less_nat_alt less_2_cases_iff)
  then have "(of_nat (unat idx) :: u8) = 0 \<or> (of_nat (unat idx) :: u8) = 1" by (elim disjE) simp_all
  then show ?thesis by simp
qed

lemma rr_u8_two:
  assumes "idx < 2" "ne 0 \<or> ne 1"
  shows "\<exists>i<2. ne i \<and> (ne (unat idx) \<longrightarrow> i = unat idx) \<and> rr_u8 2 ne idx = (Some i, of_nat (1 - i))"
proof -
  have ev: "rr_u8 2 ne 0 = (if ne 0 then (Some 0, 1) else if ne 1 then (Some 1, 0) else (None, 0))"
    "rr_u8 2 ne 1 = (if ne 1 then (Some 1, 0) else if ne 0 then (Some 0, 1) else (None, 1))"
    by (simp_all add: rr_u8_def rr_select_def numeral_2_eq_2)
  consider "idx = 0" "ne 0" | "idx = 0" "\<not> ne 0" "ne 1" | "idx = 1" "ne 1" | "idx = 1" "\<not> ne 1" "ne 0"
    using u8_less_2 [OF assms(1)] assms(2) by auto
  then show ?thesis
  proof cases
    case 1 then show ?thesis using ev by (intro exI [of _ 0]) simp
  next
    case 2 then show ?thesis using ev by (intro exI [of _ 1]) simp
  next
    case 3 then show ?thesis using ev by (intro exI [of _ 1]) simp
  next
    case 4 then show ?thesis using ev by (intro exI [of _ 0]) simp
  qed
qed

lemma slicing_eq:
  assumes "slots_ok s" "slot 0 s \<noteq> None \<or> slot 1 s \<noteq> None"
  obtains i ps s' where "i < 2" "slot i s = Some ps"
    "slot (unat (slotScheduleIdx (rdmaEngine s))) s \<noteq> None \<longrightarrow> i = unat (slotScheduleIdx (rdmaEngine s))"
    "slicingProcessing s = Inr s'"
    "rdmaEngine s' = (rdmaEngine (slice_write i ps s))\<lparr>slotScheduleIdx := of_nat (1 - i)\<rparr>"
proof -
  let ?ne = "\<lambda>i. slotStatusVector (rdmaEngine s) ! i"
  have idx: "slotScheduleIdx (rdmaEngine s) < 2" using assms(1) by (simp add: slots_ok_def)
  have act: "?ne 0 \<or> ?ne 1" using assms slots_ok_status [OF assms(1)] by simp
  obtain i where i: "i < 2" "?ne i" "?ne (unat (slotScheduleIdx (rdmaEngine s))) \<longrightarrow>
      i = unat (slotScheduleIdx (rdmaEngine s))"
      "rr_u8 2 ?ne (slotScheduleIdx (rdmaEngine s)) = (Some i, of_nat (1 - i))"
    using rr_u8_two [OF idx act] by blast
  obtain ps where ps: "slot i s = Some ps" using i(1,2) slots_ok_status [OF assms(1)] by auto
  have op: "tx_opcode (ps_desc ps) = OPCODE_RDMA_WRITE" using assms(1) i(1) ps by (auto simp: slots_ok_def)
  have sl: "slice_slot i s = Inr (slice_write i ps s)"
    using ps op by (simp add: slice_slot_def slot_def)
  have "unat (slotScheduleIdx (rdmaEngine s)) < 2" using idx by (simp add: word_less_nat_alt)
  then have "slot (unat (slotScheduleIdx (rdmaEngine s))) s \<noteq> None \<longrightarrow> i = unat (slotScheduleIdx (rdmaEngine s))"
    using i(3) slots_ok_status [OF assms(1)] by simp
  moreover have "\<exists>s'. slicingProcessing s = Inr s' \<and>
      rdmaEngine s' = (rdmaEngine (slice_write i ps s))\<lparr>slotScheduleIdx := of_nat (1 - i)\<rparr>"
    using act i(4) sl by (simp add: slicingProcessing_def Let_def)
  ultimately show thesis using that i(1) ps by blast
qed


text \<open>Whatever slot is served, sent and pending packets of a context together stay the same.\<close>

definition pend :: "nat \<Rightarrow> rnic \<Rightarrow> nat \<Rightarrow> (u8 \<times> u32 \<times> u32) list" where
  "pend q s i = (case slot i s of None \<Rightarrow> [] | Some ps \<Rightarrow> if ps_dpuQpc ps = q then slot_segs (Some ps) else [])"

definition backlog :: "rnic \<Rightarrow> nat" where
  "backlog s = length (slot_segs (slot 0 s)) + length (slot_segs (slot 1 s))"

lemma slot_segs_None [simp]: "slot_segs None = []"
  by (simp add: slot_segs_def)

lemma slot_segs_Some:
  "slot_segs (Some ps) =
     (fst (snd (write_seg (ps_first ps = 1) (ps_rem_len ps))), snd (snd (write_seg (ps_first ps = 1) (ps_rem_len ps))),
      ps_pktPsn ps) #
     slot_segs (if ps_rem_len ps \<le> PMTU_4KB then None else
        Some (ps\<lparr>ps_first := 0, ps_pktPsn := ps_pktPsn ps + 1, ps_rem_len := ps_rem_len ps - PMTU_4KB\<rparr>))"
  by (simp add: slot_segs_def segs.simps [of "ps_first ps = 1"])

abbreviation next_slot :: "pendingSlot \<Rightarrow> pendingSlot option" where
  "next_slot ps \<equiv> if ps_rem_len ps \<le> PMTU_4KB then None else
     Some (ps\<lparr>ps_first := 0, ps_pktPsn := ps_pktPsn ps + 1, ps_rem_len := ps_rem_len ps - PMTU_4KB\<rparr>)"

lemma slicing_served:
  assumes ok: "slots_ok s" and act: "slot 0 s \<noteq> None \<or> slot 1 s \<noteq> None"
  obtains i ps s' where "i < 2" "slot i s = Some ps" "slicingProcessing s = Inr s'" "slots_ok s'"
    "slot (unat (slotScheduleIdx (rdmaEngine s))) s \<noteq> None \<longrightarrow> i = unat (slotScheduleIdx (rdmaEngine s))"
    "slotScheduleIdx (rdmaEngine s') = of_nat (1 - i)"
    "\<forall>j. slot j s' = (if j = i then next_slot ps else slot j s)"
    "\<forall>q. sent q s' = sent q s @ (if q = ps_dpuQpc ps then [hd (slot_segs (Some ps))] else [])"
proof -
  obtain i ps s' where i: "i < 2" "slot i s = Some ps"
      "slot (unat (slotScheduleIdx (rdmaEngine s))) s \<noteq> None \<longrightarrow> i = unat (slotScheduleIdx (rdmaEngine s))"
      "slicingProcessing s = Inr s'"
      "rdmaEngine s' = (rdmaEngine (slice_write i ps s))\<lparr>slotScheduleIdx := of_nat (1 - i)\<rparr>"
    using slicing_eq [OF ok act] by metis
  note w = slice_write_slot [OF ok i(1,2)]
  have "slot j s' = (if j = i then next_slot ps else slot j s)" for j
    using w(1) [of j] i(5) by (simp add: slot_def)
  moreover have "sent q s' = sent q s @ (if q = ps_dpuQpc ps then [hd (slot_segs (Some ps))] else [])" for q
    using w(2) i(5) sent_write_packet [of q "ps_dpuQpc ps" "ps_desc ps" "ps_first ps = 1" "ps_rem_len ps" "ps_pktPsn ps" s]
    by (simp add: sent_def slot_segs_Some [of ps])
  moreover have "slots_ok s'"
    using w(4) i(5) less_2_cases [OF i(1)] by (auto simp: slots_ok_def slot_def)
  ultimately show thesis using that i by simp
qed

lemma slicing_step:
  assumes ok: "slots_ok s" and act: "slot 0 s \<noteq> None \<or> slot 1 s \<noteq> None"
  obtains s' where "slicingProcessing s = Inr s'" "slots_ok s'" "backlog s = Suc (backlog s')"
    "\<forall>q. sent q s' @ pend q s' 0 @ pend q s' 1 = sent q s @ pend q s 0 @ pend q s 1"
proof -
  obtain i ps s' where i: "i < 2" "slot i s = Some ps" "slicingProcessing s = Inr s'" "slots_ok s'"
      "slot (unat (slotScheduleIdx (rdmaEngine s))) s \<noteq> None \<longrightarrow> i = unat (slotScheduleIdx (rdmaEngine s))"
      "slotScheduleIdx (rdmaEngine s') = of_nat (1 - i)"
      and sl: "\<forall>j. slot j s' = (if j = i then next_slot ps else slot j s)"
      and snt: "\<forall>q. sent q s' = sent q s @ (if q = ps_dpuQpc ps then [hd (slot_segs (Some ps))] else [])"
    by (rule slicing_served [OF ok act])
  have pnd: "pend q s' j = (if j = i \<and> q = ps_dpuQpc ps then tl (slot_segs (Some ps)) else pend q s j)" for q j
    by (simp add: pend_def sl i(2) slot_segs_Some [of ps])
  have other: "pend (ps_dpuQpc ps) s (1 - i) = []"
    using ok i(1,2) less_2_cases [OF i(1)] by (auto simp: slots_ok_def pend_def split: option.splits)
  have here: "pend (ps_dpuQpc ps) s i = slot_segs (Some ps)" by (simp add: pend_def i(2))
  have ne: "slot_segs (Some ps) = hd (slot_segs (Some ps)) # tl (slot_segs (Some ps))"
    by (simp add: slot_segs_Some [of ps])
  have sum: "sent q s' @ pend q s' 0 @ pend q s' 1 = sent q s @ pend q s 0 @ pend q s 1" for q
  proof (cases "q = ps_dpuQpc ps")
    case True
    then show ?thesis using less_2_cases [OF i(1)] other here ne by (auto simp: snt pnd)
  next
    case False
    then show ?thesis by (simp add: snt pnd)
  qed
  have "slot_segs (slot i s) = hd (slot_segs (Some ps)) # slot_segs (slot i s')"
    using slot_segs_Some [of ps] by (simp add: sl i(2))
  then have "backlog s = Suc (backlog s')"
    using less_2_cases [OF i(1)] by (auto simp: backlog_def sl)
  then show thesis using that i(3,4) sum by blast
qed

text \<open>Slicing until no slot is in use.\<close>

primrec slice_iter :: "nat \<Rightarrow> rnic \<Rightarrow> rnic res" where
  "slice_iter 0 s = Inr s"
| "slice_iter (Suc n) s =
     (if slotStatusVector (rdmaEngine s) ! 0 \<or> slotStatusVector (rdmaEngine s) ! 1
      then ebind (slicingProcessing s) (slice_iter n) else Inr s)"

lemma slice_iter_drains:
  "slots_ok s \<Longrightarrow> backlog s \<le> n \<Longrightarrow>
   \<exists>s'. slice_iter n s = Inr s' \<and> slot 0 s' = None \<and> slot 1 s' = None \<and>
     (\<forall>q. sent q s' = sent q s @ pend q s 0 @ pend q s 1)"
proof (induction n arbitrary: s)
  case 0
  then have "slot 0 s = None" "slot 1 s = None"
    by (cases "slot 0 s"; cases "slot 1 s"; simp add: backlog_def slot_segs_Some)+
  then show ?case by (simp add: pend_def)
next
  case (Suc n)
  show ?case
  proof (cases "slot 0 s \<noteq> None \<or> slot 1 s \<noteq> None")
    case True
    then obtain s1 where s1: "slicingProcessing s = Inr s1" "slots_ok s1" "backlog s = Suc (backlog s1)"
        "\<forall>q. sent q s1 @ pend q s1 0 @ pend q s1 1 = sent q s @ pend q s 0 @ pend q s 1"
      by (rule slicing_step [OF Suc.prems(1)])
    with Suc.IH [OF s1(2)] Suc.prems(2) True slots_ok_status [OF Suc.prems(1)] show ?thesis
      by (simp add: ebind_def)
  next
    case False
    then show ?thesis using slots_ok_status [OF Suc.prems(1)] by (simp add: pend_def)
  qed
qed


subsection \<open>Number, lengths, sequence numbers and positions\<close>

definition seg_pos :: "bool \<Rightarrow> nat \<Rightarrow> nat \<Rightarrow> u8" where
  "seg_pos first n k =
     (if k = 0 \<and> first then (if n = 1 then PKT_ONLY else PKT_FIRST)
      else if k + 1 = n then PKT_LAST else PKT_MIDDLE)"

lemma unat_sub_pmtu: "\<not> r \<le> PMTU_4KB \<Longrightarrow> unat (r - PMTU_4KB) = unat r - 4096 \<and> 4096 < unat r"
  by (simp add: word_le_nat_alt unat_sub_if')

lemma segs_length: "r \<noteq> 0 \<Longrightarrow> length (segs first r psn) = (unat r + 4095) div 4096"
proof (induction first r psn rule: segs.induct)
  case (1 first r psn)
  show ?case
  proof (cases "r \<le> PMTU_4KB")
    case True
    then have "unat r \<le> 4096" "0 < unat r" using 1(2) by (simp_all add: word_le_nat_alt unat_gt_0)
    then have "(unat r + 4095) div 4096 = 1" by (intro div_nat_eqI) simp_all
    then show ?thesis using True by (simp add: segs.simps [of first])
  next
    case False
    then have r: "unat (r - PMTU_4KB) = unat r - 4096" "4096 < unat r" using unat_sub_pmtu by blast+
    then have "r - PMTU_4KB \<noteq> 0" by (metis less_irrefl unsigned_0 zero_less_diff)
    with 1(1) False have "length (segs False (r - PMTU_4KB) (psn + 1)) = (unat r - 4096 + 4095) div 4096"
      using r by simp
    moreover have "(unat r + 4095) div 4096 = Suc ((unat r - 4096 + 4095) div 4096)"
      using r(2) by (simp add: le_div_geq)
    ultimately show ?thesis using False by (simp add: segs.simps [of first r])
  qed
qed

lemma segs_sum: "r \<noteq> 0 \<Longrightarrow> sum_list (map (\<lambda>g. unat (fst (snd g))) (segs first r psn)) = unat r"
proof (induction first r psn rule: segs.induct)
  case (1 first r psn)
  show ?case
  proof (cases "r \<le> PMTU_4KB")
    case True
    then show ?thesis by (simp add: segs.simps [of first] write_seg_def)
  next
    case False
    then have r: "unat (r - PMTU_4KB) = unat r - 4096" "4096 < unat r" using unat_sub_pmtu by blast+
    then have "r - PMTU_4KB \<noteq> 0" by (metis less_irrefl unsigned_0 zero_less_diff)
    with 1(1) False r show ?thesis by (simp add: segs.simps [of first r] write_seg_def)
  qed
qed

lemma segs_nth:
  "r \<noteq> 0 \<Longrightarrow> k < length (segs first r psn) \<Longrightarrow>
   fst (segs first r psn ! k) = seg_pos first (length (segs first r psn)) k \<and>
   fst (snd (segs first r psn ! k)) \<le> PMTU_4KB \<and> snd (snd (segs first r psn ! k)) = psn + of_nat k"
proof (induction first r psn arbitrary: k rule: segs.induct)
  case (1 first r psn)
  show ?case
  proof (cases "r \<le> PMTU_4KB")
    case True
    then show ?thesis using 1(3) by (simp add: segs.simps [of first] write_seg_def seg_pos_def)
  next
    case False
    then have "unat (r - PMTU_4KB) = unat r - 4096" "4096 < unat r" using unat_sub_pmtu by blast+
    then have nz: "r - PMTU_4KB \<noteq> 0" by (metis less_irrefl unsigned_0 zero_less_diff)
    let ?t = "segs False (r - PMTU_4KB) (psn + 1)"
    have eq: "segs first r psn = (if first then PKT_FIRST else PKT_MIDDLE, PMTU_4KB, psn) # ?t"
      using False by (simp add: segs.simps [of first r] write_seg_def)
    have tne: "0 < length ?t" by (simp add: segs.simps [of False])
    show ?thesis
    proof (cases k)
      case 0
      then show ?thesis using tne by (simp add: eq seg_pos_def)
    next
      case (Suc j)
      then have "j < length ?t" using 1(3) eq by simp
      with 1(1) [OF False nz] have "fst (?t ! j) = seg_pos False (length ?t) j"
        "fst (snd (?t ! j)) \<le> PMTU_4KB" "snd (snd (?t ! j)) = psn + 1 + of_nat j" by auto
      then show ?thesis using Suc by (simp add: eq seg_pos_def algebra_simps)
    qed
  qed
qed

lemma qpc_sz_write:
  assumes "tx_opcode d = OPCODE_RDMA_WRITE" "tx_len d \<noteq> 0"
  shows "unat (qpc_sz d) = (unat (tx_len d) + 4095) div 4096"
proof -
  let ?n = "unat (tx_len d)"
  have lt: "?n < 2 ^ 32" using unsigned_less [of "tx_len d", where ?'a = nat] by simp
  have m: "tx_len d mod PMTU_4KB = 0 \<longleftrightarrow> ?n mod 4096 = 0"
    by (simp add: word_unat_eq_iff unat_mod)
  have q: "unat (tx_len d div PMTU_4KB) = ?n div 4096"
    using unat_div [of "tx_len d" PMTU_4KB] by simp
  have q1: "unat (tx_len d div PMTU_4KB + 1) = ?n div 4096 + 1"
    using q lt by (simp add: unat_word_ariths)
  show ?thesis
  proof (cases "?n mod 4096 = 0")
    case True
    then show ?thesis using m q assms(1) by (simp add: qpc_sz_def div_add1_eq [of ?n 4095])
  next
    case False
    then have "1 \<le> ?n mod 4096" by simp
    then have "(?n mod 4096 + 4095) div 4096 = 1" by (intro div_nat_eqI) simp_all
    then show ?thesis using False m q1 assms(1) by (simp add: qpc_sz_def div_add1_eq [of ?n 4095])
  qed
qed


section \<open>Properties\<close>

text \<open>
  C4. Slicing sends what the baseline sends: from a state in which the slots hold RDMA writes, the
  slicing events empty the slots after at most as many events as packets are pending, and the packets
  handed on for the message in a slot are those the baseline loop makes of the whole message, in the
  same order, however the two messages interleave.
\<close>

theorem slicing_equals_baseline:
  assumes "slots_ok s" and "i < 2" and "slot i s = Some ps" and "ps_first ps = 1" and "backlog s \<le> n"
  shows "\<exists>s'. slice_iter n s = Inr s' \<and> slot 0 s' = None \<and> slot 1 s' = None \<and>
    sent (ps_dpuQpc ps) s' =
      sent (ps_dpuQpc ps) (dpu_write_loop (ps_dpuQpc ps) (ps_desc ps) True (ps_rem_len ps) (ps_pktPsn ps) s)"
proof -
  have "pend (ps_dpuQpc ps) s 0 @ pend (ps_dpuQpc ps) s 1 = slot_segs (Some ps)"
    using assms(1,3) less_2_cases [OF assms(2)] by (auto simp: pend_def slots_ok_def split: option.splits)
  then show ?thesis
    using slice_iter_drains [OF assms(1,5)] assms(4)
    by (auto simp: sent_dpu_write_loop slot_segs_def)
qed

text \<open>Two messages in the slots, of three packets and of one.\<close>

definition two_slots :: rnic where
  "two_slots = upd_eng (\<lambda>e. e\<lparr>slotStatusVector := [True, True], pendingSlotVector :=
     [Some \<lparr>ps_dpuQpc = 7, ps_desc = \<lparr>tx_len = 9000, tx_lkey = 1, tx_lVaddr = 64, tx_w0 = 2, tx_w1 = 0,
              tx_w2 = 0, tx_flags = 3\<rparr>, ps_first = 1, ps_rem_len = 9000, ps_pktPsn = 5\<rparr>,
      Some \<lparr>ps_dpuQpc = 8, ps_desc = \<lparr>tx_len = 64, tx_lkey = 1, tx_lVaddr = 64, tx_w0 = 2, tx_w1 = 0,
              tx_w2 = 0, tx_flags = 3\<rparr>, ps_first = 1, ps_rem_len = 64, ps_pktPsn = 0\<rparr>]\<rparr>) dev0"

lemma dev0_eng: "rdmaEngine dev0 = new_RdmaEngine 2"
  by (simp add: dev0_def new_HanGuRnic_def Let_def)

lemma two_slots_ok: "slots_ok two_slots"
  by (auto simp: two_slots_def slots_ok_def slot_def dev0_eng new_RdmaEngine_def less_2_cases_iff
      tx_opcode_def)

lemma two_slots_backlog: "backlog two_slots = 4"
  by (simp add: two_slots_def slot_def backlog_def slot_segs_def segs.simps)

lemma slicing_equals_baseline_witness:
  "\<exists>s'. slice_iter 4 two_slots = Inr s' \<and> slot 0 s' = None \<and> slot 1 s' = None \<and>
     sent 7 s' = sent 7 (dpu_write_loop 7 \<lparr>tx_len = 9000, tx_lkey = 1, tx_lVaddr = 64, tx_w0 = 2, tx_w1 = 0,
              tx_w2 = 0, tx_flags = 3\<rparr> True 9000 5 two_slots)"
  using slicing_equals_baseline [OF two_slots_ok, of 0 _ 4] two_slots_backlog
  by (simp add: two_slots_def slot_def)

text \<open>
  C9. No starvation between the two slots: a message with packets left gets its next packet with the
  next slicing event or, if that one serves the other slot, with the one after it.
\<close>

theorem slicing_serves_within_two:
  assumes "slots_ok s" and "j < 2" and "slot j s = Some pj"
  shows "\<exists>s1. slicingProcessing s = Inr s1 \<and>
    (sent (ps_dpuQpc pj) s1 = sent (ps_dpuQpc pj) s @ [hd (slot_segs (Some pj))] \<or>
     (slot j s1 = Some pj \<and> sent (ps_dpuQpc pj) s1 = sent (ps_dpuQpc pj) s \<and>
      (\<exists>s2. slicingProcessing s1 = Inr s2 \<and>
         sent (ps_dpuQpc pj) s2 = sent (ps_dpuQpc pj) s @ [hd (slot_segs (Some pj))])))"
proof -
  have act: "slot 0 s \<noteq> None \<or> slot 1 s \<noteq> None" using assms(3) less_2_cases [OF assms(2)] by auto
  obtain i ps s1 where i: "i < 2" "slot i s = Some ps" "slicingProcessing s = Inr s1" "slots_ok s1"
      "slot (unat (slotScheduleIdx (rdmaEngine s))) s \<noteq> None \<longrightarrow> i = unat (slotScheduleIdx (rdmaEngine s))"
      "slotScheduleIdx (rdmaEngine s1) = of_nat (1 - i)"
      and sl: "\<forall>k. slot k s1 = (if k = i then next_slot ps else slot k s)"
      and snt: "\<forall>q. sent q s1 = sent q s @ (if q = ps_dpuQpc ps then [hd (slot_segs (Some ps))] else [])"
    by (rule slicing_served [OF assms(1) act])
  show ?thesis
  proof (cases "i = j")
    case True
    then show ?thesis using i assms(3) snt by auto
  next
    case False
    then have j: "slot j s1 = Some pj" "1 - i = j" using sl assms(3) i(1) assms(2) by auto
    then have act1: "slot 0 s1 \<noteq> None \<or> slot 1 s1 \<noteq> None" using less_2_cases [OF assms(2)] by auto
    have ix: "unat (slotScheduleIdx (rdmaEngine s1)) = j"
      using i(6) j(2) less_2_cases [OF assms(2)] by auto
    obtain i2 ps2 s2 where i2: "i2 < 2" "slot i2 s1 = Some ps2" "slicingProcessing s1 = Inr s2" "slots_ok s2"
        "slot (unat (slotScheduleIdx (rdmaEngine s1))) s1 \<noteq> None \<longrightarrow> i2 = unat (slotScheduleIdx (rdmaEngine s1))"
        "slotScheduleIdx (rdmaEngine s2) = of_nat (1 - i2)"
        "\<forall>k. slot k s2 = (if k = i2 then next_slot ps2 else slot k s1)"
        and snt2: "\<forall>q. sent q s2 = sent q s1 @ (if q = ps_dpuQpc ps2 then [hd (slot_segs (Some ps2))] else [])"
      by (rule slicing_served [OF i(4) act1])
    have "ps2 = pj" using i2(2,5) ix j(1) by simp
    moreover have "ps_dpuQpc pj \<noteq> ps_dpuQpc ps"
      using assms i(1,2) False less_2_cases [OF assms(2)] less_2_cases [OF i(1)]
      by (auto simp: slots_ok_def)
    ultimately show ?thesis using i(3) j(1) i2(3) snt snt2 by auto
  qed
qed

lemma slicing_serves_within_two_witness:
  "\<exists>s1. slicingProcessing two_slots = Inr s1 \<and>
    (sent 8 s1 = sent 8 two_slots @ [(PKT_ONLY, 64, 0)] \<or>
     (sent 8 s1 = sent 8 two_slots \<and>
      (\<exists>s2. slicingProcessing s1 = Inr s2 \<and> sent 8 s2 = sent 8 two_slots @ [(PKT_ONLY, 64, 0)])))"
  using slicing_serves_within_two [OF two_slots_ok, of 1]
  by (auto simp: two_slots_def slot_def slot_segs_def segs.simps write_seg_def)

text \<open>
  C17. The packets of an RDMA write: as many as sequence numbers were reserved for it when its context
  was read, numbered consecutively, none above the maximum payload, together the length of the
  message, and marked as only, first, middle and last.
\<close>

theorem dpu_write_packets:
  assumes "tx_opcode d = OPCODE_RDMA_WRITE" and "tx_len d \<noteq> 0" and "sent q s = []"
    and "gs = sent q (dpu_write_loop q d True (tx_len d) psn s)"
  shows "length gs = unat (qpc_sz d) \<and> sum_list (map (\<lambda>g. unat (fst (snd g))) gs) = unat (tx_len d) \<and>
    (\<forall>k<length gs. fst (gs ! k) = seg_pos True (length gs) k \<and> fst (snd (gs ! k)) \<le> PMTU_4KB \<and>
       snd (snd (gs ! k)) = psn + of_nat k)"
proof -
  have gs: "gs = segs True (tx_len d) psn" using assms(3,4) by (simp add: sent_dpu_write_loop)
  show ?thesis
    using segs_length [OF assms(2)] segs_sum [OF assms(2)] segs_nth [OF assms(2)] qpc_sz_write [OF assms(1,2)]
    by (simp add: gs)
qed

lemma dpu_write_packets_witness:
  "length (sent 7 (dpu_write_loop 7 \<lparr>tx_len = 9000, tx_lkey = 1, tx_lVaddr = 64, tx_w0 = 2, tx_w1 = 0,
              tx_w2 = 0, tx_flags = 3\<rparr> True 9000 5 dev0)) = 3"
  using dpu_write_packets [of "\<lparr>tx_len = 9000, tx_lkey = 1, tx_lVaddr = 64, tx_w0 = 2, tx_w1 = 0,
              tx_w2 = 0, tx_flags = 3\<rparr>" 7 dev0 _ 5, OF _ _ _ refl]
  by (simp add: tx_opcode_def sent_def dev0_eng new_RdmaEngine_def qpc_sz_def)

end
