(* ===== verification/EngineWin.thy ===== *)
theory EngineWin
  imports EngineTx
begin

text \<open>
  Request generation and response reception of \<^verbatim>\<open>RdmaEngine\<close>: the headers of a packet, the send
  window of the packets that wait for an acknowledgement, the completions they lead to (SCU), and
  the send arbiter (SAU).
\<close>

section \<open>Headers\<close>

definition setMacAddr :: "u64 \<Rightarrow> u8 list" where
  "setMacAddr src = map (\<lambda>i. ucast (drop_bit (8 * (5 - i)) src)) [0..<ETH_ADDR_LEN]"

definition bthOp :: "u8 \<Rightarrow> u8 \<Rightarrow> u32" where
  "bthOp ty tr = push_bit 24 (push_bit 5 (ucast ty) OR ucast tr)"

definition mk_bth :: "u8 \<Rightarrow> u8 \<Rightarrow> u32 \<Rightarrow> bool \<Rightarrow> u32 \<Rightarrow> BTH" where
  "mk_bth ty tr qpn needAck psn =
     \<lparr>op_destQpn = bthOp ty tr OR qpn, needAck_psn = (if needAck then push_bit 24 1 else 0) OR psn\<rparr>"

definition desc_reth :: "TxDesc \<Rightarrow> RETH" where
  "desc_reth desc =
     \<lparr>reth_rVaddr_l = tx_rVaddr_l desc, reth_rVaddr_h = tx_rVaddr_h desc, reth_rKey = tx_rkey desc,
      reth_len = tx_len desc\<rparr>"

text \<open>The headers behind the MAC addresses, and whether the packet asks for an acknowledgement.\<close>

definition rgu_headers :: "TxDesc \<Rightarrow> QpcResc \<Rightarrow> u8 \<Rightarrow> u32 \<Rightarrow> (u8 list \<times> bool) res" where
  "rgu_headers desc qpc pos psn =
     (if tx_opcode desc = OPCODE_SEND \<and> qpType qpc = QP_TYPE_RC
      then Inr (enc_BTH (mk_bth (qpType qpc) PKT_TRANS_SEND_ONLY (destQpn qpc) True (sndPsn qpc)), True)
      else if tx_opcode desc = OPCODE_SEND \<and> qpType qpc = QP_TYPE_UD
      then Inr (enc_BTH (mk_bth (qpType qpc) PKT_TRANS_SEND_ONLY (tx_destQpn desc) False (sndPsn qpc))
             @ enc_DETH \<lparr>deth_qKey = tx_qkey desc, deth_srcQpn = srcQpn qpc\<rparr>, False)
      else if qpType qpc = QP_TYPE_RC \<and> tx_opcode desc = OPCODE_RDMA_WRITE
      then (if pos = PKT_FIRST
            then Inr (enc_BTH (mk_bth (qpType qpc) PKT_TRANS_RWRITE_FIRST (destQpn qpc) False psn)
                   @ enc_RETH (desc_reth desc), False)
            else if pos = PKT_ONLY
            then Inr (enc_BTH (mk_bth (qpType qpc) PKT_TRANS_RWRITE_ONLY (destQpn qpc) True psn)
                   @ enc_RETH (desc_reth desc), True)
            else if pos = PKT_MIDDLE
            then Inr (enc_BTH (mk_bth (qpType qpc) PKT_TRANS_RWRITE_MIDDLE (destQpn qpc) False psn), False)
            else if pos = PKT_LAST
            then Inr (enc_BTH (mk_bth (qpType qpc) PKT_TRANS_RWRITE_LAST (destQpn qpc) True psn), True)
            else Inr ([], True))
      else if qpType qpc = QP_TYPE_RC \<and> tx_opcode desc = OPCODE_RDMA_READ
      then Inr (enc_BTH (mk_bth (qpType qpc) PKT_TRANS_RREAD_ONLY (destQpn qpc) True (sndPsn qpc))
             @ enc_RETH (desc_reth desc), True)
      else Inl (Panicked ''Unsupported opcode and QP type combination''))"

definition rgu_fill :: "TxDesc \<Rightarrow> QpcResc \<Rightarrow> u8 list \<Rightarrow> u32 \<Rightarrow> EthPacket \<Rightarrow> EthPacket" where
  "rgu_fill desc qpc hdrs pldLen k =
     (let dmac = (if qpType qpc = QP_TYPE_RC then ucast (dLid qpc) else ucast (tx_dlid desc));
          k1 = pkt_put 6 (setMacAddr (ucast (lLid qpc))) (pkt_put 0 (setMacAddr dmac) (pkt_put 12 hdrs k))
      in k1\<lparr>pk_length := pk_length k1 + pldLen, pk_simLength := pk_simLength k1 + pldLen\<rparr>)"

section \<open>Completions of the send queue\<close>

definition postTxCpl :: "u8 \<Rightarrow> u32 \<Rightarrow> u32 \<Rightarrow> TxDesc \<Rightarrow> rnic \<Rightarrow> rnic res" where
  "postTxCpl ty qpn cqn desc s =
     (if \<not> isSignaled desc then Inr s
      else
        let cqDesc = \<lparr>cq_srvType = ty, cq_transType = tx_opcode desc, cq_nop0 = 0, cq_nop1 = 0,
                      cq_byteCnt = tx_len desc, cq_qpn = qpn, cq_cqn = cqn\<rparr>;
            b = new_CqcResc (upd_eng (\<lambda>e. e\<lparr>rg2scFifo := rg2scFifo e @ [cqDesc]\<rparr>) s)
        in postCqcReq ((new_CxtReqRsp CXT_RREQ_CQ CXT_CHNL_TX cqn 1 0)\<lparr>cx_resc := Some (fst b)\<rparr>) (snd b))"

definition deref_cqc :: "nat option \<Rightarrow> 'a nicbase_scheme \<Rightarrow> CqcResc res" where
  "deref_cqc p s =
     (case p of None \<Rightarrow> Inl (Undefined ''null CqcResc pointer'')
      | Some q \<Rightarrow> ebind (deref q s)
          (\<lambda>ob. case ob of OCqc r \<Rightarrow> Inr r | _ \<Rightarrow> Inl (Undefined ''not a CqcResc'')))"

text \<open>The write of a completion entry to the completion queue, on the given channel.\<close>

definition post_cqe :: "u8 \<Rightarrow> CqcResc \<Rightarrow> CqDesc \<Rightarrow> rnic \<Rightarrow> rnic" where
  "post_cqe chnl cqc d s =
     (let b = alloc (OCqDesc d) s;
          cqWreq = (new_MrReqRsp DMA_TYPE_WREQ chnl (cqc_lkey cqc) 16 (cqc_offset cqc))
                     \<lparr>mr_data := Some (fst b, 0)\<rparr>
      in sched_next TransReqEvent ((snd b)\<lparr>cqWreqFifo := cqWreqFifo (snd b) @ [cqWreq]\<rparr>))"

definition scuProcessing :: "rnic \<Rightarrow> rnic res" where
  "scuProcessing s =
     (case txCqcRspFifo s of
        [] \<Rightarrow> Inl (Assert_failed ''txCqcRspFifo.size()'')
      | rsp # rest \<Rightarrow>
          ebind (deref_cqc (cx_resc rsp) s) (\<lambda>cqc.
          case rg2scFifo (rdmaEngine s) of
            [] \<Rightarrow> Inl (Undefined ''front() of an empty queue'')
          | d # ds \<Rightarrow>
              let s1 = post_cqe TPT_WCHNL_TX_CQUE cqc d
                         (upd_eng (\<lambda>e. e\<lparr>rg2scFifo := ds\<rparr>) (s\<lparr>txCqcRspFifo := rest\<rparr>))
              in Inr (sched_next_if (rest \<noteq> [] \<and> ds \<noteq> []) ScuEvent s1)))"

section \<open>Request generation: RGU\<close>

definition set_window :: "u32 \<Rightarrow> rnic \<Rightarrow> rnic" where
  "set_window n s = upd_eng (\<lambda>e. e\<lparr>windowSize := n, windowFull := (n \<ge> windowCap e)\<rparr>) s"

definition rgu_window_elem :: "WindowElem \<Rightarrow> u32 \<Rightarrow> WinMapElem option \<Rightarrow> WinMapElem" where
  "rgu_window_elem we cqn old =
     (case old of
        None \<Rightarrow> \<lparr>wm_list = [we], wm_firstPsn = we_psn we, wm_lastPsn = we_psn we, wm_cqn = cqn\<rparr>
      | Some w \<Rightarrow> w\<lparr>wm_list := wm_list w @ [we],
                    wm_firstPsn := (if wm_list w = [] then we_psn we else wm_firstPsn w),
                    wm_lastPsn := we_psn we\<rparr>)"

definition rgu_window :: "nat \<Rightarrow> QpcResc \<Rightarrow> u32 \<Rightarrow> TxDesc \<Rightarrow> rnic \<Rightarrow> rnic res" where
  "rgu_window txPkt qpc psn desc s =
     (let we = \<lparr>we_txPkt = txPkt, we_qpn = srcQpn qpc, we_psn = psn, we_txDesc = desc\<rparr>;
          w = rgu_window_elem we (qpc_cqn qpc) (um_lookup (sndWindowList (rdmaEngine s)) (srcQpn qpc))
      in ensure (wm_firstPsn w \<le> wm_lastPsn w) (Assert_failed ''firstPsn <= lastPsn'')
           (Inr (set_window (windowSize (rdmaEngine s) + 1)
             (upd_eng (\<lambda>e. e\<lparr>sndWindowList := um_assign (sndWindowList e) (srcQpn qpc) w\<rparr>) s))))"

definition rgu_qpc :: "QpcResc \<Rightarrow> QpcResc res" where
  "rgu_qpc qpc =
     (let q1 = (if qpType qpc = QP_TYPE_RC then qpc\<lparr>sndPsn := sndPsn qpc + 1\<rparr> else qpc);
          q2 = q1\<lparr>sndWqeOffset := sndWqeOffset q1 + 32\<rparr>
      in ensure (sqSizeLog qpc < 32) (Undefined ''shift count'')
           (Inr (if ucast (sndWqeOffset q2) + 32 > shl1 (sqSizeLog q2) then q2\<lparr>sndWqeOffset := 0\<rparr> else q2)))"

definition rgu_send :: "nat \<Rightarrow> rnic \<Rightarrow> rnic" where
  "rgu_send txPkt s = sched_next SauEvent (upd_eng (\<lambda>e. e\<lparr>txsauFifo := txsauFifo e @ [txPkt]\<rparr>) s)"

definition rgu_data :: "TxDesc \<Rightarrow> rnic \<Rightarrow> rnic res" where
  "rgu_data desc s =
     (if tx_opcode desc = OPCODE_SEND \<or> tx_opcode desc = OPCODE_RDMA_WRITE
      then (case txdataRspFifo s of
              [] \<Rightarrow> Inl (Assert_failed ''txdataRspFifo.size()'')
            | _ # rest \<Rightarrow> Inr (s\<lparr>txdataRspFifo := rest\<rparr>))
      else Inr s)"

definition rgu_finish :: "nat \<Rightarrow> QpcResc \<Rightarrow> bool \<Rightarrow> TxDesc \<Rightarrow> rnic \<Rightarrow> rnic res" where
  "rgu_finish qpcp qpc needAck desc s =
     (let s1 = upd_eng (\<lambda>e. e\<lparr>messageEnd := needAck\<rparr>) s
      in ebind (rgu_qpc qpc) (\<lambda>q.
         let s2 = heap_set qpcp (OQpc q) s1
         in ebind (if \<not> needAck \<and> messageEnd (rdmaEngine s2) \<and> qpType q \<noteq> QP_TYPE_RC
                   then postTxCpl (qpType q) (srcQpn q) (qpc_cqn q) desc s2 else Inr s2) (\<lambda>s3.
            if messageEnd (rdmaEngine s3) then delete_obj qpcp s3 else Inr s3)))"

definition rguProcessing :: "rnic \<Rightarrow> rnic res" where
  "rguProcessing s =
     (case dp2rgFifo (rdmaEngine s) of
        [] \<Rightarrow> Inl (Assert_failed ''dp2rgFifo.size()'')
      | dp # rest \<Rightarrow>
          ebind (rgu_data (dp_desc dp) (upd_eng (\<lambda>e. e\<lparr>dp2rgFifo := rest\<rparr>) s)) (\<lambda>s1.
          ebind (deref_qpc (Some (dp_qpc dp)) s1) (\<lambda>qpc.
          ebind (rgu_headers (dp_desc dp) qpc (dp_pktPos dp) (dp_pktPsn dp)) (\<lambda>ha.
          ebind (upd_pkt (dp_txPkt dp) (rgu_fill (dp_desc dp) qpc (fst ha) (dp_pldLen dp)) s1) (\<lambda>s2.
          ebind (if snd ha then rgu_window (dp_txPkt dp) qpc (dp_pktPsn dp) (dp_desc dp) s2 else Inr s2) (\<lambda>s3.
          rgu_finish (dp_qpc dp) qpc (snd ha) (dp_desc dp) (rgu_send (dp_txPkt dp) s3)))))))"

section \<open>Response reception: RRU\<close>

definition pkt_copy :: "nat \<Rightarrow> nat \<Rightarrow> nat \<Rightarrow> rnic \<Rightarrow> u8 list res" where
  "pkt_copy p off n s =
     ebind (deref_pkt p s) (\<lambda>k.
     ensure (off + n \<le> unat (pk_bufLength k)) (Undefined ''read past the packet buffer'')
       (Inr (pkt_get off n k)))"

text \<open>A write of the given bytes to a memory region, from a buffer of its own.\<close>

definition post_dataWrite :: "u8 \<Rightarrow> u32 \<Rightarrow> u32 \<Rightarrow> u8 list \<Rightarrow> rnic \<Rightarrow> rnic" where
  "post_dataWrite chnl key vaddr bs s =
     (let b = new_bytes bs s;
          wreq = (new_MrReqRsp DMA_TYPE_WREQ chnl key (of_nat (length bs)) (vaddr AND 0xFFF))
                   \<lparr>mr_data := Some (fst b, 0)\<rparr>
      in sched_next TransReqEvent ((snd b)\<lparr>dataReqFifo := dataReqFifo (snd b) @ [wreq]\<rparr>))"

definition rdmaReadRsp :: "nat \<Rightarrow> WindowElem \<Rightarrow> rnic \<Rightarrow> rnic res" where
  "rdmaReadRsp rxPkt we s =
     ebind (pkt_copy rxPkt 24 (unat (tx_len (we_txDesc we))) s) (\<lambda>bs.
     Inr (post_dataWrite TPT_WCHNL_TX_DATA (tx_lkey (we_txDesc we)) (ucast (tx_lVaddr (we_txDesc we))) bs s))"

text \<open>One acknowledged element of the window; a read that is skipped by a later answer is fatal.\<close>

definition rru_elem :: "nat \<Rightarrow> u32 \<Rightarrow> u32 \<Rightarrow> u32 \<Rightarrow> u32 \<Rightarrow> WindowElem \<Rightarrow> rnic \<Rightarrow> rnic res" where
  "rru_elem rxPkt qpn cqn ackNo first we s =
     ebind (deref_pkt (we_txPkt we) s) (\<lambda>k.
       let op = bth_op (pkt_bth k)
       in if op = ucast PKT_TRANS_SEND_ONLY \<or> op = ucast PKT_TRANS_RWRITE_ONLY \<or> op = ucast PKT_TRANS_RWRITE_LAST
          then postTxCpl QP_TYPE_RC qpn cqn (we_txDesc we) s
          else if op = ucast PKT_TRANS_RREAD_ONLY
          then (if first < ackNo then Inl (Panicked ''reTrans'')
                else ebind (rdmaReadRsp rxPkt we s) (postTxCpl QP_TYPE_RC qpn cqn (we_txDesc we)))
          else Inl (Panicked ''winPkt type wrong''))"

text \<open>The release loop, on the window list and its first sequence number.\<close>

fun rru_loop ::
  "nat \<Rightarrow> u32 \<Rightarrow> u32 \<Rightarrow> u32 \<Rightarrow> bool \<Rightarrow> WindowElem list \<Rightarrow> u32 \<Rightarrow> rnic \<Rightarrow> ((WindowElem list \<times> u32) \<times> rnic) res" where
  "rru_loop rxPkt qpn cqn ackNo nak [] first s =
     (if first > ackNo \<or> first = ackNo \<and> nak then Inr (([], first), s)
      else Inl (Undefined ''front() of an empty list''))"
| "rru_loop rxPkt qpn cqn ackNo nak (we # rest) first s =
     (if first > ackNo \<or> first = ackNo \<and> nak then Inr ((we # rest, first), s)
      else ebind (rru_elem rxPkt qpn cqn ackNo first we s) (\<lambda>s1.
        rru_loop rxPkt qpn cqn ackNo nak rest
          (case rest of [] \<Rightarrow> first + 1 | we' # _ \<Rightarrow> we_psn we')
          (set_window (windowSize (rdmaEngine s1) - 1) s1)))"

definition rru_release :: "nat \<Rightarrow> u32 \<Rightarrow> u32 \<Rightarrow> bool \<Rightarrow> WinMapElem \<Rightarrow> rnic \<Rightarrow> rnic res" where
  "rru_release rxPkt qpn ackNo nak w s =
     (if wm_firstPsn w > ackNo \<or> wm_lastPsn w < ackNo then Inl (Panicked ''RX ACK owns illegal PSN'')
      else ebind (rru_loop rxPkt qpn (wm_cqn w) ackNo nak (wm_list w) (wm_firstPsn w) s) (\<lambda>r.
        Inr (upd_eng (\<lambda>e. e\<lparr>sndWindowList := um_assign (sndWindowList e) qpn
               (w\<lparr>wm_list := fst (fst r), wm_firstPsn := snd (fst r)\<rparr>)\<rparr>) (snd r))))"

definition rruProcessing :: "rnic \<Rightarrow> rnic res" where
  "rruProcessing s =
     (case ra2rgFifo (rdmaEngine s) of
        [] \<Rightarrow> Inl (Assert_failed ''ra2rgFifo.size()'')
      | rxPkt # rest \<Rightarrow>
          ebind (deref_pkt rxPkt s) (\<lambda>k.
          let qpn = bth_qpn (pkt_bth k);
              s1 = upd_eng (\<lambda>e. e\<lparr>ra2rgFifo := rest\<rparr>) s
          in case um_lookup (sndWindowList (rdmaEngine s1)) qpn of
               None \<Rightarrow> Inl (Panicked ''cannot find windows elem according to destQpn'')
             | Some w \<Rightarrow>
                 rru_release rxPkt qpn (bth_psn (pkt_bth k))
                   (drop_bit 24 (syndrome_msn (pkt_aeth k)) = ucast RSP_NAK) w s1))"

section \<open>The unit that does both: RGRRU\<close>

definition isReqGen :: "rnic \<Rightarrow> bool" where
  "isReqGen s \<longleftrightarrow>
     (case dp2rgFifo (rdmaEngine s) of
        [] \<Rightarrow> False
      | dp # _ \<Rightarrow> txdataRspFifo s \<noteq> [] \<or> tx_opcode (dp_desc dp) = OPCODE_RDMA_READ)"

definition isRspRecv :: "rnic \<Rightarrow> bool" where
  "isRspRecv s \<longleftrightarrow> ra2rgFifo (rdmaEngine s) \<noteq> []"

definition isWindowBlocked :: "rnic \<Rightarrow> bool res" where
  "isWindowBlocked s =
     (if \<not> windowFull (rdmaEngine s) then Inr False
      else (case dp2rgFifo (rdmaEngine s) of
              [] \<Rightarrow> Inl (Undefined ''front() of an empty queue'')
            | dp # _ \<Rightarrow> ebind (deref_qpc (Some (dp_qpc dp)) s) (\<lambda>q. Inr (qpType q = QP_TYPE_RC))))"

definition rgrr_tail :: "rnic \<Rightarrow> rnic" where
  "rgrr_tail s = sched_next_if (isRspRecv s \<or> isReqGen s) RgrrEvent s"

definition rgrrProcessing :: "rnic \<Rightarrow> rnic res" where
  "rgrrProcessing s =
     (if isRspRecv s then ebind (rruProcessing s) (\<lambda>s1. Inr (rgrr_tail s1))
      else if isReqGen s
      then ebind (isWindowBlocked s) (\<lambda>b.
             if b then Inr s else ebind (rguProcessing s) (\<lambda>s1. Inr (rgrr_tail s1)))
      else Inr s)"

section \<open>Send arbiter: SAU\<close>

definition sauProcessing :: "rnic \<Rightarrow> rnic" where
  "sauProcessing s =
     (case txsauFifo (rdmaEngine s) of
        [] \<Rightarrow> s
      | pkt # rest \<Rightarrow>
          let s1 = (if linkFree s
                    then upd_eng (\<lambda>e. e\<lparr>txsauFifo := rest\<rparr>) (s\<lparr>wire := wire s @ [pkt]\<rparr>) else s)
          in sched_next_if (txsauFifo (rdmaEngine s1) \<noteq> []) SauEvent s1)"

end
