(* ===== verification/EngineRx.thy ===== *)
theory EngineRx
  imports EngineWin
begin

text \<open>
  The receive side of \<^verbatim>\<open>RdmaEngine\<close>: packets from the link are split into acknowledgements and
  requests (RAU), a request waits for its queue pair context and is then executed by its kind (RPU):
  a send fetches a receive descriptor, a write goes to memory, a read sends data back. Receive
  completions are written by RCU.
\<close>

section \<open>Admission: RAU\<close>

definition isAckPkt :: "EthPacket \<Rightarrow> bool" where
  "isAckPkt k \<longleftrightarrow> bth_op (pkt_bth k) = ucast PKT_TRANS_ACK"

definition rau_request :: "nat \<Rightarrow> EthPacket \<Rightarrow> rnic \<Rightarrow> rnic res" where
  "rau_request rxPkt k s =
     (case rp2raIdxFifo (rdmaEngine s) of
        [] \<Rightarrow> Inr s
      | idx # idxs \<Rightarrow>
          let s1 = upd_eng (\<lambda>e. e\<lparr>rp2raIdxFifo := idxs\<rparr>) (s\<lparr>rxFifo := tl (rxFifo s)\<rparr>);
              b = new_QpcResc s1
          in ebind (postQpcReq ((new_CxtReqRsp CXT_RREQ_QP CXT_CHNL_RX (bth_qpn (pkt_bth k)) 1 idx)
                                 \<lparr>cx_resc := Some (fst b)\<rparr>) (snd b)) (\<lambda>s2.
             ensure (unat idx < length (rs2rpVector (rdmaEngine s2))) (Undefined ''rs2rpVector index'')
               (Inr (upd_eng (\<lambda>e. e\<lparr>rs2rpVector := (rs2rpVector e)[unat idx := Some rxPkt]\<rparr>) s2))))"

definition rau_ack :: "nat \<Rightarrow> rnic \<Rightarrow> rnic" where
  "rau_ack rxPkt s =
     sched_next RgrrEvent
       (upd_eng (\<lambda>e. e\<lparr>ra2rgFifo := ra2rgFifo e @ [rxPkt]\<rparr>) (s\<lparr>rxFifo := tl (rxFifo s)\<rparr>))"

definition rau_tail :: "rnic \<Rightarrow> rnic res" where
  "rau_tail s =
     (case rxFifo s of
        [] \<Rightarrow> Inr s
      | p # _ \<Rightarrow>
          if rp2raIdxFifo (rdmaEngine s) \<noteq> [] then Inr (sched_next RauEvent s)
          else ebind (deref_pkt p s) (\<lambda>k. Inr (sched_next_if (isAckPkt k) RauEvent s)))"

definition rauProcessing :: "rnic \<Rightarrow> rnic res" where
  "rauProcessing s =
     (case rxFifo s of
        [] \<Rightarrow> Inl (Assert_failed ''rxFifo.size()'')
      | rxPkt # _ \<Rightarrow>
          ebind (deref_pkt rxPkt s) (\<lambda>k.
          ebind (if isAckPkt k then Inr (rau_ack rxPkt s) else rau_request rxPkt k s) rau_tail))"

section \<open>Acknowledgements\<close>

text \<open>The headers of the answer to a packet: addresses swapped, BTH with the expected number, AETH.\<close>

definition ack_bytes :: "EthPacket \<Rightarrow> QpcResc \<Rightarrow> u8 list" where
  "ack_bytes k qpc =
     pkt_get 6 6 k @ pkt_get 0 6 k @
     enc_BTH \<lparr>op_destQpn = bthOp (qpType qpc) PKT_TRANS_ACK OR destQpn qpc, needAck_psn = expPsn qpc\<rparr> @
     enc_AETH \<lparr>syndrome_msn = push_bit 24 (ucast RSP_ACK)\<rparr>"

definition new_ack :: "EthPacket \<Rightarrow> QpcResc \<Rightarrow> rnic \<Rightarrow> nat \<times> rnic" where
  "new_ack k qpc s =
     alloc (OPkt ((pkt_put 0 (ack_bytes k qpc) (new_EthPacket 16384 (junk s)))\<lparr>pk_length := 24, pk_simLength := 0\<rparr>)) s"

definition send_ack :: "EthPacket \<Rightarrow> QpcResc \<Rightarrow> rnic \<Rightarrow> rnic" where
  "send_ack k qpc s = (let b = new_ack k qpc s in rgu_send (fst b) (snd b))"

section \<open>Sends\<close>

definition rcv_copy :: "nat \<Rightarrow> QpcResc \<Rightarrow> RxDesc \<Rightarrow> rnic \<Rightarrow> rnic res" where
  "rcv_copy rxPkt qpc rxDesc s =
     ebind (pkt_copy rxPkt (if qpType qpc = QP_TYPE_RC then 20 else 28) (unat (rx_len rxDesc)) s) (\<lambda>bs.
     Inr (post_dataWrite TPT_WCHNL_RX_DATA (rx_lkey rxDesc) (ucast (rx_lVaddr rxDesc)) bs s))"

definition rcv_complete :: "QpcResc \<Rightarrow> RxDesc \<Rightarrow> rnic \<Rightarrow> rnic res" where
  "rcv_complete qpc rxDesc s =
     (let d = \<lparr>cq_srvType = qpType qpc, cq_transType = OPCODE_RECV, cq_nop0 = 0, cq_nop1 = 0,
               cq_byteCnt = rx_len rxDesc, cq_qpn = srcQpn qpc, cq_cqn = qpc_cqn qpc\<rparr>;
          b = new_CqcResc (upd_eng (\<lambda>e. e\<lparr>rp2rcFifo := rp2rcFifo e @ [d]\<rparr>) s)
      in postCqcReq ((new_CxtReqRsp CXT_RREQ_CQ CXT_CHNL_RX (qpc_cqn qpc) 1 0)\<lparr>cx_resc := Some (fst b)\<rparr>) (snd b))"

definition rcvRpuProcessing :: "rnic \<Rightarrow> rnic res" where
  "rcvRpuProcessing s =
     (case rxdescRspFifo s of
        [] \<Rightarrow> Inl (Assert_failed ''rxdescRspFifo.size()'')
      | rxDesc # descs \<Rightarrow>
          (case rp2rcvRpFifo (rdmaEngine s) of
             [] \<Rightarrow> Inl (Undefined ''front() of an empty queue'')
           | e # rest \<Rightarrow>
               let s1 = upd_eng (\<lambda>x. x\<lparr>rp2rcvRpFifo := rest\<rparr>) (s\<lparr>rxdescRspFifo := descs\<rparr>)
               in ebind (deref_qpc (Some (snd e)) s1) (\<lambda>qpc.
                  ebind (deref_pkt (fst e) s1) (\<lambda>k.
                  ebind (rcv_copy (fst e) qpc rxDesc s1) (\<lambda>s2.
                  ebind (rcv_complete qpc rxDesc (if qpType qpc = QP_TYPE_RC then send_ack k qpc s2 else s2)) (\<lambda>s3.
                  ebind (delete_obj (snd e) s3) (\<lambda>s4.
                  Inr (sched_next_if (rest \<noteq> [] \<and> descs \<noteq> []) RcvRpuEvent s4))))))))"

section \<open>RDMA writes\<close>

text \<open>
  Where the remote address and the payload of a write packet are: the address in the packet or in the
  copy kept from the first packet of the message, the payload behind the headers. The first packet
  leaves the pointer to the payload unassigned.
\<close>

definition wr_reth :: "u32 \<Rightarrow> EthPacket \<Rightarrow> rnic \<Rightarrow> (RETH \<times> rnic) res" where
  "wr_reth op k s =
     (if op = ucast PKT_TRANS_RWRITE_FIRST
      then let b = alloc (ORETH (pkt_reth k)) s
           in Inr (pkt_reth k, upd_eng (\<lambda>e. e\<lparr>osRWRETH := um_assign (osRWRETH e) (bth_qpn (pkt_bth k)) (fst b)\<rparr>) (snd b))
      else if op = ucast PKT_TRANS_RWRITE_ONLY then Inr (pkt_reth k, s)
      else (case um_lookup (osRWRETH (rdmaEngine s)) (bth_qpn (pkt_bth k)) of
              None \<Rightarrow> Inl (Undefined ''null RETH'')
            | Some p \<Rightarrow> ebind (deref p s) (\<lambda>ob. case ob of
                  ORETH h \<Rightarrow> Inr (h, s) | _ \<Rightarrow> Inl (Undefined ''not a RETH''))))"

definition wr_hdr :: "u32 \<Rightarrow> u32" where
  "wr_hdr op = (if op = ucast PKT_TRANS_RWRITE_FIRST \<or> op = ucast PKT_TRANS_RWRITE_ONLY then 12 + 8 + 16 else 12 + 8)"

definition wr_data :: "nat \<Rightarrow> u32 \<Rightarrow> u32 \<Rightarrow> rnic \<Rightarrow> u8 list res" where
  "wr_data rxPkt op len s =
     (if op = ucast PKT_TRANS_RWRITE_FIRST then Inl (Undefined ''memcpy from an unassigned pointer'')
      else pkt_copy rxPkt (unat (wr_hdr op)) (unat len) s)"

definition wrRpuProcessing :: "nat \<Rightarrow> QpcResc \<Rightarrow> rnic \<Rightarrow> rnic res" where
  "wrRpuProcessing rxPkt qpc s =
     ebind (deref_pkt rxPkt s) (\<lambda>k.
       let op = bth_op (pkt_bth k);
           needAck = drop_bit 24 (needAck_psn (pkt_bth k)) AND 1 \<noteq> 0
       in ebind (wr_reth op k s) (\<lambda>hs.
          ebind (wr_data rxPkt op (pk_length k - wr_hdr op) (snd hs)) (\<lambda>bs.
          let s1 = post_dataWrite TPT_WCHNL_RX_DATA (reth_rKey (fst hs)) (reth_rVaddr_l (fst hs)) bs (snd hs)
          in Inr (if qpType qpc = QP_TYPE_RC \<and> needAck then send_ack k qpc s1 else s1))))"

section \<open>RDMA reads\<close>

definition rdRpuProcessing :: "nat \<Rightarrow> QpcResc \<Rightarrow> rnic \<Rightarrow> rnic res" where
  "rdRpuProcessing rxPkt qpc s =
     ebind (deref_pkt rxPkt s) (\<lambda>k.
       let b = new_ack k qpc s;
           h = pkt_reth k;
           rreq = (new_MrReqRsp DMA_TYPE_RREQ MR_RCHNL_RX_DATA (reth_rKey h) (reth_len h)
                    (reth_rVaddr_l h AND 0xFFF))\<lparr>mr_data := Some (fst b, 24)\<rparr>;
           s1 = sched_next TransReqEvent ((snd b)\<lparr>dataReqFifo := dataReqFifo (snd b) @ [rreq]\<rparr>)
       in Inr (upd_eng (\<lambda>e. e\<lparr>rp2rpCplFifo := rp2rpCplFifo e @ [fst b]\<rparr>) s1))"

definition rdCplRpuProcessing :: "rnic \<Rightarrow> rnic res" where
  "rdCplRpuProcessing s =
     ensure (rxdataRspFifo s \<noteq> []) (Assert_failed ''!rxdataRspFifo.empty()'')
       (ensure (rp2rpCplFifo (rdmaEngine s) \<noteq> []) (Assert_failed ''!rp2rpCplFifo.empty()'')
         (Inr (rgu_send (hd (rp2rpCplFifo (rdmaEngine s)))
           (upd_eng (\<lambda>e. e\<lparr>rp2rpCplFifo := tl (rp2rpCplFifo e)\<rparr>)
             (s\<lparr>rxdataRspFifo := tl (rxdataRspFifo s)\<rparr>)))))"

section \<open>Dispatch: RPU\<close>

definition rxDescLenSel :: u32 where
  "rxDescLenSel = 1"

definition rpu_send :: "nat \<Rightarrow> QpcResc \<Rightarrow> rnic \<Rightarrow> rnic" where
  "rpu_send rxPkt qpc s =
     (let b = new_RxDesc s;
          descReq = (new_MrReqRsp DMA_TYPE_RREQ MR_RCHNL_RX_DESC (rcvWqeBaseLkey qpc) (rxDescLenSel * 16)
                      (ucast (rcvWqeOffset qpc)))\<lparr>mr_data := Some (fst b, 0)\<rparr>;
          s1 = sched_next TransReqEvent ((snd b)\<lparr>descReqFifo := descReqFifo (snd b) @ [descReq]\<rparr>);
          c = alloc (OQpc qpc) s1
      in upd_eng (\<lambda>e. e\<lparr>rp2rcvRpFifo := rp2rcvRpFifo e @ [(rxPkt, fst c)]\<rparr>) (snd c))"

definition rpu_dispatch :: "nat \<Rightarrow> QpcResc \<Rightarrow> EthPacket \<Rightarrow> rnic \<Rightarrow> rnic res" where
  "rpu_dispatch rxPkt qpc k s =
     (let op = bth_op (pkt_bth k)
      in if op = ucast PKT_TRANS_SEND_ONLY then Inr (rpu_send rxPkt qpc s)
         else if op = ucast PKT_TRANS_RWRITE_FIRST \<or> op = ucast PKT_TRANS_RWRITE_MIDDLE \<or>
                 op = ucast PKT_TRANS_RWRITE_LAST \<or> op = ucast PKT_TRANS_RWRITE_ONLY
         then wrRpuProcessing rxPkt qpc s
         else if op = ucast PKT_TRANS_RREAD_ONLY then rdRpuProcessing rxPkt qpc s
         else Inl (Panicked ''RX packet type is wrong''))"

definition rpu_credit :: "u8 \<Rightarrow> rnic \<Rightarrow> rnic" where
  "rpu_credit idx s =
     (let s1 = upd_eng (\<lambda>e. e\<lparr>rs2rpVector := (rs2rpVector e)[unat idx := None],
                              rp2raIdxFifo := rp2raIdxFifo e @ [idx]\<rparr>) s
      in sched_next_if (length (rp2raIdxFifo (rdmaEngine s1)) = 1 \<and> rxFifo s1 \<noteq> []) RauEvent s1)"

text \<open>A debugging loop reads the first hundred elements of the vector whatever its size.\<close>

definition rpuProcessing :: "rnic \<Rightarrow> rnic res" where
  "rpuProcessing s =
     (case rxQpcRspFifo (qpcModule s) of
        [] \<Rightarrow> Inl (Assert_failed ''rxQpcRspFifo.size()'')
      | rsp # rest \<Rightarrow>
          let idx = cx_idx rsp; s1 = upd_qpcM (\<lambda>m. m\<lparr>rxQpcRspFifo := rest\<rparr>) s
          in ensure (100 \<le> length (rs2rpVector (rdmaEngine s1)) \<and> unat idx < length (rs2rpVector (rdmaEngine s1)))
               (Undefined ''rs2rpVector index'')
             (ebind (deref_qpc (cx_resc rsp) s1) (\<lambda>qpc.
              case rs2rpVector (rdmaEngine s1) ! unat idx of
                None \<Rightarrow> Inl (Assert_failed ''rs2rpVector[idx] != nullptr'')
              | Some rxPkt \<Rightarrow>
                  ebind (deref_pkt rxPkt s1) (\<lambda>k.
                  ebind (rpu_dispatch rxPkt qpc k (rpu_credit idx s1)) (\<lambda>s2.
                  ebind (delete_obj (the (cx_resc rsp)) s2) (\<lambda>s3.
                  Inr (sched_next_if (rest \<noteq> []) RpuEvent s3)))))))"

section \<open>Receive completions: RCU\<close>

definition rcuProcessing :: "rnic \<Rightarrow> rnic res" where
  "rcuProcessing s =
     (case rxCqcRspFifo s of
        [] \<Rightarrow> Inl (Assert_failed ''rxCqcRspFifo.size()'')
      | rsp # rest \<Rightarrow>
          ebind (deref_cqc (cx_resc rsp) s) (\<lambda>cqc.
          case rp2rcFifo (rdmaEngine s) of
            [] \<Rightarrow> Inl (Undefined ''front() of an empty queue'')
          | d # ds \<Rightarrow>
              let s1 = post_cqe TPT_WCHNL_RX_CQUE cqc d
                         (upd_eng (\<lambda>e. e\<lparr>rp2rcFifo := ds\<rparr>) (s\<lparr>rxCqcRspFifo := rest\<rparr>))
              in Inr (sched_next_if (ds \<noteq> [] \<and> rest \<noteq> []) RcuEvent s1)))"

end
