(* ===== verification/Eth.thy ===== *)
theory Eth
  imports Dma
begin

text \<open>
  The Ethernet side of \<^verbatim>\<open>hangu_rnic.cc\<close>: packets for the device's own address wait out the link delay
  and go to the receive side of the engine in arrival order.
\<close>

definition isMacEqual :: "u8 list \<Rightarrow> u8 list \<Rightarrow> bool" where
  "isMacEqual devSrcMac pktDstMac \<longleftrightarrow> (\<forall>i \<in> set [0..<ETH_ADDR_LEN]. devSrcMac ! i = pktDstMac ! i)"

definition ethRxDelay :: "nat \<Rightarrow> rnic \<Rightarrow> rnic res" where
  "ethRxDelay pkt s =
     ebind (deref_pkt pkt s) (\<lambda>k.
     if \<not> isMacEqual (macAddr s) (pkt_get 0 ETH_ADDR_LEN k) then Inr s
     else let due = curTick s + LinkDelay s
          in Inr (sched_at EthRxPktProcEvent due (s\<lparr>ethRxDelayFifo := ethRxDelayFifo s @ [(pkt, due)]\<rparr>)))"

definition ethRxPktProc :: "rnic \<Rightarrow> rnic res" where
  "ethRxPktProc s =
     (case ethRxDelayFifo s of
        [] \<Rightarrow> Inl (Undefined ''front() of an empty queue'')
      | (pkt, _) # rest \<Rightarrow>
          let s1 = sched_next RauEvent (s\<lparr>ethRxDelayFifo := rest, rxFifo := rxFifo s @ [pkt]\<rparr>)
          in case rest of
               [] \<Rightarrow> Inr s1
             | (_, due) # _ \<Rightarrow>
                 if scheduled EthRxPktProcEvent s1 then Inr s1 else schedule EthRxPktProcEvent due s1)"

end
