(* ===== verification/Rnic.thy ===== *)
theory Rnic
  imports Driver EngineRx Eth
begin

text \<open>
  The whole device: the handler behind each event, and the steps of the device
  among its surroundings: the simulator fires one of the earliest events, the host writes a
  register or its memory, the link delivers a packet or changes between free and busy.
\<close>

section \<open>Events\<close>

definition dispatch :: "event \<Rightarrow> rnic \<Rightarrow> rnic res" where
  "dispatch e s =
     (case e of
        CeuProcEvent \<Rightarrow> ceuProc s | DoorbellProcEvent \<Rightarrow> doorbellProc s | MboxEvent \<Rightarrow> mboxFetchCpl s
      | DfuEvent \<Rightarrow> dfuProcessing s | DduEvent \<Rightarrow> dduProcessing s | DpuEvent \<Rightarrow> dpuProcessing s
      | SlicingEvent \<Rightarrow> slicingProcessing s | RgrrEvent \<Rightarrow> rgrrProcessing s
      | ScuEvent \<Rightarrow> scuProcessing s | SauEvent \<Rightarrow> Inr (sauProcessing s)
      | RauEvent \<Rightarrow> rauProcessing s | RpuEvent \<Rightarrow> rpuProcessing s | RcvRpuEvent \<Rightarrow> rcvRpuProcessing s
      | RdCplRpuEvent \<Rightarrow> rdCplRpuProcessing s | RcuEvent \<Rightarrow> rcuProcessing s
      | MptReadProcEvent \<Rightarrow> on_mpt_res rc_readProc s | MptFetchCplEvent \<Rightarrow> on_mpt_res fetchRsp s
      | MttReadProcEvent \<Rightarrow> on_mtt_res rc_readProc s | MttFetchCplEvent \<Rightarrow> on_mtt_res fetchRsp s
      | CqcReadProcEvent \<Rightarrow> on_cqc_res rc_readProc s | CqcFetchCplEvent \<Rightarrow> on_cqc_res fetchRsp s
      | TransReqEvent \<Rightarrow> Inr (transReqProcessing s) | MptRspEvent \<Rightarrow> mptRspProcessing s
      | MttRspEvent \<Rightarrow> mttRspProcessing s | DmaRrspEvent \<Rightarrow> dmaRrspProcessing s
      | CqcReqProcEvent \<Rightarrow> cqcReqProc s | CqcRspProcEvent \<Rightarrow> cqcRspProc s
      | QpcReqProcEvent \<Rightarrow> qpcReqProc s | QpcRspProcEvent \<Rightarrow> qpcRspProc s
      | PushElemProcEvent \<Rightarrow> pushElemProc s
      | DmaWriteCplEvent \<Rightarrow> dmaWriteCplProcessing s | DmaReadCplEvent \<Rightarrow> dmaReadCplProcessing s
      | DmaChnlProcEvent \<Rightarrow> dmaChnlProc s | DmaWriteEvent \<Rightarrow> dmaWriteProcessing s
      | DmaReadEvent \<Rightarrow> dmaReadProcessing s | EthRxPktProcEvent \<Rightarrow> ethRxPktProc s)"

text \<open>Firing: the event leaves the queue, time moves to its tick, the handler runs.\<close>

definition fire :: "event \<Rightarrow> nat \<Rightarrow> rnic \<Rightarrow> rnic res" where
  "fire e t s = dispatch e (s\<lparr>curTick := t, evq := (evq s)(e := None)\<rparr>)"

inductive rnic_step :: "rnic \<Rightarrow> rnic \<Rightarrow> bool" where
  event: "evq s e = Some t \<Longrightarrow> (\<And>e' t'. evq s e' = Some t' \<Longrightarrow> t \<le> t') \<Longrightarrow> fire e t s = Inr s' \<Longrightarrow>
     rnic_step s s'"
| time: "curTick s \<le> t \<Longrightarrow> (\<And>e' t'. evq s e' = Some t' \<Longrightarrow> t \<le> t') \<Longrightarrow> rnic_step s (s\<lparr>curTick := t\<rparr>)"
| host_write: "pio_write addr bs s = Inr s' \<Longrightarrow> rnic_step s s'"
| link_recv: "ethRxDelay (length (heap s)) (snd (alloc (OPkt k) s)) = Inr s' \<Longrightarrow> rnic_step s s'"
| link_state: "rnic_step s (s\<lparr>linkFree := b\<rparr>)"
| host_mem: "rnic_step s (s\<lparr>hostMem := m\<rparr>)"

inductive_cases rnic_stepE: "rnic_step s s'"

definition reachable :: "rnic_params \<Rightarrow> nicbase \<Rightarrow> rnic \<Rightarrow> bool" where
  "reachable p b s \<longleftrightarrow> rnic_step\<^sup>*\<^sup>* (new_HanGuRnic p b) s"

end
