(* ===== verification/Window.thy ===== *)
theory Window
  imports EngineWin
begin

text \<open>
  The send window and the headers of \<open>EngineWin\<close>: what an acknowledgement releases, that the window is
  accounted for, that a receiver reads the headers the sender wrote, and three behaviours that
  end a simulation or lose a completion.
\<close>

section \<open>Headers read back\<close>

lemma pkt_get_put_part:
  "length bs = n \<Longrightarrow> length us = m \<Longrightarrow> pkt_get (off + m) n (pkt_put off (us @ bs @ t) k) = bs"
  by (auto simp: pkt_get_def pkt_put_def nth_append intro!: nth_equalityI)

lemmas bth_len = bth.len_enc [OF TrueI]

lemma pkt_bth_put: "pkt_bth (pkt_put 12 (enc_BTH h @ t) k) = h"
  using pkt_get_put_part [OF bth_len, of "[]" 0 12 h t k] bth.dec_enc_all [OF TrueI, of h]
  by (simp add: pkt_bth_def)

lemma pkt_reth_put: "pkt_reth (pkt_put 12 (enc_BTH h @ enc_RETH r @ t) k) = r"
  using pkt_get_put_part [OF reth.len_enc [OF TrueI] bth_len, of 12 h r t k] reth.dec_enc_all [OF TrueI, of r]
  by (simp add: pkt_reth_def)

lemma pkt_aeth_put: "pkt_aeth (pkt_put 12 (enc_BTH h @ enc_AETH r @ t) k) = r"
  using pkt_get_put_part [OF aeth.len_enc [OF TrueI] bth_len, of 12 h r t k] aeth.dec_enc_all [OF TrueI, of r]
  by (simp add: pkt_aeth_def)

lemma word_take_bit_self: "(w :: 'a::len word) < 2 ^ n \<Longrightarrow> bit w i \<Longrightarrow> i < n"
  by (metis bit_take_bit_iff less_mask_eq take_bit_eq_mask)

lemma and_24: "(w :: u32) AND 0xFFFFFF = take_bit 24 w"
  using take_bit_eq_mask [of 24 w] by (simp add: mask_eq_exp_minus_1)

lemma and_5: "(w :: u32) AND 0x1F = take_bit 5 w"
  using take_bit_eq_mask [of 5 w] by (simp add: mask_eq_exp_minus_1)

lemma mk_bth_qpn:
  assumes "qpn < 0x1000000"
  shows "bth_qpn (mk_bth ty tr qpn a psn) = qpn"
proof -
  have b: "bit qpn i \<Longrightarrow> i < 24" for i using word_take_bit_self [of qpn 24 i] assms by simp
  show ?thesis
    by (rule bit_eqI) (auto simp: bth_qpn_def mk_bth_def bthOp_def and_24 bit_simps dest: b)
qed

lemma mk_bth_psn:
  assumes "psn < 0x1000000"
  shows "bth_psn (mk_bth ty tr qpn a psn) = psn"
proof -
  have "take_bit 24 psn = psn" using less_mask_eq [of psn 24] assms by (simp add: take_bit_eq_mask)
  then show ?thesis by (simp add: bth_psn_def mk_bth_def and_24)
qed

lemma mk_bth_op:
  assumes "qpn < 0x1000000" and "tr < 32"
  shows "bth_op (mk_bth ty tr qpn a psn) = ucast tr"
proof -
  have b: "bit qpn i \<Longrightarrow> i < 24" for i using word_take_bit_self [of qpn 24 i] assms by simp
  have c: "bit tr i \<Longrightarrow> i < 5" for i using word_take_bit_self [of tr 5 i] assms by simp
  show ?thesis
    by (rule bit_eqI) (auto simp: bth_op_def mk_bth_def bthOp_def and_5 bit_simps dest: b c)
qed

lemma mk_bth_ack: "psn < 0x1000000 \<Longrightarrow> drop_bit 24 (needAck_psn (mk_bth ty tr qpn a psn)) AND 1 \<noteq> 0 \<longleftrightarrow> a"
proof -
  assume "psn < 0x1000000"
  then have "drop_bit 24 psn = 0"
    using word_take_bit_self [of psn 24] by (intro bit_eqI) (auto simp: bit_simps)
  then show ?thesis by (simp add: mk_bth_def)
qed


lemma pkt_get_lengths [simp]: "pkt_get off n (k\<lparr>pk_length := a, pk_simLength := b\<rparr>) = pkt_get off n k"
  by (simp add: pkt_get_def)

lemma length_setMacAddr [simp]: "length (setMacAddr m) = 6"
  by (simp add: setMacAddr_def)

lemma rgu_fill_hdrs: "12 \<le> off \<Longrightarrow> pkt_get off n (rgu_fill d q h len k) = pkt_get off n (pkt_put 12 h k)"
  by (simp add: rgu_fill_def Let_def pkt_get_put_other)

lemma rgu_fill_dmac:
  "pkt_get 0 6 (rgu_fill d q h len k) = setMacAddr (if qpType q = QP_TYPE_RC then ucast (dLid q) else ucast (tx_dlid d))"
  by (simp add: rgu_fill_def Let_def pkt_get_put_other)

text \<open>The kind of packet a descriptor leads to, and whether it carries the remote address.\<close>

definition trans_of :: "TxDesc \<Rightarrow> u8 \<Rightarrow> u8" where
  "trans_of d pos =
     (if tx_opcode d = OPCODE_SEND then PKT_TRANS_SEND_ONLY
      else if tx_opcode d = OPCODE_RDMA_READ then PKT_TRANS_RREAD_ONLY
      else if pos = PKT_FIRST then PKT_TRANS_RWRITE_FIRST
      else if pos = PKT_MIDDLE then PKT_TRANS_RWRITE_MIDDLE
      else if pos = PKT_LAST then PKT_TRANS_RWRITE_LAST else PKT_TRANS_RWRITE_ONLY)"

definition has_reth :: "TxDesc \<Rightarrow> u8 \<Rightarrow> bool" where
  "has_reth d pos \<longleftrightarrow> tx_opcode d = OPCODE_RDMA_READ \<or>
     tx_opcode d = OPCODE_RDMA_WRITE \<and> (pos = PKT_FIRST \<or> pos = PKT_ONLY)"

lemma rgu_headers_shape:
  assumes "rgu_headers d q pos psn = Inr (h, a)" and "qpType q = QP_TYPE_RC"
    and "pos \<in> {PKT_FIRST, PKT_MIDDLE, PKT_LAST, PKT_ONLY}"
  shows "h = enc_BTH (mk_bth QP_TYPE_RC (trans_of d pos) (destQpn q) a
               (if tx_opcode d = OPCODE_RDMA_WRITE then psn else sndPsn q)) @
             (if has_reth d pos then enc_RETH (desc_reth d) else [])"
  using assms by (auto simp: rgu_headers_def trans_of_def has_reth_def split: if_splits)

lemma deref_upd_eng [simp]:
  "deref p (upd_eng f s) = deref p s" "deref_pkt p (upd_eng f s) = deref_pkt p s"
  "deref_qpc r (upd_eng f s) = deref_qpc r s"
  by (simp_all add: deref_def deref_pkt_def deref_qpc_def upd_eng_def split: option.split)

section \<open>The send window\<close>

text \<open>
  The window of a queue pair is consistent: sequence numbers ascend, the first and the last one are
  recorded, and an empty window has its first above its last.
\<close>

definition win_elem_ok :: "WinMapElem \<Rightarrow> bool" where
  "win_elem_ok w \<longleftrightarrow>
     sorted_wrt (<) (map we_psn (wm_list w)) \<and>
     (if wm_list w = [] then wm_lastPsn w < wm_firstPsn w
      else wm_firstPsn w = we_psn (hd (wm_list w)) \<and> wm_lastPsn w = we_psn (last (wm_list w)))"

text \<open>The completions an acknowledged element leads to.\<close>

definition cpls :: "u8 \<Rightarrow> u32 \<Rightarrow> u32 \<Rightarrow> TxDesc \<Rightarrow> CqDesc list" where
  "cpls ty qpn cqn d =
     (if isSignaled d then [\<lparr>cq_srvType = ty, cq_transType = tx_opcode d, cq_nop0 = 0, cq_nop1 = 0,
        cq_byteCnt = tx_len d, cq_qpn = qpn, cq_cqn = cqn\<rparr>] else [])"

lemma eng_postTxCpl:
  "postTxCpl ty qpn cqn d s = Inr s' \<Longrightarrow>
   rdmaEngine s' = (rdmaEngine s)\<lparr>rg2scFifo := rg2scFifo (rdmaEngine s) @ cpls ty qpn cqn d\<rparr>"
  by (auto simp: postTxCpl_def cpls_def Let_def postCqcReq_def new_CqcResc_def alloc_def new_CxtReqRsp_def)

lemma eng_rdmaReadRsp: "rdmaReadRsp rx we s = Inr s' \<Longrightarrow> rdmaEngine s' = rdmaEngine s"
  by (auto simp: rdmaReadRsp_def post_dataWrite_def new_bytes_def alloc_def Let_def ebind_def split: sum.splits)

lemma eng_rru_elem:
  assumes "rru_elem rx qpn cqn ack first we s = Inr s'"
  shows "rdmaEngine s' = (rdmaEngine s)\<lparr>rg2scFifo := rg2scFifo (rdmaEngine s) @ cpls QP_TYPE_RC qpn cqn (we_txDesc we)\<rparr>"
proof -
  obtain k where k: "deref_pkt (we_txPkt we) s = Inr k"
    using assms by (cases "deref_pkt (we_txPkt we) s") (auto simp: rru_elem_def ebind_def)
  consider "postTxCpl QP_TYPE_RC qpn cqn (we_txDesc we) s = Inr s'"
    | s1 where "rdmaReadRsp rx we s = Inr s1" "postTxCpl QP_TYPE_RC qpn cqn (we_txDesc we) s1 = Inr s'"
    using assms k by (auto simp: rru_elem_def Let_def ebind_def split: if_splits sum.splits)
  then show ?thesis
  proof cases
    case 1
    then show ?thesis by (rule eng_postTxCpl)
  next
    case 2
    then show ?thesis using eng_postTxCpl [OF 2(2)] eng_rdmaReadRsp [OF 2(1)] by simp
  qed
qed

lemma set_window_eng [simp]:
  "rdmaEngine (set_window n s) = (rdmaEngine s)\<lparr>windowSize := n, windowFull := (n \<ge> windowCap (rdmaEngine s))\<rparr>"
  by (simp add: set_window_def)

text \<open>The release loop takes exactly the elements up to the acknowledged number.\<close>

lemma rru_loop_spec:
  assumes "rru_loop rx qpn cqn ack False l first s = Inr ((l', first'), s')"
    and "sorted_wrt (<) (map we_psn l)" and "l \<noteq> [] \<longrightarrow> first = we_psn (hd l)"
  shows "l' = dropWhile (\<lambda>e. we_psn e \<le> ack) l \<and>
    windowSize (rdmaEngine s') =
      windowSize (rdmaEngine s) - of_nat (length (takeWhile (\<lambda>e. we_psn e \<le> ack) l)) \<and>
    rg2scFifo (rdmaEngine s') = rg2scFifo (rdmaEngine s) @
      concat (map (\<lambda>e. cpls QP_TYPE_RC qpn cqn (we_txDesc e)) (takeWhile (\<lambda>e. we_psn e \<le> ack) l)) \<and>
    sndWindowList (rdmaEngine s') = sndWindowList (rdmaEngine s) \<and> windowCap (rdmaEngine s') = windowCap (rdmaEngine s) \<and>
    ack < first' \<and> (l' \<noteq> [] \<longrightarrow> first' = we_psn (hd l'))"
  using assms
proof (induction l arbitrary: first s)
  case Nil
  then show ?case by (auto split: if_splits)
next
  case (Cons e l)
  show ?case
  proof (cases "ack < first")
    case True
    then have "\<not> we_psn e \<le> ack" using Cons.prems(3) by simp
    moreover have "l' = e # l" "first' = first" "s' = s" using Cons.prems(1) True by simp_all
    ultimately show ?thesis using True Cons.prems(3) by simp
  next
    case False
    let ?first = "case l of [] \<Rightarrow> first + 1 | we' # _ \<Rightarrow> we_psn we'"
    obtain s1 where s1: "rru_elem rx qpn cqn ack first e s = Inr s1"
        "rru_loop rx qpn cqn ack False l ?first (set_window (windowSize (rdmaEngine s1) - 1) s1) = Inr ((l', first'), s')"
      using Cons.prems(1) False by (cases "rru_elem rx qpn cqn ack first e s") (auto simp: ebind_def)
    have "l \<noteq> [] \<longrightarrow> ?first = we_psn (hd l)" by (cases l) simp_all
    moreover have "sorted_wrt (<) (map we_psn l)" using Cons.prems(2) by simp
    ultimately have IH: "l' = dropWhile (\<lambda>e. we_psn e \<le> ack) l"
        "windowSize (rdmaEngine s') = windowSize (rdmaEngine s1) - 1 - of_nat (length (takeWhile (\<lambda>e. we_psn e \<le> ack) l))"
        "rg2scFifo (rdmaEngine s') = rg2scFifo (rdmaEngine s1) @
           concat (map (\<lambda>e. cpls QP_TYPE_RC qpn cqn (we_txDesc e)) (takeWhile (\<lambda>e. we_psn e \<le> ack) l))"
        "sndWindowList (rdmaEngine s') = sndWindowList (rdmaEngine s1)"
        "windowCap (rdmaEngine s') = windowCap (rdmaEngine s1)"
        "ack < first'" "l' \<noteq> [] \<longrightarrow> first' = we_psn (hd l')"
      using Cons.IH [OF s1(2)] by simp_all
    have "we_psn e \<le> ack" using False Cons.prems(3) by simp
    then show ?thesis
      using IH eng_rru_elem [OF s1(1)] by (simp add: diff_diff_eq)
  qed
qed

text \<open>The loop does not run past the end of the list.\<close>

lemma u32_less_Suc: "(a :: u32) \<noteq> - 1 \<Longrightarrow> a < a + 1"
proof -
  assume "a \<noteq> - 1"
  then have "1 + a \<noteq> 0" by (metis add.commute add_eq_0_iff)
  then have "unat (1 + a) = Suc (unat a)" by (rule unatSuc)
  then show ?thesis by (simp add: word_less_nat_alt add.commute)
qed

lemma rru_elem_error:
  "rru_elem rx qpn cqn ack first we s \<noteq> Inl (Undefined ''front() of an empty list'')"
  by (auto simp: rru_elem_def ebind_def deref_pkt_def deref_def postTxCpl_def postCqcReq_def rdmaReadRsp_def
      pkt_copy_def ensure_def Let_def new_CxtReqRsp_def split: sum.splits option.splits obj.splits if_splits)

lemma rru_loop_no_underrun:
  assumes "sorted_wrt (<) (map we_psn l)" and "l \<noteq> [] \<longrightarrow> first = we_psn (hd l) \<and> ack \<le> we_psn (last l)"
    and "l = [] \<longrightarrow> ack < first" and "ack \<noteq> - 1"
  shows "rru_loop rx qpn cqn ack nak l first s \<noteq> Inl (Undefined ''front() of an empty list'')"
  using assms
proof (induction l arbitrary: first s)
  case (Cons e l)
  let ?first = "case l of [] \<Rightarrow> first + 1 | we' # _ \<Rightarrow> we_psn we'"
  show ?case
  proof (cases "first > ack \<or> first = ack \<and> nak")
    case False
    have "l = [] \<longrightarrow> ack < ?first"
    proof
      assume "l = []"
      then have "ack = first" using Cons.prems(2) False by (auto simp: not_less)
      then show "ack < ?first" using u32_less_Suc [OF Cons.prems(4)] \<open>l = []\<close> by simp
    qed
    moreover have "l \<noteq> [] \<longrightarrow> ?first = we_psn (hd l) \<and> ack \<le> we_psn (last l)"
      using Cons.prems(2) by (cases l) simp_all
    ultimately have "rru_loop rx qpn cqn ack nak l ?first s1 \<noteq> Inl (Undefined ''front() of an empty list'')" for s1
      using Cons.IH Cons.prems(1,4) by simp
    with False rru_elem_error [of rx qpn cqn ack first e s] show ?thesis
      by (cases "rru_elem rx qpn cqn ack first e s") (simp_all add: ebind_def del: not_less)
  qed simp
qed simp


text \<open>Accounting of the window: its size is the number of elements in the lists of all queue pairs.\<close>

definition win_total :: "(u32 \<Rightarrow> WinMapElem option) \<Rightarrow> nat" where
  "win_total L = (\<Sum>q\<in>dom L. length (wm_list (the (L q))))"

definition win_cnt :: "RdmaEngine \<Rightarrow> bool" where
  "win_cnt e \<longleftrightarrow>
     unat (windowSize e) = win_total (um_lookup (sndWindowList e)) \<and>
     windowFull e = (windowSize e \<ge> windowCap e) \<and> windowSize e \<le> windowCap e"

lemma win_total_upd:
  assumes "finite (dom L)"
  shows "win_total (L(q \<mapsto> w)) + (case L q of None \<Rightarrow> 0 | Some v \<Rightarrow> length (wm_list v)) = win_total L + length (wm_list w)"
proof -
  have split: "win_total M = (case M q of None \<Rightarrow> 0 | Some v \<Rightarrow> length (wm_list v)) +
      (\<Sum>k\<in>dom M - {q}. length (wm_list (the (M k))))" if "finite (dom M)" for M :: "u32 \<Rightarrow> WinMapElem option"
  proof (cases "M q")
    case None
    then show ?thesis using that by (simp add: win_total_def domIff)
  next
    case (Some v)
    then have "q \<in> dom M" by auto
    then show ?thesis using that Some by (simp add: win_total_def sum.remove)
  qed
  have "(\<Sum>k\<in>dom (L(q \<mapsto> w)) - {q}. length (wm_list (the ((L(q \<mapsto> w)) k))))
      = (\<Sum>k\<in>dom L - {q}. length (wm_list (the (L k))))"
    by (rule sum.cong) auto
  then show ?thesis using split [of L] split [of "L(q \<mapsto> w)"] assms by simp
qed

lemma rru_loop_count:
  "rru_loop rx qpn cqn ack nak l first s = Inr ((l', first'), s') \<Longrightarrow>
   length l' \<le> length l \<and>
   windowSize (rdmaEngine s') = windowSize (rdmaEngine s) - of_nat (length l - length l') \<and>
   sndWindowList (rdmaEngine s') = sndWindowList (rdmaEngine s) \<and> windowCap (rdmaEngine s') = windowCap (rdmaEngine s) \<and>
   windowFull (rdmaEngine s') =
     (if l' = l then windowFull (rdmaEngine s) else windowSize (rdmaEngine s') \<ge> windowCap (rdmaEngine s))"
proof (induction l arbitrary: first s)
  case Nil
  then show ?case by (auto split: if_splits)
next
  case (Cons e l)
  show ?case
  proof (cases "first > ack \<or> first = ack \<and> nak")
    case True
    then have "l' = e # l" "s' = s" using Cons.prems by auto
    then show ?thesis by simp
  next
    case False
    then obtain s1 where s1: "rru_elem rx qpn cqn ack first e s = Inr s1"
        "rru_loop rx qpn cqn ack nak l (case l of [] \<Rightarrow> first + 1 | we' # _ \<Rightarrow> we_psn we')
           (set_window (windowSize (rdmaEngine s1) - 1) s1) = Inr ((l', first'), s')"
      using Cons.prems unfolding rru_loop.simps if_not_P [OF False] by (auto simp: ebind_Inr)
    note IH = Cons.IH [OF s1(2)] and eng = eng_rru_elem [OF s1(1)]
    have len: "length l' \<le> length l" using IH by simp
    then have "length (e # l) - length l' = Suc (length l - length l')" by simp
    moreover have "l' \<noteq> e # l" using len by auto
    ultimately show ?thesis using IH eng by (simp add: diff_diff_eq)
  qed
qed


lemma win_cnt_rru:
  assumes inv: "win_cnt (rdmaEngine s)" and run: "rruProcessing s = Inr s'"
  shows "win_cnt (rdmaEngine s')"
proof -
  obtain rx rest k w where rx: "ra2rgFifo (rdmaEngine s) = rx # rest" "deref_pkt rx s = Inr k"
      "um_lookup (sndWindowList (rdmaEngine s)) (bth_qpn (pkt_bth k)) = Some w"
      and rel: "rru_release rx (bth_qpn (pkt_bth k)) (bth_psn (pkt_bth k))
        (drop_bit 24 (syndrome_msn (pkt_aeth k)) = ucast RSP_NAK) w
        (upd_eng (\<lambda>e. e\<lparr>ra2rgFifo := rest\<rparr>) s) = Inr s'"
    using run by (auto simp: rruProcessing_def Let_def ebind_Inr split: list.splits option.splits)
  let ?q = "bth_qpn (pkt_bth k)" and ?L = "um_lookup (sndWindowList (rdmaEngine s))"
  obtain l' f' s1 where loop: "rru_loop rx ?q (wm_cqn w) (bth_psn (pkt_bth k))
      (drop_bit 24 (syndrome_msn (pkt_aeth k)) = ucast RSP_NAK) (wm_list w) (wm_firstPsn w)
      (upd_eng (\<lambda>e. e\<lparr>ra2rgFifo := rest\<rparr>) s) = Inr ((l', f'), s1)"
      and s': "s' = upd_eng (\<lambda>e. e\<lparr>sndWindowList := um_assign (sndWindowList e) ?q
               (w\<lparr>wm_list := l', wm_firstPsn := f'\<rparr>)\<rparr>) s1"
    using rel by (auto simp: rru_release_def ebind_Inr split: if_splits)
  note c = rru_loop_count [OF loop]
  have fin: "finite (dom ?L)" by (rule um.finite_dom)
  have tot: "win_total (?L(?q \<mapsto> w\<lparr>wm_list := l', wm_firstPsn := f'\<rparr>)) + length (wm_list w) = win_total ?L + length l'"
    using win_total_upd [OF fin, of ?q "w\<lparr>wm_list := l', wm_firstPsn := f'\<rparr>"] rx(3) by simp
  have sz: "unat (windowSize (rdmaEngine s)) = win_total ?L" using inv by (simp add: win_cnt_def)
  let ?d = "length (wm_list w) - length l'"
  have d: "?d \<le> win_total ?L" using tot c by linarith
  then have "?d < 2 ^ 32" using sz unsigned_less [of "windowSize (rdmaEngine s)", where ?'a = nat] by simp
  then have ud: "unat (of_nat ?d :: u32) = ?d" by (simp add: unat_of_nat)
  then have "unat (windowSize (rdmaEngine s) - of_nat ?d) = win_total ?L - ?d"
    using d sz by (simp add: unat_sub word_le_nat_alt)
  moreover have "windowSize (rdmaEngine s) - of_nat ?d \<le> windowSize (rdmaEngine s)"
    using d sz ud by (simp add: word_le_nat_alt unat_sub)
  ultimately show ?thesis
    using c inv tot d by (auto simp: s' win_cnt_def um.lookup_assign split: if_splits)
qed


text \<open>What request generation does to the window: one more element exactly for a packet that asks for
  an acknowledgement, which is one of a reliable connection.\<close>

definition win_part :: "RdmaEngine \<Rightarrow> (u32, WinMapElem) umap \<times> u32 \<times> u32 \<times> bool" where
  "win_part e = (sndWindowList e, windowSize e, windowCap e, windowFull e)"

lemma win_cnt_part: "win_part e = win_part e' \<Longrightarrow> win_cnt e = win_cnt e'"
  by (simp add: win_part_def win_cnt_def)

lemma rgu_headers_ack: "rgu_headers d q pos psn = Inr (h, True) \<Longrightarrow> qpType q = QP_TYPE_RC"
  by (auto simp: rgu_headers_def split: if_splits)

lemma win_rgu_data: "rgu_data d s = Inr s' \<Longrightarrow> rdmaEngine s' = rdmaEngine s \<and> heap s' = heap s"
  by (auto simp: rgu_data_def split: if_splits list.splits)

lemma win_upd_pkt: "upd_pkt p f s = Inr s' \<Longrightarrow> rdmaEngine s' = rdmaEngine s"
  by (auto simp: upd_pkt_def ebind_Inr heap_set_def)

lemma eng_heap_set [simp]: "rdmaEngine (heap_set p ob s) = rdmaEngine s"
  by (simp add: heap_set_def)

lemma eng_delete_obj: "delete_obj p s = Inr s' \<Longrightarrow> rdmaEngine s' = rdmaEngine s"
  by (auto simp: delete_obj_def ebind_Inr)

lemma win_rgu_finish:
  assumes "rgu_finish p q a d s = Inr s'"
  shows "win_part (rdmaEngine s') = win_part (rdmaEngine s)"
proof -
  obtain q' where q': "rgu_qpc q = Inr q'" using assms by (auto simp: rgu_finish_def Let_def ebind_Inr)
  let ?s = "heap_set p (OQpc q') (upd_eng (\<lambda>e. e\<lparr>messageEnd := a\<rparr>) s)"
  have "\<not> (\<not> a \<and> messageEnd (rdmaEngine ?s) \<and> qpType q' \<noteq> QP_TYPE_RC)" by simp
  then have "(if messageEnd (rdmaEngine ?s) then delete_obj p ?s else Inr ?s) = Inr s'"
    using assms q' by (auto simp: rgu_finish_def Let_def)
  then show ?thesis
    by (auto simp: win_part_def split: if_splits dest: eng_delete_obj)
qed

lemma win_cnt_rgu_window:
  assumes inv: "win_cnt (rdmaEngine s)" and nf: "\<not> windowFull (rdmaEngine s)"
    and run: "rgu_window p q psn d s = Inr s'"
  shows "win_cnt (rdmaEngine s')"
proof -
  let ?L = "um_lookup (sndWindowList (rdmaEngine s))"
  let ?w = "rgu_window_elem \<lparr>we_txPkt = p, we_qpn = srcQpn q, we_psn = psn, we_txDesc = d\<rparr> (qpc_cqn q) (?L (srcQpn q))"
  have s': "rdmaEngine s' = (rdmaEngine s)\<lparr>sndWindowList := um_assign (sndWindowList (rdmaEngine s)) (srcQpn q) ?w,
      windowSize := windowSize (rdmaEngine s) + 1,
      windowFull := windowCap (rdmaEngine s) \<le> windowSize (rdmaEngine s) + 1\<rparr>"
    using run by (auto simp: rgu_window_def Let_def ensure_def split: if_splits)
  have lt: "windowSize (rdmaEngine s) < windowCap (rdmaEngine s)" using inv nf by (simp add: win_cnt_def not_le)
  then have ne: "1 + windowSize (rdmaEngine s) \<noteq> 0"
    by (metis add_eq_0_iff leD word_n1_ge)
  then have sz: "unat (windowSize (rdmaEngine s) + 1) = Suc (unat (windowSize (rdmaEngine s)))"
    using unatSuc [OF ne] by (simp add: add.commute)
  have "length (wm_list ?w) = Suc (case ?L (srcQpn q) of None \<Rightarrow> 0 | Some v \<Rightarrow> length (wm_list v))"
    by (auto simp: rgu_window_elem_def split: option.splits)
  then have "win_total (?L(srcQpn q \<mapsto> ?w)) = Suc (win_total ?L)"
    using win_total_upd [OF um.finite_dom, of "sndWindowList (rdmaEngine s)" "srcQpn q" ?w] by simp
  moreover have "windowSize (rdmaEngine s) + 1 \<le> windowCap (rdmaEngine s)"
    using lt sz by (simp add: word_less_nat_alt word_le_nat_alt)
  ultimately show ?thesis
    using inv sz by (simp add: s' win_cnt_def um.lookup_assign)
qed

lemma win_cnt_rgu:
  assumes inv: "win_cnt (rdmaEngine s)" and blk: "isWindowBlocked s = Inr False" and run: "rguProcessing s = Inr s'"
  shows "win_cnt (rdmaEngine s')"
proof -
  obtain dp rest s1 q ha s2 s3 where dp: "dp2rgFifo (rdmaEngine s) = dp # rest"
      and r: "rgu_data (dp_desc dp) (upd_eng (\<lambda>e. e\<lparr>dp2rgFifo := rest\<rparr>) s) = Inr s1"
        "deref_qpc (Some (dp_qpc dp)) s1 = Inr q"
        "rgu_headers (dp_desc dp) q (dp_pktPos dp) (dp_pktPsn dp) = Inr ha"
        "upd_pkt (dp_txPkt dp) (rgu_fill (dp_desc dp) q (fst ha) (dp_pldLen dp)) s1 = Inr s2"
        "(if snd ha then rgu_window (dp_txPkt dp) q (dp_pktPsn dp) (dp_desc dp) s2 else Inr s2) = Inr s3"
        "rgu_finish (dp_qpc dp) q (snd ha) (dp_desc dp) (rgu_send (dp_txPkt dp) s3) = Inr s'"
    using run by (auto simp: rguProcessing_def ebind_Inr split: list.splits)
  have e2: "win_part (rdmaEngine s2) = win_part (rdmaEngine s)"
    using win_rgu_data [OF r(1)] win_upd_pkt [OF r(4)] by (simp add: win_part_def)
  then have c2: "win_cnt (rdmaEngine s2)" using inv win_cnt_part by blast
  have "win_cnt (rdmaEngine s3)"
  proof (cases "snd ha")
    case True
    then have rc: "qpType q = QP_TYPE_RC" using r(3) rgu_headers_ack by (metis prod.collapse)
    have "heap s1 = heap s" using win_rgu_data [OF r(1)] by (simp add: upd_eng_def)
    then have "deref_qpc (Some (dp_qpc dp)) s = Inr q" using r(2) by (simp add: deref_qpc_def deref_def cong: if_cong)
    then have "\<not> windowFull (rdmaEngine s)" using blk dp rc by (auto simp: isWindowBlocked_def split: if_splits)
    then have "\<not> windowFull (rdmaEngine s2)" using e2 by (simp add: win_part_def)
    then show ?thesis using win_cnt_rgu_window [OF c2] r(5) True by simp
  next
    case False
    then show ?thesis using r(5) c2 by simp
  qed
  then show ?thesis
    using win_rgu_finish [OF r(6)] win_cnt_part by (simp add: rgu_send_def win_part_def win_cnt_def)
qed


lemma win_cnt_tail: "win_cnt (rdmaEngine (rgrr_tail s)) = win_cnt (rdmaEngine s)"
  by (simp add: rgrr_tail_def)

lemma win_elem_release:
  assumes w: "win_elem_ok w" and l: "l' = dropWhile (\<lambda>e. we_psn e \<le> ack) (wm_list w)"
    and f: "ack < first'" "l' \<noteq> [] \<longrightarrow> first' = we_psn (hd l')"
    and ne: "wm_list w \<noteq> []"
  shows "win_elem_ok (w\<lparr>wm_list := l', wm_firstPsn := first'\<rparr>)"
proof (cases "l' = []")
  case True
  then have "we_psn (last (wm_list w)) \<le> ack" using l ne by simp
  then show ?thesis using w f(1) ne True by (auto simp: win_elem_ok_def)
next
  case False
  obtain pre where pre: "wm_list w = pre @ l'" using l by (metis takeWhile_dropWhile_id)
  then have "last (wm_list w) = last l'" using False by simp_all
  moreover have "sorted_wrt (<) (map we_psn l')" using w pre by (simp add: win_elem_ok_def sorted_wrt_append)
  ultimately show ?thesis using w f ne False by (simp add: win_elem_ok_def)
qed

lemma bth_psn_less: "bth_psn h < 0x1000000"
proof -
  have "bth_psn h \<le> 0xFFFFFF" by (simp add: bth_psn_def word_and_le1)
  then show ?thesis by (rule order_le_less_trans) simp
qed

text \<open>The loop succeeds on packets whose release needs nothing but the acknowledgement.\<close>

definition ackable :: "rnic \<Rightarrow> WindowElem \<Rightarrow> bool" where
  "ackable s e \<longleftrightarrow> (case deref_pkt (we_txPkt e) s of
     Inr k \<Rightarrow> bth_op (pkt_bth k) \<in> {ucast PKT_TRANS_SEND_ONLY, ucast PKT_TRANS_RWRITE_ONLY, ucast PKT_TRANS_RWRITE_LAST}
   | Inl _ \<Rightarrow> False)"

lemma postTxCpl_total:
  "\<exists>s'. postTxCpl ty qpn cqn d s = Inr s' \<and> (\<forall>p k. deref_pkt p s = Inr k \<longrightarrow> deref_pkt p s' = Inr k)"
  by (auto simp: postTxCpl_def postCqcReq_def new_CxtReqRsp_def new_CqcResc_def alloc_def Let_def upd_eng_def
      deref_pkt_def deref_def nth_append ebind_Inr split: option.splits if_splits)

lemma rru_elem_total:
  assumes "ackable s e"
  shows "\<exists>s'. rru_elem rx qpn cqn ack first e s = Inr s' \<and> (\<forall>d n. ackable s d \<longrightarrow> ackable (set_window n s') d)"
proof -
  obtain s' where s': "postTxCpl QP_TYPE_RC qpn cqn (we_txDesc e) s = Inr s'"
      "\<forall>p k. deref_pkt p s = Inr k \<longrightarrow> deref_pkt p s' = Inr k"
    using postTxCpl_total by blast
  have "ackable s d \<Longrightarrow> ackable (set_window n s') d" for d n
    using s'(2) by (auto simp: ackable_def set_window_def split: sum.splits)
  moreover have "rru_elem rx qpn cqn ack first e s = Inr s'"
    using assms s'(1) by (auto simp: ackable_def rru_elem_def split: sum.splits)
  ultimately show ?thesis by blast
qed

lemma rru_loop_total:
  assumes "sorted_wrt (<) (map we_psn l)" and "l \<noteq> [] \<longrightarrow> first = we_psn (hd l) \<and> ack \<le> we_psn (last l)"
    and "l = [] \<longrightarrow> ack < first" and "ack \<noteq> - 1" and "\<forall>e\<in>set l. ackable s e"
  shows "\<exists>r. rru_loop rx qpn cqn ack nak l first s = Inr r"
  using assms
proof (induction l arbitrary: first s)
  case (Cons e l)
  let ?first = "case l of [] \<Rightarrow> first + 1 | we' # _ \<Rightarrow> we_psn we'"
  show ?case
  proof (cases "first > ack \<or> first = ack \<and> nak")
    case False
    obtain s1 where s1: "rru_elem rx qpn cqn ack first e s = Inr s1" 
        "\<forall>d n. ackable s d \<longrightarrow> ackable (set_window n s1) d"
      using rru_elem_total Cons.prems(5) by (metis list.set_intros(1))
    have "l = [] \<longrightarrow> ack < ?first"
    proof
      assume "l = []"
      then have "ack = first" using Cons.prems(2) False by (auto simp: not_less)
      then show "ack < ?first" using u32_less_Suc [OF Cons.prems(4)] \<open>l = []\<close> by simp
    qed
    moreover have "l \<noteq> [] \<longrightarrow> ?first = we_psn (hd l) \<and> ack \<le> we_psn (last l)"
      using Cons.prems(2) by (cases l) simp_all
    moreover have "\<forall>d\<in>set l. ackable (set_window n s1) d" for n
      using s1(2) Cons.prems(5) by simp
    moreover have "sorted_wrt (<) (map we_psn l)" using Cons.prems(1) by simp
    ultimately obtain r where "rru_loop rx qpn cqn ack nak l ?first (set_window (windowSize (rdmaEngine s1) - 1) s1) = Inr r"
      using Cons.IH [OF _ _ _ Cons.prems(4)] by metis
    then show ?thesis using s1(1) unfolding rru_loop.simps if_not_P [OF False] by simp
  qed simp
qed simp

lemma rru_total:
  assumes "ra2rgFifo (rdmaEngine s) = rx # rest" and "deref_pkt rx s = Inr k"
    and "um_lookup (sndWindowList (rdmaEngine s)) (bth_qpn (pkt_bth k)) = Some w" and "win_elem_ok w"
    and "wm_firstPsn w \<le> bth_psn (pkt_bth k)" and "bth_psn (pkt_bth k) \<le> wm_lastPsn w"
    and "\<forall>e\<in>set (wm_list w). ackable s e"
  shows "\<exists>s'. rruProcessing s = Inr s'"
proof -
  let ?t = "upd_eng (\<lambda>e. e\<lparr>ra2rgFifo := rest\<rparr>) s"
  have "wm_list w \<noteq> []" using assms(4-6) by (auto simp: win_elem_ok_def split: if_splits)
  moreover have "bth_psn (pkt_bth k) \<noteq> - 1" using bth_psn_less [of "pkt_bth k"] by auto
  moreover have "\<forall>e\<in>set (wm_list w). ackable ?t e" using assms(7) by (simp add: ackable_def)
  ultimately have "\<exists>r. rru_loop rx (bth_qpn (pkt_bth k)) (wm_cqn w) (bth_psn (pkt_bth k)) n (wm_list w) (wm_firstPsn w) ?t = Inr r" for n
    using assms(4,6) by (intro rru_loop_total) (auto simp: win_elem_ok_def)
  then obtain r where "rru_loop rx (bth_qpn (pkt_bth k)) (wm_cqn w) (bth_psn (pkt_bth k))
      (drop_bit 24 (syndrome_msn (pkt_aeth k)) = ucast RSP_NAK) (wm_list w) (wm_firstPsn w) ?t = Inr r" by blast
  then show ?thesis
    using assms(1-3,5,6) by (simp add: rruProcessing_def rru_release_def Let_def leD)
qed

section \<open>Properties of the send window and of the headers\<close>

text \<open>
  Examples: queue pair 5 of the small device has the given window, and the packets are those of the
  heap, the first one received as an answer.
\<close>

definition ex_desc :: "u32 \<Rightarrow> TxDesc" where
  "ex_desc fl = \<lparr>tx_len = 64, tx_lkey = 1, tx_lVaddr = 0, tx_w0 = 2, tx_w1 = 0, tx_w2 = 0, tx_flags = fl\<rparr>"

definition ex_pkt :: "u8 list \<Rightarrow> EthPacket" where
  "ex_pkt hdrs = pkt_put 12 hdrs (new_EthPacket 16384 (\<lambda>_. 0))"

definition ex_ack :: "u32 \<Rightarrow> EthPacket" where
  "ex_ack psn = ex_pkt (enc_BTH (mk_bth QP_TYPE_RC PKT_TRANS_ACK 5 False psn) @
                        enc_AETH \<lparr>syndrome_msn = push_bit 24 (ucast RSP_ACK)\<rparr> @ [])"

definition ex_req :: "u8 \<Rightarrow> u32 \<Rightarrow> EthPacket" where
  "ex_req tr psn = ex_pkt (enc_BTH (mk_bth QP_TYPE_RC tr 8 True psn) @ [])"

definition ex_elem :: "nat \<Rightarrow> u32 \<Rightarrow> u32 \<Rightarrow> WindowElem" where
  "ex_elem p psn fl = \<lparr>we_txPkt = p, we_qpn = 5, we_psn = psn, we_txDesc = ex_desc fl\<rparr>"

definition ex_wm :: "WindowElem list \<Rightarrow> WinMapElem" where
  "ex_wm es = \<lparr>wm_list = es, wm_firstPsn = we_psn (hd es), wm_lastPsn = we_psn (last es), wm_cqn = 9\<rparr>"

definition ex_dev :: "WindowElem list \<Rightarrow> EthPacket list \<Rightarrow> rnic" where
  "ex_dev es ks =
     upd_eng (\<lambda>e. e\<lparr>sndWindowList := um_assign um_empty 5 (ex_wm es),
              windowSize := of_nat (length es), ra2rgFifo := [0]\<rparr>)
       (dev0\<lparr>heap := map (\<lambda>k. Some (OPkt k)) ks\<rparr>)"

lemma ex_ack_bth [simp]: "pkt_bth (ex_ack psn) = mk_bth QP_TYPE_RC PKT_TRANS_ACK 5 False psn"
  unfolding ex_ack_def ex_pkt_def by (rule pkt_bth_put)

lemma ex_ack_aeth [simp]: "pkt_aeth (ex_ack psn) = \<lparr>syndrome_msn = push_bit 24 (ucast RSP_ACK)\<rparr>"
  unfolding ex_ack_def ex_pkt_def by (rule pkt_aeth_put)

lemma ex_req_bth [simp]: "pkt_bth (ex_req tr psn) = mk_bth QP_TYPE_RC tr 8 True psn"
  unfolding ex_req_def ex_pkt_def by (rule pkt_bth_put)

lemma ex_dev_eng:
  "rdmaEngine (ex_dev es ks) = (new_RdmaEngine 2)\<lparr>sndWindowList := um_assign um_empty 5 (ex_wm es),
      windowSize := of_nat (length es), ra2rgFifo := [0]\<rparr>"
  by (simp add: ex_dev_def dev0_eng)

lemma ex_dev_win: "um_lookup (sndWindowList (rdmaEngine (ex_dev es ks))) 5 = Some (ex_wm es)"
  by (simp add: ex_dev_eng um.lookup_assign)

lemma ex_dev_pkt: "p < length ks \<Longrightarrow> deref_pkt p (ex_dev es ks) = Inr (ks ! p)"
  by (simp add: ex_dev_def deref_pkt_def deref_def upd_eng_def)

definition ex_w :: WinMapElem where
  "ex_w = \<lparr>wm_list = [ex_elem 1 3 0x80000003, ex_elem 1 4 3, ex_elem 1 6 0x80000003],
     wm_firstPsn = 3, wm_lastPsn = 6, wm_cqn = 9\<rparr>"

definition ex_sent :: rnic where
  "ex_sent = ex_dev (wm_list ex_w) [ex_ack 4, ex_req PKT_TRANS_RWRITE_ONLY 3]"

lemma ex_sent_eng:
  "rdmaEngine ex_sent = (new_RdmaEngine 2)\<lparr>sndWindowList := um_assign um_empty 5 ex_w,
      windowSize := 3, ra2rgFifo := [0]\<rparr>"
  by (simp add: ex_sent_def ex_dev_eng ex_elem_def ex_w_def ex_wm_def)

lemma ex_sent_pkt: "deref_pkt 0 ex_sent = Inr (ex_ack 4)" "deref_pkt (Suc 0) ex_sent = Inr (ex_req PKT_TRANS_RWRITE_ONLY 3)"
  by (simp_all add: ex_sent_def ex_dev_pkt)

lemma ex_sent_win: "um_lookup (sndWindowList (rdmaEngine ex_sent)) = [5 \<mapsto> ex_w]"
  by (simp add: ex_sent_eng um.lookup_assign) (simp add: um_empty_def um_lookup_def fun_eq_iff)

lemma ex_w_ok: "win_elem_ok ex_w"
  by (simp add: ex_w_def win_elem_ok_def ex_elem_def)

lemma ex_sent_runs: "\<exists>s'. rruProcessing ex_sent = Inr s'" "\<exists>s'. rgrrProcessing ex_sent = Inr s'"
proof -
  have "\<forall>e\<in>set (wm_list ex_w). ackable ex_sent e"
    by (simp add: ex_w_def ackable_def ex_elem_def ex_sent_pkt mk_bth_op)
  then show r: "\<exists>s'. rruProcessing ex_sent = Inr s'"
    by (intro rru_total [where rx = 0 and rest = "[]" and k = "ex_ack 4" and w = ex_w, OF _ _ _ ex_w_ok])
      (simp_all add: ex_sent_win mk_bth_qpn mk_bth_psn ex_sent_pkt, simp_all add: ex_sent_eng ex_w_def)
  then show "\<exists>s'. rgrrProcessing ex_sent = Inr s'"
    by (auto simp: rgrrProcessing_def isRspRecv_def ex_sent_eng)
qed

lemma ex_sent_cnt: "win_cnt (rdmaEngine ex_sent)"
  by (simp add: win_cnt_def win_total_def ex_sent_win)
    (simp add: ex_sent_eng ex_w_def new_RdmaEngine_def)

text \<open>
  C13. The receiver reads what the sender wrote: in a packet of a reliable connection the destination
  queue pair, the sequence number, the kind of packet, the request for an acknowledgement, the
  destination address and, where the packet carries it, the remote address header come back as they
  were in the queue pair context and the descriptor, as long as numbers fit their 24 bits.
\<close>

theorem request_headers_roundtrip:
  assumes "rgu_headers d q pos psn = Inr (h, a)" and "qpType q = QP_TYPE_RC"
    and "pos \<in> {PKT_FIRST, PKT_MIDDLE, PKT_LAST, PKT_ONLY}"
    and "destQpn q < 0x1000000" and "num = (if tx_opcode d = OPCODE_RDMA_WRITE then psn else sndPsn q)"
    and "num < 0x1000000" and "r = rgu_fill d q h len k"
  shows "bth_qpn (pkt_bth r) = destQpn q \<and> bth_psn (pkt_bth r) = num \<and>
    bth_op (pkt_bth r) = ucast (trans_of d pos) \<and>
    (drop_bit 24 (needAck_psn (pkt_bth r)) AND 1 \<noteq> 0 \<longleftrightarrow> a) \<and>
    (has_reth d pos \<longrightarrow> pkt_reth r = desc_reth d) \<and> pkt_get 0 6 r = setMacAddr (ucast (dLid q))"
proof -
  let ?b = "mk_bth QP_TYPE_RC (trans_of d pos) (destQpn q) a num"
  have h: "h = enc_BTH ?b @ (if has_reth d pos then enc_RETH (desc_reth d) else [])"
    using rgu_headers_shape [OF assms(1-3)] assms(5) by simp
  have "pkt_bth r = ?b"
    using pkt_bth_put [of ?b] by (simp add: pkt_bth_def assms(7) rgu_fill_hdrs h)
  moreover have "trans_of d pos < 32" by (simp add: trans_of_def)
  moreover have "has_reth d pos \<Longrightarrow> pkt_reth r = desc_reth d"
    using pkt_reth_put [of ?b "desc_reth d" "[]"] by (simp add: pkt_reth_def assms(7) rgu_fill_hdrs h)
  ultimately show ?thesis
    using assms(2,4,6) by (simp add: mk_bth_qpn mk_bth_psn mk_bth_op mk_bth_ack assms(7) rgu_fill_dmac)
qed

lemma request_headers_roundtrip_witness:
  "\<exists>h. rgu_headers (ex_desc 3) qpc_sample PKT_ONLY 7 = Inr (h, True) \<and>
     bth_psn (pkt_bth (rgu_fill (ex_desc 3) qpc_sample h 64 (ex_pkt []))) = 7"
proof -
  obtain h where h: "rgu_headers (ex_desc 3) qpc_sample PKT_ONLY 7 = Inr (h, True)"
    by (simp add: rgu_headers_def ex_desc_def tx_opcode_def qpc_sample_def)
  then show ?thesis
    using request_headers_roundtrip [OF h _ _ _ refl _ refl, of 64 "ex_pkt []"]
    by (simp add: ex_desc_def tx_opcode_def qpc_sample_def)
qed



text \<open>
  C6. An acknowledgement releases exactly the packets up to its sequence number, in order: a
  completion is posted for each signalled one, the window shrinks by their number, the windows of
  other queue pairs stay, and the remaining list starts with the packet after the acknowledged one.
\<close>

theorem rru_release_exact:
  assumes "ra2rgFifo (rdmaEngine s) = rx # rest" and "deref_pkt rx s = Inr k"
    and "drop_bit 24 (syndrome_msn (pkt_aeth k)) \<noteq> ucast RSP_NAK"
    and "um_lookup (sndWindowList (rdmaEngine s)) (bth_qpn (pkt_bth k)) = Some w" and "win_elem_ok w"
    and "acked = takeWhile (\<lambda>e. we_psn e \<le> bth_psn (pkt_bth k)) (wm_list w)"
    and "rruProcessing s = Inr s'"
  shows "rg2scFifo (rdmaEngine s') = rg2scFifo (rdmaEngine s) @
      concat (map (\<lambda>e. cpls QP_TYPE_RC (bth_qpn (pkt_bth k)) (wm_cqn w) (we_txDesc e)) acked) \<and>
    windowSize (rdmaEngine s') = windowSize (rdmaEngine s) - of_nat (length acked) \<and>
    (\<exists>first. um_lookup (sndWindowList (rdmaEngine s')) =
       (um_lookup (sndWindowList (rdmaEngine s)))(bth_qpn (pkt_bth k) \<mapsto>
          w\<lparr>wm_list := drop (length acked) (wm_list w), wm_firstPsn := first\<rparr>) \<and>
       bth_psn (pkt_bth k) < first \<and>
       win_elem_ok (w\<lparr>wm_list := drop (length acked) (wm_list w), wm_firstPsn := first\<rparr>))"
proof -
  let ?q = "bth_qpn (pkt_bth k)" and ?a = "bth_psn (pkt_bth k)"
  let ?s = "upd_eng (\<lambda>e. e\<lparr>ra2rgFifo := rest\<rparr>) s"
  obtain l' f' s1 where loop: "rru_loop rx ?q (wm_cqn w) ?a False (wm_list w) (wm_firstPsn w) ?s = Inr ((l', f'), s1)"
      and s': "s' = upd_eng (\<lambda>e. e\<lparr>sndWindowList := um_assign (sndWindowList e) ?q
               (w\<lparr>wm_list := l', wm_firstPsn := f'\<rparr>)\<rparr>) s1"
    and rng: "wm_firstPsn w \<le> ?a" "?a \<le> wm_lastPsn w"
    using assms(1-4,7) by (auto simp: rruProcessing_def rru_release_def Let_def ebind_Inr not_less split: if_splits)
  have ne: "wm_list w \<noteq> []" using assms(5) rng by (auto simp: win_elem_ok_def split: if_splits)
  have "sorted_wrt (<) (map we_psn (wm_list w))" "wm_list w \<noteq> [] \<longrightarrow> wm_firstPsn w = we_psn (hd (wm_list w))"
    using assms(5) by (simp_all add: win_elem_ok_def)
  note spec = rru_loop_spec [OF loop this]
  have "win_elem_ok (w\<lparr>wm_list := l', wm_firstPsn := f'\<rparr>)"
    using spec ne by (intro win_elem_release [OF assms(5)]) auto
  moreover have "dropWhile (\<lambda>e. we_psn e \<le> ?a) (wm_list w) = drop (length acked) (wm_list w)"
    unfolding assms(6) by (rule dropWhile_eq_drop)
  ultimately show ?thesis
    using spec assms(6) by (auto simp: s' um.lookup_assign)
qed

lemma rru_release_exact_witness:
  "\<exists>s'. rruProcessing ex_sent = Inr s' \<and> windowSize (rdmaEngine s') = 1 \<and>
     length (rg2scFifo (rdmaEngine s')) = 1"
proof -
  obtain s' where s': "rruProcessing ex_sent = Inr s'" using ex_sent_runs(1) by blast
  have "takeWhile (\<lambda>e. we_psn e \<le> 4) (wm_list ex_w) = [ex_elem 1 3 0x80000003, ex_elem 1 4 3]"
    by (simp add: ex_w_def ex_elem_def)
  then show ?thesis
    using rru_release_exact [of ex_sent 0 "[]" "ex_ack 4" ex_w, OF _ _ _ _ ex_w_ok refl s'] s'
    by (simp add: ex_sent_win mk_bth_qpn mk_bth_psn ex_sent_pkt)
      (simp add: ex_sent_eng new_RdmaEngine_def cpls_def ex_elem_def ex_desc_def isSignaled_def ex_w_def)
qed

text \<open>
  C11. An acknowledgement inside the window is always taken: when the packets that wait are sends and
  writes, the response unit processes it without an error.
\<close>

theorem ack_is_processed:
  assumes "ra2rgFifo (rdmaEngine s) = rx # rest" and "deref_pkt rx s = Inr k"
    and "um_lookup (sndWindowList (rdmaEngine s)) (bth_qpn (pkt_bth k)) = Some w" and "win_elem_ok w"
    and "wm_firstPsn w \<le> bth_psn (pkt_bth k)" and "bth_psn (pkt_bth k) \<le> wm_lastPsn w"
    and "\<forall>e\<in>set (wm_list w). ackable s e"
  shows "\<exists>s'. rgrrProcessing s = Inr s'"
  using rru_total [OF assms] assms(1) by (auto simp: rgrrProcessing_def isRspRecv_def)

lemma ack_is_processed_witness: "\<exists>s'. rgrrProcessing ex_sent = Inr s'"
proof -
  have "\<forall>e\<in>set (wm_list ex_w). ackable ex_sent e"
    by (simp add: ex_w_def ackable_def ex_elem_def ex_sent_pkt mk_bth_op)
  then show ?thesis
    by (intro ack_is_processed [where rx = 0 and rest = "[]" and k = "ex_ack 4" and w = ex_w, OF _ _ _ ex_w_ok])
      (simp_all add: ex_sent_win mk_bth_qpn mk_bth_psn ex_sent_pkt, simp_all add: ex_sent_eng ex_w_def)
qed

text \<open>
  C12. The release loop never runs off the end of the window list: with a consistent window, whatever
  acknowledgement arrives, the front of an empty list is never read.
\<close>

theorem rru_no_underrun:
  assumes "\<And>q w. um_lookup (sndWindowList (rdmaEngine s)) q = Some w \<Longrightarrow> win_elem_ok w"
  shows "rruProcessing s \<noteq> Inl (Undefined ''front() of an empty list'')"
proof
  assume run: "rruProcessing s = Inl (Undefined ''front() of an empty list'')"
  obtain rx rest k w where a: "um_lookup (sndWindowList (rdmaEngine s)) (bth_qpn (pkt_bth k)) = Some w"
      and rel: "rru_release rx (bth_qpn (pkt_bth k)) (bth_psn (pkt_bth k))
        (drop_bit 24 (syndrome_msn (pkt_aeth k)) = ucast RSP_NAK) w
        (upd_eng (\<lambda>e. e\<lparr>ra2rgFifo := rest\<rparr>) s) = Inl (Undefined ''front() of an empty list'')"
    using run by (auto simp: rruProcessing_def Let_def ebind_def deref_pkt_def deref_def
        split: list.splits option.splits sum.splits obj.splits if_splits)
  let ?a = "bth_psn (pkt_bth k)"
  have w: "win_elem_ok w" using assms a by blast
  have rng: "wm_firstPsn w \<le> ?a" "?a \<le> wm_lastPsn w"
    using rel by (auto simp: rru_release_def not_less split: if_splits)
  have "wm_list w \<noteq> []" using w rng by (auto simp: win_elem_ok_def split: if_splits)
  moreover have "?a \<noteq> - 1" using bth_psn_less [of "pkt_bth k"] by auto
  ultimately have "rru_loop rx q c ?a n (wm_list w) (wm_firstPsn w) t \<noteq> Inl (Undefined ''front() of an empty list'')" for q c n t
    using w rng by (intro rru_loop_no_underrun) (auto simp: win_elem_ok_def)
  then show False
    using rel rng by (auto simp: rru_release_def ebind_def split: sum.splits if_splits)
qed

section \<open>What goes wrong\<close>

lemma rru_no_underrun_witness: "rruProcessing ex_sent \<noteq> Inl (Undefined ''front() of an empty list'')"
  by (rule rru_no_underrun) (use ex_w_ok in \<open>simp add: ex_sent_win split: if_splits\<close>)



lemma rgu_headers_UD: "rgu_headers d q pos psn = Inr (h, a) \<Longrightarrow> qpType q \<noteq> QP_TYPE_RC \<Longrightarrow> \<not> a"
  by (auto simp: rgu_headers_def split: if_splits)

text \<open>
  C39. A datagram that has been sent never completes: the unit queues no completion for it, asks for
  no completion queue context, and keeps the copy of the queue pair context it was handed.
\<close>

theorem ud_send_never_completes:
  assumes "dp2rgFifo (rdmaEngine s) = dp # rest" and "deref_qpc (Some (dp_qpc dp)) s = Inr q"
    and "qpType q = QP_TYPE_UD" and "dp_qpc dp \<noteq> dp_txPkt dp" and "rguProcessing s = Inr s'"
  shows "txsauFifo (rdmaEngine s') = txsauFifo (rdmaEngine s) @ [dp_txPkt dp] \<and>
    rg2scFifo (rdmaEngine s') = rg2scFifo (rdmaEngine s) \<and> txCqcReqFifo s' = txCqcReqFifo s \<and>
    (\<exists>q'. deref_qpc (Some (dp_qpc dp)) s' = Inr q')"
proof -
  let ?t = "upd_eng (\<lambda>e. e\<lparr>dp2rgFifo := rest\<rparr>) s"
  obtain s1 q1 h a s2 s3 where r: "rgu_data (dp_desc dp) ?t = Inr s1"
        "deref_qpc (Some (dp_qpc dp)) s1 = Inr q1" "rgu_headers (dp_desc dp) q1 (dp_pktPos dp) (dp_pktPsn dp) = Inr (h, a)"
        "upd_pkt (dp_txPkt dp) (rgu_fill (dp_desc dp) q1 h (dp_pldLen dp)) s1 = Inr s2"
        "(if a then rgu_window (dp_txPkt dp) q1 (dp_pktPsn dp) (dp_desc dp) s2 else Inr s2) = Inr s3"
        "rgu_finish (dp_qpc dp) q1 a (dp_desc dp) (rgu_send (dp_txPkt dp) s3) = Inr s'"
    using assms(1,5) by (auto simp: rguProcessing_def ebind_Inr)
  have s1: "heap s1 = heap s \<and> rdmaEngine s1 = rdmaEngine ?t \<and> txCqcReqFifo s1 = txCqcReqFifo s"
    using r(1) by (auto simp: rgu_data_def upd_eng_def split: if_splits list.splits)
  have "q1 = q" using r(2) assms(2) s1 by (simp add: deref_qpc_def deref_def cong: if_cong)
  then have a: "\<not> a" using rgu_headers_UD [OF r(3)] assms(3) by simp
  have s3: "s3 = s2" using r(5) a by simp
  obtain q' where s': "s' = heap_set (dp_qpc dp) (OQpc q') (upd_eng (\<lambda>e. e\<lparr>messageEnd := a\<rparr>) (rgu_send (dp_txPkt dp) s2))"
    using r(6) a s3 by (auto simp: rgu_finish_def Let_def ebind_Inr)
  have "dp_qpc dp < length (heap s1)" using r(2) by (auto simp: deref_qpc_def deref_def ebind_Inr split: if_splits)
  moreover have "length (heap s2) = length (heap s1) \<and> rdmaEngine s2 = rdmaEngine s1 \<and> txCqcReqFifo s2 = txCqcReqFifo s1"
    using r(4) by (auto simp: upd_pkt_def ebind_Inr heap_set_def)
  moreover have "heap (rgu_send p t) = heap t \<and> txCqcReqFifo (rgu_send p t) = txCqcReqFifo t" for p t
    by (simp add: rgu_send_def upd_eng_def sched_next_def sched_at_def)
  ultimately show ?thesis
    using s1 by (simp add: s' rgu_send_def heap_set_def deref_qpc_def deref_def upd_eng_def
        sched_next_def sched_at_def)
qed

definition ex_ud :: rnic where
  "ex_ud =
     upd_eng (\<lambda>e. e\<lparr>dp2rgFifo := [\<lparr>dp_qpc = 0, dp_desc = ex_desc 0x80000001, dp_txPkt = 1, dp_pktPos = PKT_ONLY,
                dp_pldLen = 64, dp_pktPsn = 0\<rparr>]\<rparr>)
       (dev0\<lparr>heap := [Some (OQpc (qpc_sample\<lparr>qpType := QP_TYPE_UD\<rparr>)), Some (OPkt (ex_pkt []))],
             txdataRspFifo := [new_MrReqRsp DMA_TYPE_RREQ MR_RCHNL_TX_DATA 1 64 0]\<rparr>)"

lemma ud_send_never_completes_witness:
  "\<exists>s'. rguProcessing ex_ud = Inr s' \<and> rg2scFifo (rdmaEngine s') = [] \<and>
     (\<exists>q'. deref_qpc (Some 0) s' = Inr q')"
proof -
  have e: "rdmaEngine ex_ud = (new_RdmaEngine 2)\<lparr>dp2rgFifo := [\<lparr>dp_qpc = 0, dp_desc = ex_desc 0x80000001, dp_txPkt = 1,
      dp_pktPos = PKT_ONLY, dp_pldLen = 64, dp_pktPsn = 0\<rparr>]\<rparr>"
    by (simp add: ex_ud_def dev0_eng)
  have h: "heap ex_ud = [Some (OQpc (qpc_sample\<lparr>qpType := QP_TYPE_UD\<rparr>)), Some (OPkt (ex_pkt []))]"
     "txdataRspFifo ex_ud \<noteq> []"
    by (simp_all add: ex_ud_def upd_eng_def)
  let ?d = "ex_desc 0x80000001" and ?q = "qpc_sample\<lparr>qpType := QP_TYPE_UD\<rparr>"
  let ?t = "upd_eng (\<lambda>e. e\<lparr>dp2rgFifo := []\<rparr>) ex_ud"
  have d: "deref_qpc (Some 0) ex_ud = Inr ?q"
    by (simp add: deref_qpc_def deref_def h)
  have "tx_opcode ?d = OPCODE_SEND" by (simp add: ex_desc_def tx_opcode_def)
  then obtain hd where hd: "rgu_headers ?d ?q PKT_ONLY 0 = Inr (hd, False)"
    and dt: "rgu_data ?d ?t = Inr (?t\<lparr>txdataRspFifo := tl (txdataRspFifo ?t)\<rparr>)"
    using h(2) by (auto simp: rgu_headers_def rgu_data_def qpc_sample_def upd_eng_def split: list.splits)
  let ?s1 = "?t\<lparr>txdataRspFifo := tl (txdataRspFifo ?t)\<rparr>"
  have dq: "deref_qpc (Some 0) ?s1 = Inr ?q" "deref_pkt (Suc 0) ?s1 = Inr (ex_pkt [])"
    by (simp_all add: deref_qpc_def deref_pkt_def deref_def h upd_eng_def)
  obtain q' where "rgu_qpc ?q = Inr q'" by (simp add: rgu_qpc_def qpc_sample_def Let_def)
  then obtain s' where s': "rguProcessing ex_ud = Inr s'"
    by (simp add: rguProcessing_def e dt dq hd upd_pkt_def rgu_finish_def Let_def)
  have "dp2rgFifo (rdmaEngine ex_ud) = [\<lparr>dp_qpc = 0, dp_desc = ?d, dp_txPkt = 1, dp_pktPos = PKT_ONLY,
      dp_pldLen = 64, dp_pktPsn = 0\<rparr>]" by (simp add: e)
  then show ?thesis
    using ud_send_never_completes [OF _ _ _ _ s', of _ "[]" ?q] d s' by (simp add: e new_RdmaEngine_def)
qed

text \<open>
  C36. Reads and other requests of a queue pair cannot be outstanding together: if the answer to a
  later request arrives while a read is still at the front of the window, the simulation ends.
\<close>

theorem read_overtaken_panics:
  assumes "ra2rgFifo (rdmaEngine s) = rx # rest" and "deref_pkt rx s = Inr k"
    and "um_lookup (sndWindowList (rdmaEngine s)) (bth_qpn (pkt_bth k)) = Some w"
    and "wm_list w = we # wes" and "deref_pkt (we_txPkt we) s = Inr kr"
    and "bth_op (pkt_bth kr) = ucast PKT_TRANS_RREAD_ONLY"
    and "wm_firstPsn w < bth_psn (pkt_bth k)" and "bth_psn (pkt_bth k) \<le> wm_lastPsn w"
  shows "rgrrProcessing s = Inl (Panicked ''reTrans'')"
proof -
  have "deref_pkt (we_txPkt we) (upd_eng (\<lambda>e. e\<lparr>ra2rgFifo := rest\<rparr>) s) = Inr kr"
    using assms(5) by simp
  then have "rru_elem rx q c (bth_psn (pkt_bth k)) (wm_firstPsn w) we (upd_eng (\<lambda>e. e\<lparr>ra2rgFifo := rest\<rparr>) s) =
      Inl (Panicked ''reTrans'')" for q c
    using assms(6,7) by (simp add: rru_elem_def)
  then show ?thesis
    using assms by (simp add: rgrrProcessing_def isRspRecv_def rruProcessing_def rru_release_def Let_def
        leD [OF assms(8)] order.strict_implies_not_eq less_imp_le not_less)
qed

lemma read_overtaken_panics_witness:
  "rgrrProcessing (ex_dev [ex_elem 1 3 4, ex_elem 2 4 3] [ex_ack 4, ex_req PKT_TRANS_RREAD_ONLY 3,
     ex_req PKT_TRANS_RWRITE_ONLY 4]) = Inl (Panicked ''reTrans'')"
  by (rule read_overtaken_panics [where rx = 0 and rest = "[]" and k = "ex_ack 4" and
        w = "ex_wm [ex_elem 1 3 4, ex_elem 2 4 3]" and kr = "ex_req PKT_TRANS_RREAD_ONLY 3"
        and we = "ex_elem 1 3 4" and wes = "[ex_elem 2 4 3]"])
    (simp_all add: ex_dev_win ex_dev_pkt mk_bth_qpn mk_bth_psn mk_bth_op,
     simp_all add: ex_dev_eng ex_elem_def ex_wm_def ex_dev_pkt)

end
