(* ===== verification/Frame.thy ===== *)
theory Frame
  imports Rnic Window
begin

text \<open>
  What the units leave alone. A part of the state is given by a function \<open>v\<close>; the locale \<open>kept\<close> says that
  it does not depend on the simulator and the queues of the memory side, and shows that the DMA engine,
  the link, address translation and the completion queue contexts keep it. \<open>kept_qpc\<close> adds the
  context module, \<open>kept_eng\<close> the RDMA engine. Interpreted on the parts an invariant speaks about, they leave
  only the few handlers that work on them.
\<close>

declare post_cacheDma_frame [simp del]

section \<open>The caches work on the simulator part of the state\<close>

lemma more_alloc [simp]: "nicbase.more (snd (alloc ob s)) = nicbase.more s"
  by (simp add: alloc_def)

lemma more_heap_set [simp]: "nicbase.more (heap_set p ob s) = nicbase.more s"
  by (simp add: heap_set_def)

lemma more_put_resc: "put_resc c p v s = Inr s' \<Longrightarrow> nicbase.more s' = nicbase.more s"
  by (auto simp: put_resc_def ebind_Inr split: option.splits)

lemma more_post_cacheDma [simp]: "nicbase.more (snd (post_cacheDma r e s)) = nicbase.more s"
  by (simp add: post_cacheDma_def add_dmaReq_def Let_def)

lemma more_delete: "delete_obj p s = Inr s' \<Longrightarrow> nicbase.more s' = nicbase.more s"
  by (auto simp: delete_obj_def ebind_Inr)

lemma more_insert_resc: "insert_resc i v c s = Inr (c', s') \<Longrightarrow> nicbase.more s' = nicbase.more s"
  by (auto simp: insert_resc_def storeReq_def ebind_Inr replaceScheme_def random_upto_def Let_def
      split: if_splits option.splits list.splits)

lemma more_respond [simp]: "nicbase.more (snd (respond e p k c s)) = nicbase.more s"
  by (simp add: respond_def split: option.split)

lemma more_fetchRsp_tail [simp]: "nicbase.more (fetchRsp_tail c s) = nicbase.more s"
  by (simp add: fetchRsp_tail_def split: list.split)

lemma more_fetchRsp_finish [simp]: "nicbase.more (snd (fetchRsp_finish r p cs)) = nicbase.more (snd cs)"
  by (simp add: fetchRsp_finish_def Let_def)

lemma more_fetchRsp_fill: "fetchRsp_fill r p c s = Inr cs \<Longrightarrow> nicbase.more (snd cs) = nicbase.more s"
  by (auto simp: fetchRsp_fill_def ebind_Inr split: option.splits dest!: more_insert_resc more_put_resc)

lemma more_fetchRsp: "fetchRsp c s = Inr (c', s') \<Longrightarrow> nicbase.more s' = nicbase.more s"
  by (auto simp: fetchRsp_def ebind_Inr split: list.splits option.splits if_splits
      dest!: more_fetchRsp_fill arg_cong [where f = snd])

lemma more_rc_readProc: "rc_readProc c s = Inr (c', s') \<Longrightarrow> nicbase.more s' = nicbase.more s"
  by (auto simp: rc_readProc_def readProc_hit_def fetchReq_def Let_def ebind_Inr
      split: list.splits option.splits if_splits dest!: more_put_resc)

lemma more_rescRead [simp]: "nicbase.more (snd (rescRead i e k p u c s)) = nicbase.more s"
  by (simp add: rescRead_def)

lemma more_rescWrite: "rescWrite i v u c s = Inr (c', s') \<Longrightarrow> nicbase.more s' = nicbase.more s"
  by (auto simp: rescWrite_def split: option.splits if_splits dest: more_insert_resc)

section \<open>Parts of the state that the memory side keeps\<close>

locale kept =
  fixes v :: "rnic \<Rightarrow> 'v"
  assumes base: "nicbase.more s' = nicbase.more s \<Longrightarrow> v s' = v s"
    and ccu_fields [simp]:
      "v (s\<lparr>pio2ccuDbFifo := x1\<rparr>) = v s"
      "v (s\<lparr>ccuDmaReadFifo := x2\<rparr>) = v s"
      "v (s\<lparr>mboxBuf := x3\<rparr>) = v s"
      "v (s\<lparr>syncCnt := x4\<rparr>) = v s"
      "v (s\<lparr>syncSucc := x5\<rparr>) = v s"
    and queue_fields [simp]:
      "v (s\<lparr>descReqFifo := x6\<rparr>) = v s"
      "v (s\<lparr>txdescRspFifo := x7\<rparr>) = v s"
      "v (s\<lparr>rxdescRspFifo := x8\<rparr>) = v s"
      "v (s\<lparr>cqWreqFifo := x9\<rparr>) = v s"
      "v (s\<lparr>dataReqFifo := x10\<rparr>) = v s"
      "v (s\<lparr>txdataRspFifo := x11\<rparr>) = v s"
      "v (s\<lparr>rxdataRspFifo := x12\<rparr>) = v s"
      "v (s\<lparr>descDmaReadFifo := x13\<rparr>) = v s"
      "v (s\<lparr>dataDmaReadFifo := x14\<rparr>) = v s"
      "v (s\<lparr>cqDmaWriteFifo := x15\<rparr>) = v s"
      "v (s\<lparr>dataDmaWriteFifo := x16\<rparr>) = v s"
      "v (s\<lparr>txCqcReqFifo := x17\<rparr>) = v s"
      "v (s\<lparr>rxCqcReqFifo := x18\<rparr>) = v s"
      "v (s\<lparr>txCqcRspFifo := x19\<rparr>) = v s"
      "v (s\<lparr>rxCqcRspFifo := x20\<rparr>) = v s"
      "v (s\<lparr>qpcDmaRdCplFifo := x21\<rparr>) = v s"
      "v (s\<lparr>rxFifo := x22\<rparr>) = v s"
      "v (s\<lparr>ethRxDelayFifo := x23\<rparr>) = v s"
      "v (s\<lparr>linkFree := x24\<rparr>) = v s"
      "v (s\<lparr>wire := x25\<rparr>) = v s"
    and modules [simp]: "v (upd_mrM f1 s) = v s" "v (upd_cqcM f2 s) = v s" "v (upd_dma f3 s) = v s"
begin

lemma base_fields [simp]:
  "v (s\<lparr>curTick := y1\<rparr>) = v s" "v (s\<lparr>evq := y2\<rparr>) = v s" "v (s\<lparr>heap := y3\<rparr>) = v s" "v (s\<lparr>hostMem := y4\<rparr>) = v s"
  "v (s\<lparr>dmaReqs := y5\<rparr>) = v s" "v (s\<lparr>cacheDmaAccessFifo := y6\<rparr>) = v s"
  by (rule base, simp)+

lemma prims [simp]:
  "v (sched_at e t s) = v s" "v (sched_next e s) = v s" "v (sched_next_if c e s) = v s"
  "v (snd (alloc ob s)) = v s" "v (heap_set p ob s) = v s"
  "v (snd (post_cacheDma r e s)) = v s" "v (snd (add_dmaReq r s)) = v s" "v (upd_dmaReq i u s) = v s"
  by (rule base, simp add: add_dmaReq_def upd_dmaReq_def)+

lemma delete: "delete_obj p s = Inr s' \<Longrightarrow> v s' = v s"
  by (rule base) (rule more_delete)

lemma schedule_kept: "schedule e t s = Inr s' \<Longrightarrow> v s' = v s" "reschedule e t s = Inr s' \<Longrightarrow> v s' = v s"
  by (auto simp: schedule_def reschedule_def ensure_def split: if_splits)

lemma new [simp]:
  "v (snd (new_QpcResc s)) = v s" "v (snd (new_CqcResc s)) = v s" "v (snd (new_TxDescs n s)) = v s"
  "v (snd (new_RxDesc s)) = v s" "v (snd (new_bytes bs s)) = v s" "v (snd (new_packet l s)) = v s"
  by (simp_all add: new_QpcResc_def new_CqcResc_def new_TxDescs_def new_RxDesc_def new_bytes_def new_packet_def)

text \<open>DMA engine and link.\<close>

lemma pops_kept [simp]: "v (wrPop i s) = v s" "v (rdPop i s) = v s" "v (transPop i s) = v s" "v (cqcReqPop i s) = v s"
  by (simp_all add: wrPop_def rdPop_def transPop_def cqcReqPop_def)

lemma dma_issue_kept: "dmaWrite_issue q i s = Inr s' \<Longrightarrow> v s' = v s" "dmaRead_issue q i s = Inr s' \<Longrightarrow> v s' = v s"
  by (auto simp: dmaWrite_issue_def dmaRead_issue_def sched_or_resched_def Let_def split: if_splits dest!: schedule_kept)

lemma dmaWriteProcessing_kept: "dmaWriteProcessing s = Inr s' \<Longrightarrow> v s' = v s"
  by (auto simp: dmaWriteProcessing_def Let_def split: option.splits dest!: dma_issue_kept)

lemma dmaReadProcessing_kept: "dmaReadProcessing s = Inr s' \<Longrightarrow> v s' = v s"
  by (auto simp: dmaReadProcessing_def Let_def split: option.splits dest!: dma_issue_kept)

lemma dmaWriteCpl_kept: "dmaWriteCplProcessing s = Inr s' \<Longrightarrow> v s' = v s"
  by (auto simp: dmaWriteCplProcessing_def Let_def split: list.splits dest!: schedule_kept)

lemma notify_kept: "dmaReadCpl_notify q s = Inr s' \<Longrightarrow> v s' = v s"
  by (auto simp: dmaReadCpl_notify_def split: option.splits)

lemma dmaReadCpl_kept: "dmaReadCplProcessing s = Inr s' \<Longrightarrow> v s' = v s"
  by (cases "dmaRdReq2RspFifo (dmaEngine s)"; cases "tl (dmaRdReq2RspFifo (dmaEngine s))")
    (auto simp: dmaReadCplProcessing_def ebind_Inr dest!: notify_kept schedule_kept)

lemma dmaWrite_kept: "dmaWrite a n p s = Inr s' \<Longrightarrow> v s' = v s" "dmaRead a n p s = Inr s' \<Longrightarrow> v s' = v s"
  by (auto simp: dmaWrite_def dmaRead_def ebind_Inr mem_write_def split: option.splits prod.splits)

lemma dmaChnl_kept: "dmaChnlProc s = Inr s' \<Longrightarrow> v s' = v s"
  by (auto simp: dmaChnlProc_def dmaChnl_one_def Let_def ebind_Inr split: list.splits dest!: dmaWrite_kept)

lemma eth_kept: "ethRxDelay p s = Inr s' \<Longrightarrow> v s' = v s" "ethRxPktProc s = Inr s' \<Longrightarrow> v s' = v s"
  by (auto simp: ethRxDelay_def ethRxPktProc_def Let_def ebind_Inr split: list.splits if_splits dest!: schedule_kept)


text \<open>Address translation and completion queue contexts.\<close>

lemma on_cache_kept [simp]:
  "(\<And>c t. nicbase.more (snd (f c t)) = nicbase.more t) \<Longrightarrow> v (on_mpt f s) = v s"
  "(\<And>c t. nicbase.more (snd (g c t)) = nicbase.more t) \<Longrightarrow> v (on_mtt g s) = v s"
  "(\<And>c t. nicbase.more (snd (h c t)) = nicbase.more t) \<Longrightarrow> v (on_cqc h s) = v s"
  by (auto simp: on_mpt_def on_mtt_def on_cqc_def Let_def intro: base)

lemma on_cache_res_kept:
  "on_mpt_res f s = Inr s' \<Longrightarrow> \<forall>c t c' t'. f c t = Inr (c', t') \<longrightarrow> nicbase.more t' = nicbase.more t \<Longrightarrow> v s' = v s"
  "on_mtt_res g s = Inr s' \<Longrightarrow> \<forall>c t c' t'. g c t = Inr (c', t') \<longrightarrow> nicbase.more t' = nicbase.more t \<Longrightarrow> v s' = v s"
  "on_cqc_res h s = Inr s' \<Longrightarrow> \<forall>c t c' t'. h c t = Inr (c', t') \<longrightarrow> nicbase.more t' = nicbase.more t \<Longrightarrow> v s' = v s"
  by (auto simp: on_mpt_res_def on_mtt_res_def on_cqc_res_def ebind_Inr) (blast intro: base)+

lemma transReq_kept [simp]: "v (transReqProcessing s) = v s"
  by (simp add: transReqProcessing_def mptReqProcess_def Let_def split: option.split)

lemma mptRsp_kept: "mptRspProcessing s = Inr s' \<Longrightarrow> v s' = v s"
  by (auto simp: mptRspProcessing_def mttReqProcess_def Let_def ebind_Inr split: list.splits if_splits)

lemma mr_dma_kept [simp]: "v (mr_dmaWrite a r s) = v s" "v (snd (mr_dmaRead a r s)) = v s"
  by (simp_all add: mr_dmaWrite_def mr_dmaRead_def Let_def)

lemma mttRsp_kept: "mttRspProcessing s = Inr s' \<Longrightarrow> v s' = v s"
  by (auto simp: mttRspProcessing_def dmaReqProcess_def Let_def ebind_Inr split: list.splits if_splits)

lemma dmaRrsp_post_kept: "dmaRrsp_post r s = Inr es \<Longrightarrow> v (snd es) = v s"
  by (auto simp: dmaRrsp_post_def dmaRrsp_txDesc_def dmaRrsp_rxDesc_def Let_def ebind_Inr ensure_def
      split: if_splits dest!: delete)

lemma dmaRrsp_tail_kept: "dmaRrsp_tail s = Inr s' \<Longrightarrow> v s' = v s"
  by (auto simp: dmaRrsp_tail_def ebind_Inr split: list.splits)

lemma dmaRrsp_kept: "dmaRrspProcessing s = Inr s' \<Longrightarrow> v s' = v s"
  by (auto simp: dmaRrspProcessing_def ebind_Inr split: list.splits if_splits dest!: dmaRrsp_post_kept dmaRrsp_tail_kept)

lemma postCqcReq_kept: "postCqcReq r s = Inr s' \<Longrightarrow> v s' = v s"
  by (auto simp: postCqcReq_def ensure_def split: if_splits)

lemma cqcReqProc_kept: "cqcReqProc s = Inr s' \<Longrightarrow> v s' = v s"
  by (auto simp: cqcReqProc_def Let_def ensure_def split: option.splits if_splits)

lemma cqcRspProc_kept: "cqcRspProc s = Inr s' \<Longrightarrow> v s' = v s"
  by (auto simp: cqcRspProc_def Let_def split: list.splits if_splits)


end

section \<open>Parts that the context module keeps\<close>

locale kept_qpc = kept +
  assumes qpc_module [simp]: "v (upd_qpcM g s) = v s"
begin

lemma postQpcReq_kept: "postQpcReq r s = Inr s' \<Longrightarrow> v s' = v s"
  by (auto simp: postQpcReq_def ensure_def ebind_Inr split: if_splits)

lemma hitProc_kept: "hitProc n r s = Inr s' \<Longrightarrow> v s' = v s"
  by (auto simp: hitProc_def hitProc_push_def put_qpc_def ensure_def ebind_Inr split: if_splits)

lemma pend_kept [simp]: "v (pend_push p s) = v s" "v (set_pend q s) = v s" "v (set_info n i s) = v s"
    "v (drop_req n i s) = v s"
  by (auto simp: pend_push_def set_pend_def set_info_def drop_req_def push_elem_def Let_def split: prod.splits)

lemma qpc_readProc_kept: "qpc_readProc n r s = Inr s' \<Longrightarrow> v s' = v s"
  by (auto simp: qpc_readProc_def Let_def split: option.splits if_splits dest!: hitProc_kept)

lemma writeOne_kept: "writeOne r s = Inr s' \<Longrightarrow> v s' = v s"
  by (auto simp: writeOne_def writeOne_evict_def storeMem_def ensure_def ebind_Inr Let_def split: if_splits)

lemma qpcReqProc_kept: "qpcReqProc s = Inr s' \<Longrightarrow> v s' = v s"
  by (auto simp: qpcReqProc_def qpcCreate_def qpcAccess_def ensure_def ebind_Inr Let_def
      split: if_splits list.splits option.splits dest!: writeOne_kept qpc_readProc_kept delete)

lemma pushElemProc_kept: "pushElemProc s = Inr s' \<Longrightarrow> v s' = v s"
  by (auto simp: pushElemProc_def loadMem_def ensure_def ebind_Inr Let_def split: if_splits)

lemma push_check_kept: "push_elem_check e (p, s) = Inr ps \<Longrightarrow> v (snd ps) = v s"
  by (auto simp: push_elem_check_def push_elem_def Let_def ensure_def ebind_Inr split: if_splits prod.splits option.splits list.splits)

lemma checkNoDma_kept: "checkNoDmaElem e n q s = Inr bs \<Longrightarrow> v (snd bs) = v s"
  by (auto simp: checkNoDmaElem_def Let_def ensure_def ebind_Inr split: option.splits if_splits
      dest!: hitProc_kept push_check_kept)

lemma qpcRsp_front_kept: "qpcRsp_front s = Inr s' \<Longrightarrow> v s' = v s"
  by (auto simp: qpcRsp_front_def qpcRsp_loaded_def Let_def ebind_Inr split: option.splits if_splits
      dest!: hitProc_kept writeOne_kept checkNoDma_kept)

lemma qpcRsp_check_kept: "qpcRsp_check s = Inr s' \<Longrightarrow> v s' = v s"
  by (auto simp: qpcRsp_check_def Let_def ebind_Inr split: if_splits dest!: checkNoDma_kept)

lemma qpcRspProc_kept: "qpcRspProc s = Inr s' \<Longrightarrow> v s' = v s"
  by (auto simp: qpcRspProc_def ensure_def ebind_Inr Let_def split: if_splits dest!: qpcRsp_front_kept qpcRsp_check_kept)


end

section \<open>Parts that the RDMA engine keeps\<close>

text \<open>The units of the engine without those that ask for or take queue pair contexts.\<close>

locale kept_eng = kept +
  assumes engine [simp]: "v (upd_eng g s) = v s" "v (s\<lparr>df2ccuIdxFifo := z1\<rparr>) = v s" "v (s\<lparr>doorbellVector := z2\<rparr>) = v s"
begin

lemma dfu_kept [simp]: "v (dfu_credit i s) = v s" "v (dfu_descReq q d s) = v s"
  by (simp_all add: dfu_credit_def dfu_descReq_def Let_def)

lemma ddu_doorbell_kept: "ddu_doorbell s = Inr s' \<Longrightarrow> v s' = v s"
  by (auto simp: ddu_doorbell_def ensure_def split: if_splits list.splits)

lemma ddu_count_kept [simp]: "v (ddu_count d s) = v s"
  by (simp add: ddu_count_def Let_def)

lemma dpu_take_kept: "dpu_take i s = Inr (d, s') \<Longrightarrow> v s' = v s"
  by (auto simp: dpu_take_def ensure_def Let_def split: option.splits if_splits)

lemma dpu_slot_kept: "dpu_slot i q s = Inr s' \<Longrightarrow> v s' = v s"
  by (auto simp: dpu_slot_def ensure_def ebind_Inr Let_def split: if_splits dest!: dpu_take_kept)

lemma packets_kept [simp]: "v (snd (post_dp2rg q d h p l n s)) = v s" "v (post_dataRead k h d l s) = v s" "v (write_packet q d f r n s) = v s"
  by (simp_all add: write_packet_def post_dp2rg_def post_dataRead_def Let_def)

lemma slice_slot_kept: "slice_slot i s = Inr s' \<Longrightarrow> v s' = v s"
  by (auto simp: slice_slot_def slice_write_def single_packet_def clear_slot_def Let_def ebind_Inr split: option.splits if_splits)

lemma slicing_kept: "slicingProcessing s = Inr s' \<Longrightarrow> v s' = v s"
  by (auto simp: slicingProcessing_def Let_def ensure_def ebind_Inr split: option.splits if_splits dest!: slice_slot_kept)

lemma window_kept [simp]: "v (set_window n s) = v s" "v (rgu_send p s) = v s" "v (rgrr_tail s) = v s" "v (post_dataWrite c k a bs s) = v s"
  by (simp_all add: set_window_def rgu_send_def rgrr_tail_def post_dataWrite_def Let_def)

lemma postTxCpl_kept: "postTxCpl ty q c d s = Inr s' \<Longrightarrow> v s' = v s"
  by (auto simp: postTxCpl_def Let_def split: if_splits dest!: postCqcReq_kept)

lemma rru_elem_kept: "rru_elem rx q c a f w s = Inr s' \<Longrightarrow> v s' = v s"
  by (auto simp: rru_elem_def rdmaReadRsp_def Let_def ebind_Inr split: if_splits dest!: postTxCpl_kept)

lemma rru_loop_kept: "rru_loop rx q c a n l f s = Inr ((l', f'), s') \<Longrightarrow> v s' = v s"
proof (induction l arbitrary: f s)
  case (Cons e l)
  show ?case
  proof (cases "f > a \<or> f = a \<and> n")
    case False
    then show ?thesis
      using Cons.prems Cons.IH unfolding rru_loop.simps if_not_P [OF False]
      by (auto simp: ebind_Inr dest!: rru_elem_kept)
  qed (use Cons.prems in auto)
qed (auto split: if_splits)

lemma rru_kept: "rruProcessing s = Inr s' \<Longrightarrow> v s' = v s"
  by (auto simp: rruProcessing_def rru_release_def Let_def ebind_Inr split: list.splits option.splits if_splits
      dest!: rru_loop_kept)

lemma rgu_kept: "rguProcessing s = Inr s' \<Longrightarrow> v s' = v s"
  by (auto simp: rguProcessing_def rgu_finish_def rgu_window_def rgu_data_def upd_pkt_def ebind_Inr ensure_def Let_def
      split: list.splits if_splits dest!: postTxCpl_kept delete)

lemma rgrr_kept: "rgrrProcessing s = Inr s' \<Longrightarrow> v s' = v s"
  by (auto simp: rgrrProcessing_def ebind_Inr split: if_splits dest!: rru_kept rgu_kept)

lemma scu_kept: "scuProcessing s = Inr s' \<Longrightarrow> v s' = v s"
  by (cases "txCqcRspFifo s"; cases "rg2scFifo (rdmaEngine s)") (auto simp: scuProcessing_def post_cqe_def Let_def ebind_Inr)

lemma rcu_kept: "rcuProcessing s = Inr s' \<Longrightarrow> v s' = v s"
  by (cases "rxCqcRspFifo s"; cases "rp2rcFifo (rdmaEngine s)") (auto simp: rcuProcessing_def post_cqe_def Let_def ebind_Inr)

lemma sau_kept [simp]: "v (sauProcessing s) = v s"
  by (auto simp: sauProcessing_def Let_def split: list.splits)

lemma rau_kept [simp]: "v (rau_ack p s) = v s"
  by (simp add: rau_ack_def)

lemma rau_tail_kept: "rau_tail s = Inr s' \<Longrightarrow> v s' = v s"
  by (auto simp: rau_tail_def ebind_Inr split: list.splits if_splits)

lemma ack_kept [simp]: "v (snd (new_ack k q s)) = v s" "v (send_ack k q s) = v s" "v (rpu_credit i s) = v s" "v (rpu_send p q s) = v s"
  by (simp_all add: send_ack_def new_ack_def rpu_credit_def rpu_send_def Let_def)

lemma rcvRpu_kept: "rcvRpuProcessing s = Inr s' \<Longrightarrow> v s' = v s"
  by (cases "rxdescRspFifo s"; cases "rp2rcvRpFifo (rdmaEngine s)")
    (auto simp: rcvRpuProcessing_def rcv_copy_def rcv_complete_def Let_def ebind_Inr dest!: postCqcReq_kept delete)

lemma rdCpl_kept: "rdCplRpuProcessing s = Inr s' \<Longrightarrow> v s' = v s"
  by (auto simp: rdCplRpuProcessing_def ensure_def split: if_splits)

lemma wr_reth_kept: "wr_reth op k s = Inr (h, s') \<Longrightarrow> v s' = v s"
  by (auto simp: wr_reth_def Let_def ebind_Inr split: if_splits option.splits) (auto split: obj.splits)

lemma rpu_dispatch_kept: "rpu_dispatch p q k s = Inr s' \<Longrightarrow> v s' = v s"
  by (auto simp: rpu_dispatch_def wrRpuProcessing_def rdRpuProcessing_def Let_def ebind_Inr split: if_splits dest!: wr_reth_kept)

end

section \<open>RDMA engine and doorbell table\<close>

definition view :: "rnic \<Rightarrow> RdmaEngine \<times> u8 list \<times> DoorbellFifo option list" where
  "view s = (rdmaEngine s, df2ccuIdxFifo s, doorbellVector s)"

text \<open>A part of the state that depends on the fields of the device alone.\<close>

lemma more_fields:
  assumes "nicbase.more s' = nicbase.more (s :: rnic)"
  shows "s' = s\<lparr>curTick := curTick s', clockPeriod := clockPeriod s', evq := evq s', heap := heap s', junk := junk s',
      hostMem := hostMem s', pciToDma := pciToDma s', dmaReqs := dmaReqs s',
      cacheDmaAccessFifo := cacheDmaAccessFifo s', rnd := rnd s', rndCnt := rndCnt s'\<rparr>"
  using assms by (intro nicbase.equality) simp_all

lemmas upd_defs = upd_mrM_def upd_cqcM_def upd_dma_def upd_qpcM_def upd_eng_def

lemma view_more: "nicbase.more s' = nicbase.more s \<Longrightarrow> view s' = view s"
  by (drule more_fields, erule ssubst) (simp add: view_def)

interpretation vw: kept_qpc view
  by unfold_locales (erule view_more, simp_all add: view_def upd_defs)

lemma view_regs [simp]: "view (s\<lparr>regs := r\<rparr>) = view s"
  by (simp add: view_def)

text \<open>The command unit.\<close>

lemma view_ceuProc: "ceuProc s = Inr s' \<Longrightarrow> view s' = view s"
  by (auto simp: ceuProc_def Let_def ensure_def ebind_Inr split: if_splits)

lemma view_write_mpts: "write_mpts rs s = Inr s' \<Longrightarrow> view s' = view s"
  by (induction rs arbitrary: s) (auto simp: ebind_Inr dest!: vw.on_cache_res_kept(1) dest: more_rescWrite)

lemma view_write_mtts: "write_mtts i rs s = Inr s' \<Longrightarrow> view s' = view s"
  by (induction rs arbitrary: i s) (auto simp: ebind_Inr dest!: vw.on_cache_res_kept(2) dest: more_rescWrite)

lemma view_create_qpcs: "create_qpcs rs s = Inr s' \<Longrightarrow> view s' = view s"
  by (induction rs arbitrary: s) (auto simp: ebind_Inr Let_def dest!: vw.postQpcReq_kept)

lemma view_delete_mbox: "delete_mbox s = Inr s' \<Longrightarrow> view s' = view s"
  by (auto simp: delete_mbox_def split: option.splits dest: vw.delete)

lemma view_initIcm: "cmd_initIcm s = Inr s' \<Longrightarrow> view s' = view s"
  by (auto simp: cmd_initIcm_def ebind_Inr Let_def)

lemma view_writeIcm: "cmd_writeIcm s = Inr s' \<Longrightarrow> view s' = view s"
  by (auto simp: cmd_writeIcm_def ebind_Inr Let_def split: if_splits dest!: view_delete_mbox vw.on_cache_res_kept)

lemma view_mbox_command: "mbox_command s = Inr s' \<Longrightarrow> view s' = view s"
  by (auto simp: mbox_command_def Let_def ebind_Inr split: if_splits dest: view_initIcm view_writeIcm view_write_mpts
      view_write_mtts view_create_qpcs dest!: view_delete_mbox vw.on_cache_res_kept(3) more_rescWrite)

lemma view_mboxFetchCpl: "mboxFetchCpl s = Inr s' \<Longrightarrow> view s' = view s"
  by (auto simp: mboxFetchCpl_def ebind_Inr dest: view_mbox_command)

lemma view_pio_write: "pio_write a bs s = Inr s' \<Longrightarrow> view s' = view s"
  by (auto simp: pio_write_def write_sync_def Let_def ensure_def split: option.splits prod.splits if_splits)

end
