(* ===== verification/Credits.thy ===== *)
theory Credits
  imports Prelude
begin

text \<open>
  Credits. Three places of the device hand out indices of a vector from a FIFO and put them back
  when the entry is done: the doorbell table, the descriptors between DDU and DPU, and the packets
  between RAU and RPU. A credit is either in the FIFO or stands for an occupied entry; \<open>credit_pool\<close>
  is what a handler may do with such a pool, with the conservation law it implies.
\<close>

definition pool_ok :: "u8 list \<Rightarrow> 'a option list \<Rightarrow> bool" where
  "pool_ok f v \<longleftrightarrow>
     distinct f \<and> length v \<le> 256 \<and> (\<forall>i\<in>set f. unat i < length v) \<and>
     (\<forall>i<length v. v ! i = None \<longleftrightarrow> of_nat i \<in> set f)"

inductive pool_step :: "u8 list \<times> 'a option list \<Rightarrow> u8 list \<times> 'a option list \<Rightarrow> bool" where
  stay: "pool_step (f, v) (f, v)"
| take: "unat i < length v \<Longrightarrow> pool_step (i # f, v) (f, v[unat i := Some x])"
| give: "unat i < length v \<Longrightarrow> v ! unat i = Some x \<Longrightarrow> pool_step (f, v) (f @ [i], v[unat i := None])"

inductive_cases pool_stepE: "pool_step p q"

lemma of_nat_u8_eq: "i < 256 \<Longrightarrow> of_nat i = (k :: u8) \<longleftrightarrow> i = unat k"
  using unat_of_nat [of i, where ?'a = 8] by (auto simp: word_unat_eq_iff)

lemma pool_ok_init: "n \<le> 256 \<Longrightarrow> pool_ok (map of_nat [0..<n]) (replicate n None)"
  by (auto simp: pool_ok_def distinct_map inj_on_def of_nat_u8_eq unat_of_nat)

lemma pool_ok_take:
  assumes "pool_ok (i # f) v"
  shows "pool_ok f (v[unat i := Some x])"
proof -
  have "k < length v \<Longrightarrow> of_nat k = i \<longleftrightarrow> k = unat i" for k
    using assms by (intro of_nat_u8_eq) (simp add: pool_ok_def)
  then show ?thesis using assms by (auto simp: pool_ok_def nth_list_update)
qed

lemma pool_ok_give:
  assumes "pool_ok f v" and "unat i < length v" and "v ! unat i = Some x"
  shows "pool_ok (f @ [i]) (v[unat i := None])"
proof -
  have "k < length v \<Longrightarrow> of_nat k = i \<longleftrightarrow> k = unat i" for k
    using assms by (intro of_nat_u8_eq) (simp add: pool_ok_def)
  moreover have "i \<notin> set f" 
  proof
    assume "i \<in> set f"
    moreover have "v ! unat i = None \<longleftrightarrow> of_nat (unat i) \<in> set f"
      using assms(1,2) unfolding pool_ok_def by blast
    ultimately show False using assms(3) by simp
  qed
  ultimately show ?thesis using assms by (auto simp: pool_ok_def nth_list_update)
qed

lemma pool_step_ok: "pool_step p q \<Longrightarrow> pool_ok (fst p) (snd p) \<Longrightarrow> pool_ok (fst q) (snd q)"
  by (induction rule: pool_step.induct) (auto intro: pool_ok_take pool_ok_give)

text \<open>Free and occupied entries add up to the size of the vector.\<close>

lemma pool_conserved:
  assumes "pool_ok f v"
  shows "length f + length (filter (\<lambda>x. x \<noteq> None) v) = length v"
proof -
  have "unat ` set f = {i. i < length v \<and> v ! i = None}"
  proof (intro equalityI subsetI)
    fix i assume "i \<in> {i. i < length v \<and> v ! i = None}"
    then have "of_nat i \<in> set f" "i = unat (of_nat i :: u8)"
      using assms by (auto simp: pool_ok_def unat_of_nat)
    then show "i \<in> unat ` set f" by blast
  next
    fix i assume "i \<in> unat ` set f"
    then obtain k where k: "k \<in> set f" "i = unat k" by blast
    then have "i < length v" using assms by (simp add: pool_ok_def)
    moreover have "of_nat i = k" using k by simp
    ultimately show "i \<in> {i. i < length v \<and> v ! i = None}" using assms k by (simp add: pool_ok_def)
  qed
  moreover have "card (unat ` set f) = length f"
    using assms card_image [OF inj_onI, of "set f" unat]
    by (simp add: distinct_card pool_ok_def flip: word_unat_eq_iff)
  ultimately have "length f = length (filter (\<lambda>x. x = None) v)" by (simp add: length_filter_conv_card)
  then show ?thesis using sum_length_filter_compl [of "\<lambda>x. x = None" v] by simp
qed

locale credit_pool =
  fixes free :: "'s \<Rightarrow> u8 list" and slots :: "'s \<Rightarrow> 'a option list" and step :: "'s \<Rightarrow> 's \<Rightarrow> bool"
  assumes step_law: "step s s' \<Longrightarrow> pool_step (free s, slots s) (free s', slots s')"
begin

lemma pool_kept: "step s s' \<Longrightarrow> pool_ok (free s) (slots s) \<Longrightarrow> pool_ok (free s') (slots s')"
  using pool_step_ok [OF step_law] by fastforce

lemma size_kept: "step s s' \<Longrightarrow> length (slots s') = length (slots s)"
  by (drule step_law) (auto elim: pool_stepE)

lemma run_kept:
  assumes "step\<^sup>*\<^sup>* s s'" and "pool_ok (free s) (slots s)"
  shows "pool_ok (free s') (slots s') \<and> length (slots s') = length (slots s)"
  using assms by (induction rule: rtranclp_induct) (auto simp: pool_kept size_kept)

lemma run_conserves:
  assumes "step\<^sup>*\<^sup>* s s'" and "pool_ok (free s) (slots s)"
  shows "length (free s') + length (filter (\<lambda>x. x \<noteq> None) (slots s')) = length (slots s)"
  using run_kept [OF assms] pool_conserved [of "free s'" "slots s'"] by simp

end

end
