(* ===== verification/Device.thy ===== *)
theory Device
  imports Frame Credits
begin

text \<open>
  Invariants of the whole device: in every state it can reach, whatever the host and the link do,
  credits are conserved, the slots of the sliced messages and their status agree, and the send
  window is within its bound.
\<close>

section \<open>The parts an invariant speaks about\<close>

definition db_pool :: "rnic \<Rightarrow> u8 list \<times> DoorbellFifo option list" where
  "db_pool s = (df2ccuIdxFifo s, doorbellVector s)"

definition tx_pool :: "rnic \<Rightarrow> u8 list \<times> TxDesc option list" where
  "tx_pool s = (dp2ddIdxFifo (rdmaEngine s), dd2dpVector (rdmaEngine s))"

definition rx_pool :: "rnic \<Rightarrow> u8 list \<times> nat option list" where
  "rx_pool s = (rp2raIdxFifo (rdmaEngine s), rs2rpVector (rdmaEngine s))"

definition slot_part :: "rnic \<Rightarrow> pendingSlot option list \<times> bool list \<times> u8" where
  "slot_part s = (pendingSlotVector (rdmaEngine s), slotStatusVector (rdmaEngine s), slotScheduleIdx (rdmaEngine s))"

lemmas part_defs = db_pool_def tx_pool_def rx_pool_def slot_part_def win_part_def

lemma view_parts:
  assumes "view s' = view s"
  shows "db_pool s' = db_pool s" "tx_pool s' = tx_pool s" "rx_pool s' = rx_pool s" "slot_part s' = slot_part s"
    "win_part (rdmaEngine s') = win_part (rdmaEngine s)"
  using assms by (simp_all add: view_def part_defs)

text \<open>What a handler may do: move a credit of each pool, change the slots and the window lawfully.\<close>

definition slots_agree :: "rnic \<Rightarrow> bool" where
  "slots_agree s \<longleftrightarrow> list_all2 (\<lambda>ps b. b \<longleftrightarrow> ps \<noteq> None) (fst (slot_part s)) (fst (snd (slot_part s))) \<and>
     length (fst (slot_part s)) = PENDINGSLOTNUM \<and> unat (snd (snd (slot_part s))) < PENDINGSLOTNUM"

definition lawful :: "rnic \<Rightarrow> rnic \<Rightarrow> bool" where
  "lawful s s' \<longleftrightarrow>
     pool_step (db_pool s) (db_pool s') \<and> pool_step (tx_pool s) (tx_pool s') \<and> pool_step (rx_pool s) (rx_pool s') \<and>
     (slots_agree s \<longrightarrow> slots_agree s') \<and> windowCap (rdmaEngine s') = windowCap (rdmaEngine s) \<and>
     (win_cnt (rdmaEngine s) \<longrightarrow> win_cnt (rdmaEngine s'))"

lemma pool_refl [simp]: "pool_step p p"
  by (cases p) (simp add: pool_step.stay)

lemma lawful_view: "view s' = view s \<Longrightarrow> lawful s s'"
  by (auto simp: lawful_def slots_agree_def view_def part_defs)

text \<open>All parts together.\<close>

definition parts :: "rnic \<Rightarrow> _" where
  "parts s = (db_pool s, tx_pool s, rx_pool s, slot_part s, win_part (rdmaEngine s))"

lemma parts_view: "view s' = view s \<Longrightarrow> parts s' = parts s"
  by (simp add: parts_def view_def part_defs)

lemma parts_prims [simp]:
  "parts (sched_at e t s) = parts s" "parts (sched_next e s) = parts s" "parts (sched_next_if c e s) = parts s"
  "parts (heap_set p ob s) = parts s" "parts (snd (alloc ob s)) = parts s" "parts (upd_qpcM h s) = parts s"
  "parts (snd (new_QpcResc s)) = parts s" "parts (snd (new_CqcResc s)) = parts s" "parts (snd (new_packet l s)) = parts s"
  "parts (snd (new_RxDesc s)) = parts s" "parts (snd (new_bytes bs s)) = parts s"
  "parts (s\<lparr>txdescRspFifo := x1\<rparr>) = parts s" "parts (s\<lparr>dataReqFifo := x2\<rparr>) = parts s" "parts (s\<lparr>rxFifo := x3\<rparr>) = parts s"
  "parts (s\<lparr>txCqcRspFifo := x4\<rparr>) = parts s" "parts (s\<lparr>rxCqcRspFifo := x5\<rparr>) = parts s" "parts (s\<lparr>cqWreqFifo := x6\<rparr>) = parts s"
  "parts (s\<lparr>wire := x7\<rparr>) = parts s" "parts (s\<lparr>rxdescRspFifo := x8\<rparr>) = parts s" "parts (s\<lparr>rxdataRspFifo := x9\<rparr>) = parts s"
  "parts (s\<lparr>descReqFifo := x10\<rparr>) = parts s"
  by (rule parts_view, simp)+

lemma parts_post:
  "postQpcReq r s = Inr s' \<Longrightarrow> parts s' = parts s" "postCqcReq q s = Inr s' \<Longrightarrow> parts s' = parts s"
  "delete_obj p s = Inr s' \<Longrightarrow> parts s' = parts s"
  by (rule parts_view, erule vw.postQpcReq_kept vw.postCqcReq_kept vw.delete)+

lemma parts_eng:
  "parts (upd_eng f s) = (let e = f (rdmaEngine s) in (db_pool s, (dp2ddIdxFifo e, dd2dpVector e),
     (rp2raIdxFifo e, rs2rpVector e), (pendingSlotVector e, slotStatusVector e, slotScheduleIdx e), win_part e))"
  by (simp add: parts_def part_defs upd_eng_def Let_def)

lemma upd_eng_frame [simp]: "df2ccuIdxFifo (upd_eng f s) = df2ccuIdxFifo s" "doorbellVector (upd_eng f s) = doorbellVector s"
  by (simp_all add: upd_eng_def)

lemma lawfulI:
  assumes "parts s' = (d, t, r, p, win_part (rdmaEngine s))" and "pool_step (db_pool s) d" "pool_step (tx_pool s) t"
    "pool_step (rx_pool s) r" and "slots_agree s \<Longrightarrow> slot_part s' = p \<Longrightarrow> slots_agree s'"
  shows "lawful s s'"
  using assms by (auto simp: lawful_def parts_def win_cnt_def win_part_def)

lemma lawful_parts: "parts s' = parts s \<Longrightarrow> lawful s s'"
  by (rule lawfulI [where d = "db_pool s" and t = "tx_pool s" and r = "rx_pool s" and p = "slot_part s"])
    (simp_all add: parts_def slots_agree_def)

lemma view_changes [simp]:
  "view (s\<lparr>df2ccuIdxFifo := x\<rparr>) = (fst (view s), x, snd (snd (view s)))"
  "view (s\<lparr>doorbellVector := y\<rparr>) = (fst (view s), fst (snd (view s)), y)"
  "view (upd_eng f s) = (f (fst (view s)), snd (view s))"
  by (simp_all add: view_def upd_eng_def)

lemma view_proj: "fst (view s) = rdmaEngine s" "fst (snd (view s)) = df2ccuIdxFifo s" "snd (snd (view s)) = doorbellVector s"
  by (simp_all add: view_def)

lemma proj_prims [simp]:
  "rdmaEngine (sched_at e t s) = rdmaEngine s" "df2ccuIdxFifo (sched_at e t s) = df2ccuIdxFifo s" "doorbellVector (sched_at e t s) = doorbellVector s"
  "rdmaEngine (sched_next e s) = rdmaEngine s" "df2ccuIdxFifo (sched_next e s) = df2ccuIdxFifo s" "doorbellVector (sched_next e s) = doorbellVector s"
  "rdmaEngine (sched_next_if c e s) = rdmaEngine s" "df2ccuIdxFifo (sched_next_if c e s) = df2ccuIdxFifo s" "doorbellVector (sched_next_if c e s) = doorbellVector s"
  "rdmaEngine (heap_set p ob s) = rdmaEngine s" "df2ccuIdxFifo (heap_set p ob s) = df2ccuIdxFifo s" "doorbellVector (heap_set p ob s) = doorbellVector s"
  "rdmaEngine (snd (alloc ob s)) = rdmaEngine s" "df2ccuIdxFifo (snd (alloc ob s)) = df2ccuIdxFifo s" "doorbellVector (snd (alloc ob s)) = doorbellVector s"
  "rdmaEngine (upd_qpcM h s) = rdmaEngine s" "df2ccuIdxFifo (upd_qpcM h s) = df2ccuIdxFifo s" "doorbellVector (upd_qpcM h s) = doorbellVector s"
  "rdmaEngine (snd (new_QpcResc s)) = rdmaEngine s" "df2ccuIdxFifo (snd (new_QpcResc s)) = df2ccuIdxFifo s" "doorbellVector (snd (new_QpcResc s)) = doorbellVector s"
  "rdmaEngine (snd (new_CqcResc s)) = rdmaEngine s" "df2ccuIdxFifo (snd (new_CqcResc s)) = df2ccuIdxFifo s" "doorbellVector (snd (new_CqcResc s)) = doorbellVector s"
  "rdmaEngine (snd (new_TxDescs n s)) = rdmaEngine s" "df2ccuIdxFifo (snd (new_TxDescs n s)) = df2ccuIdxFifo s" "doorbellVector (snd (new_TxDescs n s)) = doorbellVector s"
  "rdmaEngine (snd (new_RxDesc s)) = rdmaEngine s" "df2ccuIdxFifo (snd (new_RxDesc s)) = df2ccuIdxFifo s" "doorbellVector (snd (new_RxDesc s)) = doorbellVector s"
  "rdmaEngine (snd (new_bytes bs s)) = rdmaEngine s" "df2ccuIdxFifo (snd (new_bytes bs s)) = df2ccuIdxFifo s" "doorbellVector (snd (new_bytes bs s)) = doorbellVector s"
  "rdmaEngine (snd (new_packet l s)) = rdmaEngine s" "df2ccuIdxFifo (snd (new_packet l s)) = df2ccuIdxFifo s" "doorbellVector (snd (new_packet l s)) = doorbellVector s"
  by (simp_all only: view_proj [symmetric] vw.prims vw.modules vw.qpc_module vw.new)

section \<open>The transmit side\<close>

lemma lawful_doorbellProc:
  assumes "doorbellProc s = Inr s'"
  shows "lawful s s'"
proof -
  consider "s' = s" | idx idxs d dbs s1 where "df2ccuIdxFifo s = idx # idxs" "unat idx < length (doorbellVector s)"
      "doorbell_post d idx (s\<lparr>pio2ccuDbFifo := dbs, df2ccuIdxFifo := idxs,
                       doorbellVector := (doorbellVector s)[unat idx := Some d]\<rparr>) = Inr s1"
      "view s' = view s1"
    using assms by (auto simp: doorbellProc_def ebind_Inr ensure_def split: list.splits if_splits)
  then show ?thesis
  proof cases
    case 2
    then have "view s' = (rdmaEngine s, idxs, (doorbellVector s)[unat idx := Some d])"
      by (auto simp: doorbell_post_def Let_def view_proj dest!: vw.postQpcReq_kept)
    then show ?thesis using 2(1,2)
      by (auto simp: lawful_def view_def part_defs slots_agree_def intro: pool_step.take)
  qed (simp add: lawful_view)
qed


lemma lawful_dfu:
  assumes "dfuProcessing s = Inr s'"
  shows "lawful s s'"
proof -
  obtain idx d f where i: "unat idx < length (doorbellVector s)" "doorbellVector s ! unat idx = Some d"
      and v: "view s' = ((rdmaEngine s)\<lparr>df2ddFifo := f\<rparr>, df2ccuIdxFifo s @ [idx], (doorbellVector s)[unat idx := None])"
    using assms by (auto simp: dfuProcessing_def dfu_credit_def dfu_descReq_def Let_def ebind_Inr ensure_def view_proj
        split: list.splits if_splits option.splits)
  show ?thesis using pool_step.give [OF i, of "df2ccuIdxFifo s"] v
    by (simp add: lawful_def view_def part_defs slots_agree_def win_cnt_def)
qed


lemma parts_ddu_doorbell: "ddu_doorbell s = Inr s1 \<Longrightarrow> parts s1 = parts s"
  by (auto simp: ddu_doorbell_def ensure_def parts_eng parts_def part_defs split: if_splits list.splits)

lemma parts_ddu_count [simp]: "parts (ddu_count d s) = parts s"
  by (simp add: ddu_count_def Let_def parts_eng parts_def part_defs)

lemma parts_ddu_desc:
  "ddu_desc idx b d s = Inr s' \<Longrightarrow> unat idx < length (dd2dpVector (rdmaEngine s)) \<and>
     parts s' = parts (upd_eng (\<lambda>e. e\<lparr>dd2dpVector := (dd2dpVector e)[unat idx := Some d]\<rparr>) s)"
  by (auto simp: ddu_desc_def Let_def ensure_def ebind_Inr split: if_splits dest!: parts_post)

lemma lawful_ddu:
  assumes "dduProcessing s = Inr s'"
  shows "lawful s s'"
proof (cases "dp2ddIdxFifo (rdmaEngine s)")
  case Nil
  then show ?thesis using assms by (simp add: dduProcessing_def lawful_view)
next
  case (Cons j js)
  obtain s1 where d1: "ddu_doorbell s = Inr s1" using assms Cons by (auto simp: dduProcessing_def ebind_Inr)
  then obtain d dbell ds idx idxs where s1: "dp2ddIdxFifo (rdmaEngine s1) = idx # idxs"
      and run: "ddu_desc idx dbell d (upd_eng (\<lambda>e. e\<lparr>dp2ddIdxFifo := idxs\<rparr>) (s1\<lparr>txdescRspFifo := ds\<rparr>)) = Inr s'"
    using assms Cons by (auto simp: dduProcessing_def ebind_Inr split: list.splits option.splits)
  have p1: "parts s1 = parts s" using parts_ddu_doorbell [OF d1] .
  have i: "unat idx < length (dd2dpVector (rdmaEngine s))" and
    "parts s' = (db_pool s, (idxs, (dd2dpVector (rdmaEngine s))[unat idx := Some d]), rx_pool s, slot_part s, win_part (rdmaEngine s))"
    using parts_ddu_desc [OF run] p1 by (auto simp: parts_eng Let_def parts_def part_defs)
  moreover have "tx_pool s = (idx # idxs, dd2dpVector (rdmaEngine s))" using p1 s1 by (simp add: parts_def tx_pool_def)
  ultimately show ?thesis using pool_step.take [OF i, of idxs d]
    by (intro lawfulI) (auto simp: slots_agree_def)
qed


lemma parts_dpu_take:
  assumes "dpu_take idx s = Inr (d, s')" and "unat idx < length (dd2dpVector (rdmaEngine s))"
  shows "dd2dpVector (rdmaEngine s) ! unat idx = Some d \<and>
    parts s' = parts (upd_eng (\<lambda>e. e\<lparr>dd2dpVector := (dd2dpVector e)[unat idx := None], dp2ddIdxFifo := dp2ddIdxFifo e @ [idx]\<rparr>) s)"
  using assms by (auto simp: dpu_take_def Let_def ensure_def parts_eng parts_def part_defs split: if_splits option.splits)

lemma parts_dpu_slot:
  assumes "dpu_slot i q s = Inr s'"
  shows "\<exists>d ps idx. unat idx < length (dd2dpVector (rdmaEngine s)) \<and> dd2dpVector (rdmaEngine s) ! unat idx = Some d \<and>
    parts s' = (db_pool s, (dp2ddIdxFifo (rdmaEngine s) @ [idx], (dd2dpVector (rdmaEngine s))[unat idx := None]), rx_pool s,
      ((pendingSlotVector (rdmaEngine s))[i := Some ps], (slotStatusVector (rdmaEngine s))[i := True], slotScheduleIdx (rdmaEngine s)), win_part (rdmaEngine s))"
proof -
  obtain d ps s1 where t: "dpu_take (cx_idx q) s = Inr (d, s1)" "unat (cx_idx q) < length (dd2dpVector (rdmaEngine s))"
      and s': "parts s' = parts (upd_eng (\<lambda>e. e\<lparr>pendingSlotVector := (pendingSlotVector e)[i := Some ps],
         slotStatusVector := (slotStatusVector e)[i := True]\<rparr>) s1)"
    using assms by (auto simp: dpu_slot_def Let_def ensure_def ebind_Inr split: if_splits)
  then show ?thesis using parts_dpu_take [OF t] by (auto simp: parts_eng Let_def parts_def part_defs)
qed

lemma slots_agree_update:
  assumes "slots_agree s" and "slot_part s' = ((fst (slot_part s))[i := p], (fst (snd (slot_part s)))[i := (p \<noteq> None)], k)"
    and "unat k < PENDINGSLOTNUM"
  shows "slots_agree s'"
  using assms by (auto simp: slots_agree_def intro!: list_all2_update_cong)

lemma lawful_dpu:
  assumes "dpuProcessing s = Inr s'"
  shows "lawful s s'"
proof -
  consider "view s' = view s" | q rest i s1 where "dpu_slot i q (upd_qpcM (\<lambda>m. m\<lparr>txQpcRspFifo := rest\<rparr>) s) = Inr s1" "parts s' = parts s1"
    using assms by (auto simp: dpuProcessing_def Let_def ensure_def ebind_Inr split: if_splits list.splits)
  then show ?thesis
  proof cases
    case 2
    obtain d ps idx where i: "unat idx < length (dd2dpVector (rdmaEngine s))" "dd2dpVector (rdmaEngine s) ! unat idx = Some d"
      and p: "parts s1 = (db_pool s, (dp2ddIdxFifo (rdmaEngine s) @ [idx], (dd2dpVector (rdmaEngine s))[unat idx := None]), rx_pool s,
        ((pendingSlotVector (rdmaEngine s))[i := Some ps], (slotStatusVector (rdmaEngine s))[i := True], slotScheduleIdx (rdmaEngine s)), win_part (rdmaEngine s))"
      using parts_dpu_slot [OF 2(1)] by (auto simp: part_defs)
    have "pool_step (tx_pool s) (dp2ddIdxFifo (rdmaEngine s) @ [idx], (dd2dpVector (rdmaEngine s))[unat idx := None])"
      unfolding tx_pool_def by (rule pool_step.give [OF i])
    moreover have "slots_agree s'" if "slots_agree s" "slot_part s' = ((pendingSlotVector (rdmaEngine s))[i := Some ps],
        (slotStatusVector (rdmaEngine s))[i := True], slotScheduleIdx (rdmaEngine s))"
      by (rule slots_agree_update [OF that(1), where p = "Some ps" and i = i and k = "slotScheduleIdx (rdmaEngine s)"])
        (use that in \<open>simp_all add: slot_part_def slots_agree_def\<close>)
    ultimately show ?thesis
      by (intro lawfulI [OF trans [OF 2(2) p]]) simp_all
  qed (simp add: lawful_view)
qed


lemma parts_single [simp]: "parts (snd (post_dp2rg q d h p l n s)) = parts s" "parts (post_dataRead k h d l s) = parts s"
  by (simp_all add: post_dp2rg_def post_dataRead_def Let_def parts_eng) (simp add: parts_def part_defs)

lemma parts_write_packet [simp]: "parts (write_packet q d f r n s) = parts s"
  by (simp add: write_packet_def Let_def)

lemma parts_single_packet: "single_packet q c d s = Inr s' \<Longrightarrow> parts s' = parts s"
  by (auto simp: single_packet_def Let_def ebind_Inr split: if_splits)

lemma parts_slice_slot:
  assumes "slice_slot i s = Inr s'"
  shows "\<exists>p b. parts s' = (db_pool s, tx_pool s, rx_pool s, ((pendingSlotVector (rdmaEngine s))[i := p], b, slotScheduleIdx (rdmaEngine s)), win_part (rdmaEngine s)) \<and>
    (p = None \<and> b = (slotStatusVector (rdmaEngine s))[i := False] \<or>
     p \<noteq> None \<and> b = slotStatusVector (rdmaEngine s) \<and> pendingSlotVector (rdmaEngine s) ! i \<noteq> None)"
proof -
  obtain ps where ps: "pendingSlotVector (rdmaEngine s) ! i = Some ps"
    using assms by (auto simp: slice_slot_def split: option.splits)
  consider s1 where "parts s1 = parts s" "s' = clear_slot i s1"
    | p s1 where "parts s1 = parts s" "s' = upd_eng (\<lambda>e. e\<lparr>pendingSlotVector := (pendingSlotVector e)[i := Some p]\<rparr>) s1"
    using assms ps by (auto simp: slice_slot_def slice_write_def Let_def ebind_Inr split: if_splits dest: parts_single_packet)
      (blast intro: parts_write_packet)+
  then show ?thesis
  proof cases
    case 1
    then have "parts s' = (db_pool s, tx_pool s, rx_pool s, ((pendingSlotVector (rdmaEngine s))[i := None],
        (slotStatusVector (rdmaEngine s))[i := False], slotScheduleIdx (rdmaEngine s)), win_part (rdmaEngine s))"
      by (simp add: clear_slot_def parts_eng Let_def parts_def part_defs)
    then show ?thesis by blast
  next
    case 2
    then have "parts s' = (db_pool s, tx_pool s, rx_pool s, ((pendingSlotVector (rdmaEngine s))[i := Some p],
        slotStatusVector (rdmaEngine s), slotScheduleIdx (rdmaEngine s)), win_part (rdmaEngine s))"
      by (simp add: parts_eng Let_def parts_def part_defs)
    then show ?thesis using ps by blast
  qed
qed

lemma slots_agree_slice:
  assumes "slots_agree s" and "slot_part s' = ((pendingSlotVector (rdmaEngine s))[i := p], b, k)" and "unat k < PENDINGSLOTNUM"
    and "p = None \<and> b = (slotStatusVector (rdmaEngine s))[i := False] \<or>
     p \<noteq> None \<and> b = slotStatusVector (rdmaEngine s) \<and> pendingSlotVector (rdmaEngine s) ! i \<noteq> None"
  shows "slots_agree s'"
proof -
  have "b = (slotStatusVector (rdmaEngine s))[i := (p \<noteq> None)]"
  proof (cases "p \<noteq> None \<and> i < length (slotStatusVector (rdmaEngine s))")
    case True
    then have "slotStatusVector (rdmaEngine s) ! i = True"
      using assms(1,4) by (auto simp: slots_agree_def slot_part_def list_all2_conv_all_nth)
    then show ?thesis using assms(4) True by (metis list_update_id)
  qed (use assms(4) in \<open>auto simp: not_less list_update_beyond\<close>)
  then show ?thesis using slots_agree_update [OF assms(1) _ assms(3), of s' i p] assms(2) by (simp add: slot_part_def)
qed

lemma rr_u8_bound: "unat i < n \<Longrightarrow> n \<le> 256 \<Longrightarrow> unat (snd (rr_u8 n ne i)) < n"
  using rr_select_idx [of "unat i" n ne] by (simp add: rr_u8_def Let_def unat_of_nat)

lemma lawful_slicing:
  assumes "slicingProcessing s = Inr s'"
  shows "lawful s s'"
proof -
  let ?k = "snd (rr_u8 PENDINGSLOTNUM (\<lambda>i. slotStatusVector (rdmaEngine s) ! i) (slotScheduleIdx (rdmaEngine s)))"
  obtain i s1 where s1: "s1 = s \<or> slice_slot i s = Inr s1" and s': "parts s' = parts (upd_eng (\<lambda>e. e\<lparr>slotScheduleIdx := ?k\<rparr>) s1)"
    using assms by (auto simp: slicingProcessing_def Let_def ensure_def ebind_Inr split: if_splits option.splits) blast+
  have k: "unat ?k < PENDINGSLOTNUM" if "slots_agree s"
    using that by (intro rr_u8_bound) (simp_all add: slots_agree_def slot_part_def)
  from s1 show ?thesis
  proof
    assume "s1 = s"
    then have p: "parts s' = (db_pool s, tx_pool s, rx_pool s, (pendingSlotVector (rdmaEngine s), slotStatusVector (rdmaEngine s), ?k),
        win_part (rdmaEngine s))" using s' by (simp add: parts_eng Let_def part_defs)
    show ?thesis by (rule lawfulI [OF p]) (use k in \<open>simp_all add: slots_agree_def slot_part_def\<close>)
  next
    assume "slice_slot i s = Inr s1"
    then obtain p b where p: "parts s1 = (db_pool s, tx_pool s, rx_pool s, ((pendingSlotVector (rdmaEngine s))[i := p], b,
        slotScheduleIdx (rdmaEngine s)), win_part (rdmaEngine s))"
      and pb: "p = None \<and> b = (slotStatusVector (rdmaEngine s))[i := False] \<or>
       p \<noteq> None \<and> b = slotStatusVector (rdmaEngine s) \<and> pendingSlotVector (rdmaEngine s) ! i \<noteq> None"
      using parts_slice_slot by blast
    have q: "parts s' = (db_pool s, tx_pool s, rx_pool s, ((pendingSlotVector (rdmaEngine s))[i := p], b, ?k), win_part (rdmaEngine s))"
      using s' p by (simp add: parts_eng Let_def parts_def part_defs)
    show ?thesis by (rule lawfulI [OF q]) (use k in \<open>simp_all add: slots_agree_slice [OF _ _ _ pb]\<close>)
  qed
qed

section \<open>Window, receive side, completions\<close>

lemma parts_completions:
  "scuProcessing s = Inr s' \<Longrightarrow> parts s' = parts s" "rcuProcessing s = Inr s' \<Longrightarrow> parts s' = parts s"
  by (cases "txCqcRspFifo s"; cases "rg2scFifo (rdmaEngine s)"; cases "rxCqcRspFifo s"; cases "rp2rcFifo (rdmaEngine s)";
      auto simp: scuProcessing_def rcuProcessing_def post_cqe_def Let_def ebind_Inr parts_eng; simp add: parts_def part_defs)+

lemma parts_rgu_send [simp]: "parts (rgu_send p s) = parts s"
  by (simp add: rgu_send_def parts_eng Let_def) (simp add: parts_def part_defs)

lemma parts_sau [simp]: "parts (sauProcessing s) = parts s"
  by (auto simp: sauProcessing_def Let_def parts_eng split: list.splits) (simp add: parts_def part_defs)

lemma parts_rdCpl: "rdCplRpuProcessing s = Inr s' \<Longrightarrow> parts s' = parts s"
  by (auto simp: rdCplRpuProcessing_def ensure_def Let_def parts_eng split: if_splits) (simp add: parts_def part_defs)

text \<open>Everything but the window.\<close>

definition oparts :: "rnic \<Rightarrow> _" where
  "oparts s = (db_pool s, tx_pool s, rx_pool s, slot_part s, windowCap (rdmaEngine s))"

lemma oparts_view: "view s' = view s \<Longrightarrow> oparts s' = oparts s"
  by (simp add: oparts_def view_def part_defs)

lemma oparts_prims [simp]:
  "oparts (sched_at e t s) = oparts s" "oparts (sched_next e s) = oparts s" "oparts (sched_next_if c e s) = oparts s"
  "oparts (heap_set p ob s) = oparts s" "oparts (snd (alloc ob s)) = oparts s" "oparts (snd (new_CqcResc s)) = oparts s"
  "oparts (snd (new_bytes bs s)) = oparts s" "oparts (s\<lparr>dataReqFifo := x2\<rparr>) = oparts s" "oparts (s\<lparr>txdataRspFifo := x3\<rparr>) = oparts s"
  by (rule oparts_view, simp)+

lemma oparts_eng:
  "oparts (upd_eng f s) = (let e = f (rdmaEngine s) in (db_pool s, (dp2ddIdxFifo e, dd2dpVector e),
     (rp2raIdxFifo e, rs2rpVector e), (pendingSlotVector e, slotStatusVector e, slotScheduleIdx e), windowCap e))"
  by (simp add: oparts_def part_defs upd_eng_def Let_def)

lemma oparts_win [simp]:
  "oparts (upd_eng (\<lambda>e. e\<lparr>ra2rgFifo := r\<rparr>) s) = oparts s" "oparts (upd_eng (\<lambda>e. e\<lparr>dp2rgFifo := d\<rparr>) s) = oparts s"
  "oparts (upd_eng (\<lambda>e. e\<lparr>sndWindowList := W e\<rparr>) s) = oparts s" "oparts (set_window n s) = oparts s"
  "oparts (upd_eng (\<lambda>e. e\<lparr>rg2scFifo := F e\<rparr>) s) = oparts s" "oparts (upd_eng (\<lambda>e. e\<lparr>messageEnd := m\<rparr>) s) = oparts s"
  "oparts (rgu_send p s) = oparts s"
  by (simp_all add: set_window_def rgu_send_def oparts_eng Let_def) (simp_all add: oparts_def part_defs)

lemma oparts_postTxCpl: "postTxCpl ty q c d s = Inr s' \<Longrightarrow> oparts s' = oparts s"
  by (auto simp: postTxCpl_def Let_def split: if_splits dest!: oparts_view [OF vw.postCqcReq_kept])

lemma oparts_rru_elem: "rru_elem rx q c a f w s = Inr s' \<Longrightarrow> oparts s' = oparts s"
  by (auto simp: rru_elem_def Let_def ebind_Inr rdmaReadRsp_def post_dataWrite_def split: if_splits dest!: oparts_postTxCpl)

lemma oparts_rru_loop: "rru_loop rx q c a n l f s = Inr ((l', f'), s') \<Longrightarrow> oparts s' = oparts s"
proof (induction l arbitrary: f s)
  case (Cons e l)
  show ?case
  proof (cases "f > a \<or> f = a \<and> n")
    case False
    then show ?thesis
      using Cons.prems Cons.IH unfolding rru_loop.simps if_not_P [OF False]
      by (auto simp: ebind_Inr dest!: oparts_rru_elem)
  qed (use Cons.prems in auto)
qed (auto split: if_splits)

lemma oparts_rru: "rruProcessing s = Inr s' \<Longrightarrow> oparts s' = oparts s"
  by (auto simp: rruProcessing_def rru_release_def Let_def ebind_Inr split: list.splits option.splits if_splits
      dest!: oparts_rru_loop)

lemma oparts_rgu_finish: "rgu_finish p q a d s = Inr s' \<Longrightarrow> oparts s' = oparts s"
  by (auto simp: rgu_finish_def Let_def ebind_Inr split: if_splits dest!: oparts_postTxCpl oparts_view [OF vw.delete])

lemma oparts_rgu_window: "rgu_window p q n d s = Inr s' \<Longrightarrow> oparts s' = oparts s"
  by (auto simp: rgu_window_def Let_def ensure_def split: if_splits)

lemma oparts_rgu_data: "rgu_data d s = Inr s' \<Longrightarrow> oparts s' = oparts s"
  by (auto simp: rgu_data_def split: if_splits list.splits)

lemma oparts_upd_pkt: "upd_pkt p f s = Inr s' \<Longrightarrow> oparts s' = oparts s"
  by (auto simp: upd_pkt_def ebind_Inr)

lemma oparts_rgu: "rguProcessing s = Inr s' \<Longrightarrow> oparts s' = oparts s"
  by (auto simp: rguProcessing_def ebind_Inr split: list.splits if_splits
      dest!: oparts_rgu_finish oparts_rgu_window oparts_rgu_data oparts_upd_pkt)

lemma lawful_rgrr:
  assumes "rgrrProcessing s = Inr s'"
  shows "lawful s s'"
proof -
  consider s1 where "rruProcessing s = Inr s1" "s' = rgrr_tail s1"
    | s1 where "isWindowBlocked s = Inr False" "rguProcessing s = Inr s1" "s' = rgrr_tail s1" | "s' = s"
    using assms by (auto simp: rgrrProcessing_def ebind_Inr split: if_splits)
  then have "oparts s' = oparts s \<and> (win_cnt (rdmaEngine s) \<longrightarrow> win_cnt (rdmaEngine s'))"
    by cases (auto simp: rgrr_tail_def dest: oparts_rru oparts_rgu win_cnt_rru win_cnt_rgu)
  then show ?thesis by (auto simp: lawful_def oparts_def slots_agree_def)
qed


lemma parts_rau_tail: "rau_tail s = Inr s' \<Longrightarrow> parts s' = parts s"
  by (auto simp: rau_tail_def ebind_Inr split: list.splits if_splits)

lemma parts_rau_ack [simp]: "parts (rau_ack p s) = parts s"
  by (simp add: rau_ack_def parts_eng Let_def) (simp add: parts_def part_defs)

lemma parts_rau_request:
  assumes "rau_request p k s = Inr s'"
  shows "parts s' = parts s \<or> (\<exists>idx idxs. rp2raIdxFifo (rdmaEngine s) = idx # idxs \<and> unat idx < length (rs2rpVector (rdmaEngine s)) \<and>
    parts s' = (db_pool s, tx_pool s, (idxs, (rs2rpVector (rdmaEngine s))[unat idx := Some p]), slot_part s, win_part (rdmaEngine s)))"
proof (cases "rp2raIdxFifo (rdmaEngine s)")
  case (Cons idx idxs)
  let ?s1 = "upd_eng (\<lambda>e. e\<lparr>rp2raIdxFifo := idxs\<rparr>) (s\<lparr>rxFifo := tl (rxFifo s)\<rparr>)"
  obtain s2 where s2: "parts s2 = parts ?s1" and i: "unat idx < length (rs2rpVector (rdmaEngine s2))"
      and s': "s' = upd_eng (\<lambda>e. e\<lparr>rs2rpVector := (rs2rpVector e)[unat idx := Some p]\<rparr>) s2"
    using assms Cons by (auto simp: rau_request_def Let_def ebind_Inr ensure_def split: if_splits dest!: parts_post)
  have "parts s2 = (db_pool s, tx_pool s, (idxs, rs2rpVector (rdmaEngine s)), slot_part s, win_part (rdmaEngine s))"
    using s2 by (simp add: parts_eng Let_def part_defs)
  then show ?thesis using i Cons by (auto simp: s' parts_eng Let_def parts_def part_defs)
qed (use assms in \<open>simp add: rau_request_def\<close>)

lemma lawful_rau:
  assumes "rauProcessing s = Inr s'"
  shows "lawful s s'"
proof -
  obtain p k s1 where "s1 = rau_ack p s \<or> rau_request p k s = Inr s1" "rau_tail s1 = Inr s'"
    using assms by (auto simp: rauProcessing_def ebind_Inr split: list.splits if_splits)
  then consider "parts s' = parts s" | idx idxs where "rp2raIdxFifo (rdmaEngine s) = idx # idxs"
      "unat idx < length (rs2rpVector (rdmaEngine s))"
      "parts s' = (db_pool s, tx_pool s, (idxs, (rs2rpVector (rdmaEngine s))[unat idx := Some p]), slot_part s, win_part (rdmaEngine s))"
    using parts_rau_tail parts_rau_request parts_rau_ack by metis
  then show ?thesis
  proof cases
    case 2
    then show ?thesis using pool_step.take [OF 2(2), of idxs p]
      by (intro lawfulI [OF 2(3)]) (auto simp: rx_pool_def slots_agree_def)
  qed (rule lawful_parts)
qed

lemma parts_post_dataWrite [simp]: "parts (post_dataWrite c k a bs s) = parts s"
  by (simp add: post_dataWrite_def Let_def)

lemma parts_send_ack [simp]: "parts (send_ack k q s) = parts s"
  by (simp add: send_ack_def new_ack_def Let_def)

lemma parts_rcv_complete: "rcv_complete q d s = Inr s' \<Longrightarrow> parts s' = parts s"
  by (auto simp: rcv_complete_def Let_def parts_eng dest!: parts_post) (simp add: parts_def part_defs)

lemma parts_rcvRpu: "rcvRpuProcessing s = Inr s' \<Longrightarrow> parts s' = parts s"
  by (cases "rxdescRspFifo s"; cases "rp2rcvRpFifo (rdmaEngine s)")
    (auto simp: rcvRpuProcessing_def rcv_copy_def Let_def ebind_Inr parts_eng dest!: parts_rcv_complete parts_post,
     simp_all add: parts_def part_defs)

lemma parts_wr_reth: "wr_reth op k s = Inr (h, s') \<Longrightarrow> parts s' = parts s"
  by (auto simp: wr_reth_def Let_def ebind_Inr parts_eng split: if_splits option.splits)
    (auto simp: parts_def part_defs split: obj.splits)

lemma parts_wrRpu: "wrRpuProcessing p q s = Inr s' \<Longrightarrow> parts s' = parts s"
  by (auto simp: wrRpuProcessing_def Let_def ebind_Inr dest!: parts_wr_reth)

lemma parts_rdRpu: "rdRpuProcessing p q s = Inr s' \<Longrightarrow> parts s' = parts s"
  by (auto simp: rdRpuProcessing_def new_ack_def Let_def ebind_Inr parts_eng) (simp_all add: parts_def part_defs)

lemma parts_rpu_dispatch: "rpu_dispatch p q k s = Inr s' \<Longrightarrow> parts s' = parts s"
  by (auto simp: rpu_dispatch_def rpu_send_def Let_def parts_eng split: if_splits dest: parts_wrRpu parts_rdRpu)
    (simp_all add: parts_def part_defs)

lemma lawful_rpu:
  assumes "rpuProcessing s = Inr s'"
  shows "lawful s s'"
proof -
  obtain idx p where i: "unat idx < length (rs2rpVector (rdmaEngine s))" "rs2rpVector (rdmaEngine s) ! unat idx = Some p"
      and "parts s' = parts (rpu_credit idx s)"
  proof (cases "rxQpcRspFifo (qpcModule s)")
    case (Cons rsp rest)
    let ?s1 = "upd_qpcM (\<lambda>m. m\<lparr>rxQpcRspFifo := rest\<rparr>) s" and ?i = "cx_idx rsp"
    have l: "unat ?i < length (rs2rpVector (rdmaEngine s))" using assms Cons by (auto simp: rpuProcessing_def Let_def ensure_def split: if_splits)
    obtain p where p: "rs2rpVector (rdmaEngine s) ! unat ?i = Some p"
      using assms Cons by (cases "rs2rpVector (rdmaEngine s) ! unat ?i") (auto simp: rpuProcessing_def Let_def ensure_def ebind_Inr split: if_splits)
    have "parts s' = parts (rpu_credit ?i ?s1)"
      using assms Cons p by (auto simp: rpuProcessing_def Let_def ensure_def ebind_Inr split: if_splits
          dest!: parts_post parts_rpu_dispatch)
    also have "\<dots> = parts (rpu_credit ?i s)" by (simp add: rpu_credit_def parts_eng Let_def) (simp add: part_defs)
    finally show ?thesis using that l p by blast
  qed (use assms in \<open>simp add: rpuProcessing_def\<close>)
  then have p: "parts s' = (db_pool s, tx_pool s, (rp2raIdxFifo (rdmaEngine s) @ [idx], (rs2rpVector (rdmaEngine s))[unat idx := None]),
      slot_part s, win_part (rdmaEngine s))"
    by (simp add: rpu_credit_def parts_eng Let_def part_defs)
  show ?thesis using pool_step.give [OF i]
    by (intro lawfulI [OF p]) (auto simp: rx_pool_def slots_agree_def)
qed


section \<open>Every step of the device\<close>

lemmas view_handlers = view_ceuProc view_mboxFetchCpl vw.transReq_kept vw.mptRsp_kept vw.mttRsp_kept vw.dmaRrsp_kept vw.cqcReqProc_kept
  vw.cqcRspProc_kept vw.qpcReqProc_kept vw.qpcRspProc_kept vw.pushElemProc_kept vw.dmaWriteProcessing_kept vw.dmaReadProcessing_kept
  vw.dmaWriteCpl_kept vw.dmaReadCpl_kept vw.dmaChnl_kept vw.eth_kept

lemmas lawful_handlers = lawful_doorbellProc lawful_dfu lawful_ddu lawful_dpu lawful_slicing lawful_rgrr lawful_rau lawful_rpu

lemma lawful_dispatch:
  assumes "dispatch e s = Inr s'"
  shows "lawful s s'"
proof (cases e)
  case MptReadProcEvent
  then show ?thesis using assms by (intro lawful_view vw.on_cache_res_kept(1)) (auto simp: dispatch_def dest: more_rc_readProc)
next
  case MptFetchCplEvent
  then show ?thesis using assms by (intro lawful_view vw.on_cache_res_kept(1)) (auto simp: dispatch_def dest: more_fetchRsp)
next
  case MttReadProcEvent
  then show ?thesis using assms by (intro lawful_view vw.on_cache_res_kept(2)) (auto simp: dispatch_def dest: more_rc_readProc)
next
  case MttFetchCplEvent
  then show ?thesis using assms by (intro lawful_view vw.on_cache_res_kept(2)) (auto simp: dispatch_def dest: more_fetchRsp)
next
  case CqcReadProcEvent
  then show ?thesis using assms by (intro lawful_view vw.on_cache_res_kept(3)) (auto simp: dispatch_def dest: more_rc_readProc)
next
  case CqcFetchCplEvent
  then show ?thesis using assms by (intro lawful_view vw.on_cache_res_kept(3)) (auto simp: dispatch_def dest: more_fetchRsp)
qed (use assms in \<open>auto simp: dispatch_def intro: lawful_handlers lawful_view lawful_parts view_handlers parts_completions
      parts_rcvRpu parts_rdCpl\<close>)

lemma lawful_step:
  assumes "rnic_step s s'"
  shows "lawful s s'"
  using assms
proof cases
  case (event e t)
  have "lawful (s\<lparr>curTick := t, evq := (evq s)(e := None)\<rparr>) s'"
    using event(3) by (simp add: fire_def lawful_dispatch)
  then show ?thesis by (simp add: lawful_def slots_agree_def part_defs)
next
  case (host_write a bs)
  then show ?thesis by (intro lawful_view view_pio_write)
next
  case (link_recv k)
  then show ?thesis by (intro lawful_view) (auto dest!: vw.eth_kept(1))
qed (simp_all add: lawful_view)

text \<open>The rule for an invariant of the device.\<close>

lemma reachable_invariant [consumes 1, case_names init step]:
  assumes "reachable p b s" and "P (new_HanGuRnic p b)"
    and "\<And>s s'. reachable p b s \<Longrightarrow> rnic_step s s' \<Longrightarrow> P s \<Longrightarrow> P s'"
  shows "P s"
  using assms(1) unfolding reachable_def
proof (induction rule: rtranclp_induct)
  case (step s s')
  then show ?case using assms(3) [of s s'] by (simp add: reachable_def)
qed (rule assms(2))

interpretation db: credit_pool df2ccuIdxFifo doorbellVector rnic_step
  by unfold_locales (use lawful_step in \<open>simp add: lawful_def db_pool_def\<close>)

interpretation tx: credit_pool "\<lambda>s. dp2ddIdxFifo (rdmaEngine s)" "\<lambda>s. dd2dpVector (rdmaEngine s)" rnic_step
  by unfold_locales (use lawful_step in \<open>simp add: lawful_def tx_pool_def\<close>)

interpretation rx: credit_pool "\<lambda>s. rp2raIdxFifo (rdmaEngine s)" "\<lambda>s. rs2rpVector (rdmaEngine s)" rnic_step
  by unfold_locales (use lawful_step in \<open>simp add: lawful_def rx_pool_def\<close>)

lemma init_pools:
  assumes "p_reorder_cap p \<le> 256" and "s = new_HanGuRnic p b"
  shows "pool_ok (df2ccuIdxFifo s) (doorbellVector s)" "pool_ok (dp2ddIdxFifo (rdmaEngine s)) (dd2dpVector (rdmaEngine s))"
    "pool_ok (rp2raIdxFifo (rdmaEngine s)) (rs2rpVector (rdmaEngine s))"
    "length (doorbellVector s) = p_reorder_cap p" "length (dd2dpVector (rdmaEngine s)) = p_reorder_cap p"
    "length (rs2rpVector (rdmaEngine s)) = p_reorder_cap p"
  using assms by (simp_all add: new_HanGuRnic_def new_RdmaEngine_def pool_ok_init Let_def)

section \<open>Properties of the device\<close>


definition ex_params :: rnic_params where
  "ex_params = \<lparr>p_reorder_cap = 2, p_mpt_cache_num = 2, p_mtt_cache_num = 2, p_cqc_cache_num = 2, p_qpc_cache_cap = 1,
      p_dma_read_delay = 2, p_dma_write_delay = 1, p_pci_speed = 1, p_ether_speed = 1, p_link_delay = 1,
      p_cpu_num = 2, p_mac_addr = 1\<rparr>"


lemma ex_params_dev0: "new_HanGuRnic ex_params nicbase0 = dev0"
  by (simp add: dev0_def ex_params_def)

text \<open>The host rings a doorbell, and the doorbell unit takes it.\<close>

definition ex_db :: "u8 list" where
  "ex_db = le_enc (0x0000000100010001 :: u64)"

lemma ex_ring:
  "pio_write 0xc000000000000018 ex_db dev0 = Inr (sched_next DoorbellProcEvent
     (dev0\<lparr>regs := (regs dev0)\<lparr>db := le_dec ex_db\<rparr>, pio2ccuDbFifo := [doorbell_of (le_dec ex_db)]\<rparr>))"
proof -
  have "getBAR 0xc000000000000018 = Some (0, 0x18)" by code_simp
  moreover have "length ex_db = 8" by (simp add: ex_db_def)
  moreover have "pio2ccuDbFifo dev0 = []" by (simp add: dev0_def new_HanGuRnic_def Let_def)
  ultimately show ?thesis by (simp add: pio_write_def)
qed

lemma ex_rung: "\<exists>s. reachable ex_params nicbase0 s \<and> df2ccuIdxFifo s = [1]"
proof -
  let ?s1 = "sched_next DoorbellProcEvent
     (dev0\<lparr>regs := (regs dev0)\<lparr>db := le_dec ex_db\<rparr>, pio2ccuDbFifo := [doorbell_of (le_dec ex_db)]\<rparr>)"
  have d: "df2ccuIdxFifo dev0 = [0, 1]" "doorbellVector dev0 = [None, None]" "evq dev0 = (\<lambda>_. None)" "curTick dev0 = 0" "clockPeriod dev0 = 1"
    by (simp_all add: dev0_def new_HanGuRnic_def Let_def upt_rec numeral_2_eq_2 new_bytes_def alloc_def nicbase0_def)
  have s1: "rnic_step dev0 ?s1" using ex_ring by (rule rnic_step.host_write)
  have e1: "evq ?s1 = [DoorbellProcEvent \<mapsto> 1]" using d by (simp add: sched_next_def sched_at_def scheduled_def)
  let ?t = "?s1\<lparr>curTick := 1, evq := (evq ?s1)(DoorbellProcEvent := None)\<rparr>"
  let ?d = "doorbell_of (le_dec ex_db)"
  have t: "df2ccuIdxFifo ?t = [0, 1]" "doorbellVector ?t = [None, None]" "pio2ccuDbFifo ?t = [?d]"
    using d by (simp_all add: sched_next_def sched_at_def)
  obtain s3 where s3: "doorbell_post ?d 0 (?t\<lparr>pio2ccuDbFifo := [], df2ccuIdxFifo := [1], doorbellVector := [Some ?d, None]\<rparr>) = Inr s3"
    by (simp add: doorbell_post_def postQpcReq_def new_CxtReqRsp_def Let_def)
  have "df2ccuIdxFifo s3 = [1]"
    using arg_cong [OF vw.postQpcReq_kept [OF s3 [unfolded doorbell_post_def Let_def]], of "\<lambda>v. fst (snd v)"]
    by (simp add: view_proj)
  moreover obtain s2 where "fire DoorbellProcEvent 1 ?s1 = Inr s2" "view s2 = view s3"
    using t s3 by (simp add: fire_def dispatch_def doorbellProc_def)
  ultimately obtain s2 where s2: "fire DoorbellProcEvent 1 ?s1 = Inr s2" "df2ccuIdxFifo s2 = [1]"
    by (metis view_proj(2))
  have "rnic_step ?s1 s2" by (rule rnic_step.event [OF _ _ s2(1)]) (auto simp: e1 split: if_splits)
  then have "reachable ex_params nicbase0 s2"
    using s1 unfolding reachable_def ex_params_dev0 by (meson converse_rtranclp_into_rtranclp rtranclp.rtrancl_refl)
  then show ?thesis using s2(2) by blast
qed




lemma um_lookup_empty: "um_lookup um_empty = Map.empty"
  by (simp add: um_lookup_def um_empty_def fun_eq_iff)

lemma reachable_engine:
  assumes "reachable p b s"
  shows "win_cnt (rdmaEngine s) \<and> windowCap (rdmaEngine s) = 100 \<and> slots_agree s"
  using assms
proof (induction rule: reachable_invariant)
  case init
  show ?case
    by (simp add: new_HanGuRnic_def new_RdmaEngine_def win_cnt_def win_total_def slots_agree_def slot_part_def Let_def
        um_lookup_empty list_all2_conv_all_nth)
next
  case (step s s')
  then show ?case using lawful_step [of s s'] by (simp add: lawful_def)
qed

text \<open>
  C2. In every state the device can reach, at most a hundred packets wait for an acknowledgement, and
  the counter of the window is their number over all queue pairs.
\<close>

theorem window_bounded:
  assumes "reachable p b s"
  shows "windowSize (rdmaEngine s) \<le> 100 \<and>
    unat (windowSize (rdmaEngine s)) = (\<Sum>q\<in>dom (um_lookup (sndWindowList (rdmaEngine s))).
       length (wm_list (the (um_lookup (sndWindowList (rdmaEngine s)) q))))"
  using reachable_engine [OF assms] by (auto simp: win_cnt_def win_total_def)

lemma window_bounded_witness: "\<exists>s. reachable ex_params nicbase0 s \<and> df2ccuIdxFifo s = [1] \<and> windowSize (rdmaEngine s) \<le> 100"
  using window_bounded ex_rung by blast

lemma reachable_pools:
  assumes "reachable p b s" and "p_reorder_cap p \<le> 256"
  shows "pool_ok (df2ccuIdxFifo s) (doorbellVector s)" "pool_ok (dp2ddIdxFifo (rdmaEngine s)) (dd2dpVector (rdmaEngine s))"
    "pool_ok (rp2raIdxFifo (rdmaEngine s)) (rs2rpVector (rdmaEngine s))"
  using db.run_kept tx.run_kept rx.run_kept init_pools [OF assms(2) refl, of b] assms(1)
  unfolding reachable_def by blast+

lemma pool_hd: "pool_ok (i # f) v \<Longrightarrow> unat i < length v \<and> v ! unat i = None"
  by (auto simp: pool_ok_def)

lemma ddu_index_ok:
  assumes pool: "pool_ok (dp2ddIdxFifo (rdmaEngine s)) (dd2dpVector (rdmaEngine s))" and err: "dduProcessing s = Inl e"
  shows "e \<noteq> Undefined ''dd2dpVector index'' \<and> e \<noteq> Assert_failed ''dd2dpVector[idx] == nullptr''"
proof (cases "ddu_doorbell s")
  case (Inl e')
  then show ?thesis using err by (auto simp: dduProcessing_def ddu_doorbell_def ensure_def split: if_splits list.splits)
next
  case (Inr s1)
  have "tx_pool s1 = tx_pool s" using parts_ddu_doorbell [OF Inr] by (simp add: parts_def)
  then have ok: "pool_ok (dp2ddIdxFifo (rdmaEngine s1)) (dd2dpVector (rdmaEngine s1))" using pool by (simp add: tx_pool_def)
  have "ddu_desc idx d t (upd_eng (\<lambda>e. e\<lparr>dp2ddIdxFifo := idxs\<rparr>) (s1\<lparr>txdescRspFifo := ds\<rparr>)) \<noteq> Inl x"
    if "dp2ddIdxFifo (rdmaEngine s1) = idx # idxs" for idx idxs d t ds x
  proof -
    have "unat idx < length (dd2dpVector (rdmaEngine s1)) \<and> dd2dpVector (rdmaEngine s1) ! unat idx = None"
      using pool_hd ok that by metis
    then show ?thesis
      by (simp add: ddu_desc_def Let_def postQpcReq_def new_CxtReqRsp_def)
  qed
  then show ?thesis using err Inr
    by (auto simp: dduProcessing_def split: if_splits list.splits option.splits)
qed

lemma rau_request_ok:
  assumes "pool_ok (rp2raIdxFifo (rdmaEngine s)) (rs2rpVector (rdmaEngine s))"
  shows "rau_request p k s \<noteq> Inl e"
proof (cases "rp2raIdxFifo (rdmaEngine s)")
  case (Cons idx idxs)
  then have "unat idx < length (rs2rpVector (rdmaEngine s))" using assms pool_hd by metis
  then show ?thesis using Cons by (simp add: rau_request_def Let_def postQpcReq_def new_CxtReqRsp_def)
qed (simp add: rau_request_def)

lemma deref_pkt_error: "deref_pkt p s = Inl e \<Longrightarrow> e \<in> Undefined ` {''use of a deleted object'', ''wild pointer'', ''not a packet''}"
  by (auto simp: deref_pkt_def deref_def ebind_def split: sum.splits if_splits option.splits obj.splits)

lemma rau_index_ok:
  assumes pool: "pool_ok (rp2raIdxFifo (rdmaEngine s)) (rs2rpVector (rdmaEngine s))"
  shows "rauProcessing s \<noteq> Inl (Undefined ''rs2rpVector index'')"
proof
  assume err: "rauProcessing s = Inl (Undefined ''rs2rpVector index'')"
  have "rau_tail t \<noteq> Inl (Undefined ''rs2rpVector index'')" for t
    by (auto simp: rau_tail_def ebind_def split: list.splits if_splits sum.splits dest: deref_pkt_error)
  then show False
    using err rau_request_ok [OF pool]
    by (auto simp: rauProcessing_def ebind_def split: list.splits if_splits sum.splits dest: deref_pkt_error)
qed

lemma slicing_slot_ok:
  assumes "slots_agree s"
  shows "slicingProcessing s \<noteq> Inl (Assert_failed ''pendingSlotVector.at(slotScheduleIdx) != nullptr'')"
proof -
  let ?sel = "rr_u8 PENDINGSLOTNUM (\<lambda>i. slotStatusVector (rdmaEngine s) ! i) (slotScheduleIdx (rdmaEngine s))"
  have "pendingSlotVector (rdmaEngine s) ! i \<noteq> None" if "fst ?sel = Some i" for i
  proof -
    have "slotStatusVector (rdmaEngine s) ! i \<and> i < PENDINGSLOTNUM"
      using that rr_select_Some [of PENDINGSLOTNUM "\<lambda>i. slotStatusVector (rdmaEngine s) ! i" "unat (slotScheduleIdx (rdmaEngine s))"] assms
      by (auto simp: rr_u8_def Let_def slots_agree_def slot_part_def prod_eq_iff)
    then show ?thesis using assms by (auto simp: slots_agree_def slot_part_def list_all2_conv_all_nth)
  qed
  then have "slice_slot i s \<noteq> Inl (Assert_failed ''pendingSlotVector.at(slotScheduleIdx) != nullptr'')" if "fst ?sel = Some i" for i
    using that by (auto simp: slice_slot_def single_packet_def getRdmaHeadSize_def ebind_def ensure_def deref_qpc_def deref_def Let_def
        split: option.splits sum.splits if_splits obj.splits)
  then show ?thesis
    by (auto simp: slicingProcessing_def Let_def ensure_def ebind_def split: option.splits sum.splits)
qed



end
