(* ===== verification/Delivery.thy ===== *)
theory Delivery
  imports EngineRx Window
begin

text \<open>
  From one device to another: the packets request generation builds, read by the receive side of the
  peer. A write of one packet puts its payload where the descriptor says and is acknowledged, the
  acknowledgement is what the sender's window waits for, and a write of several packets fails at its
  first packet.
\<close>

section \<open>Acknowledgements\<close>

lemma bthOp_mk: "\<lparr>op_destQpn = bthOp ty tr OR qpn, needAck_psn = psn\<rparr> = mk_bth ty tr qpn False psn"
  by (simp add: mk_bth_def)

lemma pkt_get_append:
  "off + n \<le> length bs \<Longrightarrow> pkt_get off n (pkt_put 0 bs k) = slice off n bs"
  by (auto simp: pkt_get_def pkt_put_def slice_def intro!: nth_equalityI)

lemma ack_headers:
  assumes "p = pkt_put 0 (ack_bytes k q) m"
  shows "pkt_bth p = mk_bth (qpType q) PKT_TRANS_ACK (destQpn q) False (expPsn q)"
    "pkt_aeth p = \<lparr>syndrome_msn = push_bit 24 (ucast RSP_ACK)\<rparr>" "pkt_get 0 6 p = pkt_get 6 6 k" "pkt_get 6 6 p = pkt_get 0 6 k"
proof -
  let ?b = "mk_bth (qpType q) PKT_TRANS_ACK (destQpn q) False (expPsn q)"
  let ?a = "\<lparr>syndrome_msn = push_bit 24 (ucast RSP_ACK)\<rparr> :: AETH"
  have l: "length (enc_BTH h) = 8" "length (enc_AETH g) = 4" for h g by (simp_all add: bth.len_enc aeth.len_enc)
  have *: "ack_bytes k q = pkt_get 6 6 k @ pkt_get 0 6 k @ enc_BTH ?b @ enc_AETH ?a"
    by (simp add: ack_bytes_def bthOp_mk)
  have "slice 12 8 (ack_bytes k q) = enc_BTH ?b" "slice 20 4 (ack_bytes k q) = enc_AETH ?a"
    "slice 0 6 (ack_bytes k q) = pkt_get 6 6 k" "slice 6 6 (ack_bytes k q) = pkt_get 0 6 k"
    "length (ack_bytes k q) = 24"
    by (simp_all add: * slice_def l)
  then show "pkt_bth p = ?b" "pkt_aeth p = ?a" "pkt_get 0 6 p = pkt_get 6 6 k" "pkt_get 6 6 p = pkt_get 0 6 k"
    by (simp_all add: assms pkt_bth_def pkt_aeth_def pkt_get_append bth.dec_enc_all aeth.dec_enc_all)
qed




section \<open>Writes\<close>

lemma request_bth:
  assumes "rgu_headers d q pos psn = Inr (h, a)" and "qpType q = QP_TYPE_RC" and "tx_opcode d = OPCODE_RDMA_WRITE"
    and "pos \<in> {PKT_FIRST, PKT_MIDDLE, PKT_LAST, PKT_ONLY}"
  shows "pkt_bth (rgu_fill d q h len k) = mk_bth QP_TYPE_RC (trans_of d pos) (destQpn q) a psn"
    "pos \<in> {PKT_FIRST, PKT_ONLY} \<Longrightarrow> pkt_reth (rgu_fill d q h len k) = desc_reth d"
proof -
  let ?b = "mk_bth QP_TYPE_RC (trans_of d pos) (destQpn q) a psn"
  have h: "h = enc_BTH ?b @ (if has_reth d pos then enc_RETH (desc_reth d) else [])"
    using rgu_headers_shape [OF assms(1,2,4)] assms(3) by simp
  show "pkt_bth (rgu_fill d q h len k) = ?b"
    using pkt_bth_put [of ?b] by (simp add: pkt_bth_def rgu_fill_hdrs h)
  show "pkt_reth (rgu_fill d q h len k) = desc_reth d" if "pos \<in> {PKT_FIRST, PKT_ONLY}"
    using pkt_reth_put [of ?b "desc_reth d" "[]"] that assms(3)
    by (auto simp: pkt_reth_def rgu_fill_hdrs h has_reth_def)
qed

lemma rgu_fill_lengths [simp]:
  "pk_length (rgu_fill d q h len k) = pk_length k + len" "pk_bufLength (rgu_fill d q h len k) = pk_bufLength k"
  by (simp_all add: rgu_fill_def Let_def pkt_put_def)

lemma rgu_fill_payload:
  "12 + length h \<le> off \<Longrightarrow> pkt_get off n (rgu_fill d q h len k) = pkt_get off n k"
  by (simp add: rgu_fill_hdrs pkt_get_put_other)

text \<open>
  C7. A write of one packet arrives: the receiver posts exactly one write to its memory, of the payload
  the sender's DMA put behind the headers, with the remote key of the descriptor and the remote address
  within the page, and answers with an acknowledgement.
\<close>

theorem write_delivered:
  assumes "rgu_headers d q PKT_ONLY psn = Inr (h, a)" and "qpType q = QP_TYPE_RC" and "tx_opcode d = OPCODE_RDMA_WRITE"
    and "destQpn q < 0x1000000" and "psn < 0x1000000" and "pk_length k = 36" and "36 + unat len \<le> unat (pk_bufLength k)"
    and "r = rgu_fill d q h len k" and "deref_pkt rx s = Inr r" and "qpType q' = QP_TYPE_RC"
  shows "wrRpuProcessing rx q' s = Inr (send_ack r q'
    (post_dataWrite TPT_WCHNL_RX_DATA (tx_rkey d) (tx_rVaddr_l d) (pkt_get 36 (unat len) k) s))"
proof -
  have a: "a" "length h = 24" using assms(1-3) by (auto simp: rgu_headers_def bth.len_enc reth.len_enc)
  have t: "trans_of d PKT_ONLY = PKT_TRANS_RWRITE_ONLY" by (simp add: trans_of_def assms(3))
  have b: "pkt_bth r = mk_bth QP_TYPE_RC PKT_TRANS_RWRITE_ONLY (destQpn q) True psn"
    using request_bth(1) [OF assms(1-3)] a by (simp add: assms(8) t)
  have e: "pkt_reth r = desc_reth d" using request_bth(2) [OF assms(1-3)] by (simp add: assms(8))
  have op: "bth_op (pkt_bth r) = ucast PKT_TRANS_RWRITE_ONLY" by (simp add: b mk_bth_op assms(4))
  have ack: "drop_bit 24 (needAck_psn (pkt_bth r)) AND 1 \<noteq> 0" using mk_bth_ack [OF assms(5)] b by simp
  have "pk_length r - wr_hdr (ucast PKT_TRANS_RWRITE_ONLY) = len" by (simp add: assms(6,8) wr_hdr_def)
  moreover have "pkt_copy rx 36 (unat len) s = Inr (pkt_get 36 (unat len) k)"
    using assms(7,9) a(2) by (simp add: pkt_copy_def assms(8) rgu_fill_payload)
  ultimately show ?thesis
    using ack by (simp add: wrRpuProcessing_def assms(9,10) op wr_reth_def wr_data_def wr_hdr_def e desc_reth_def)
qed

text \<open>
  C37. A write of more than one packet fails at the receiver: the packet that starts it makes the
  receive unit copy from a pointer that was never assigned.
\<close>

theorem write_first_undefined:
  assumes "rgu_headers d q PKT_FIRST psn = Inr (h, a)" and "qpType q = QP_TYPE_RC" and "tx_opcode d = OPCODE_RDMA_WRITE"
    and "destQpn q < 0x1000000" and "deref_pkt rx s = Inr (rgu_fill d q h len k)"
  shows "wrRpuProcessing rx q' s = Inl (Undefined ''memcpy from an unassigned pointer'')"
proof -
  have t: "trans_of d PKT_FIRST = PKT_TRANS_RWRITE_FIRST" by (simp add: trans_of_def assms(3))
  have "bth_op (pkt_bth (rgu_fill d q h len k)) = ucast PKT_TRANS_RWRITE_FIRST"
    using request_bth(1) [OF assms(1-3)] by (simp add: t mk_bth_op assms(4))
  then show ?thesis by (simp add: wrRpuProcessing_def assms(5) wr_reth_def wr_data_def Let_def)
qed

section \<open>Examples\<close>

text \<open>The receiver holds the given packet of queue pair 5 of the sender.\<close>

definition ex_write :: "u8 \<Rightarrow> u8 list" where
  "ex_write pos = (case rgu_headers (ex_desc 3) qpc_sample pos 7 of Inr (h, _) \<Rightarrow> h | Inl _ \<Rightarrow> [])"

definition ex_recv :: "u8 \<Rightarrow> rnic" where
  "ex_recv pos = dev0\<lparr>heap := [Some (OPkt (rgu_fill (ex_desc 3) qpc_sample (ex_write pos) 64
     ((ex_pkt [])\<lparr>pk_length := 36\<rparr>)))]\<rparr>"

lemma ex_recv_pkt: "deref_pkt 0 (ex_recv pos) = Inr (rgu_fill (ex_desc 3) qpc_sample (ex_write pos) 64 ((ex_pkt [])\<lparr>pk_length := 36\<rparr>))"
  by (simp add: ex_recv_def deref_pkt_def deref_def)

lemma ex_headers:
  "rgu_headers (ex_desc 3) qpc_sample PKT_ONLY 7 = Inr (ex_write PKT_ONLY, True)"
  "rgu_headers (ex_desc 3) qpc_sample PKT_FIRST 7 = Inr (ex_write PKT_FIRST, False)"
  by (simp_all add: ex_write_def rgu_headers_def ex_desc_def tx_opcode_def qpc_sample_def)

lemma write_delivered_witness: "\<exists>s'. wrRpuProcessing 0 qpc_sample (ex_recv PKT_ONLY) = Inr s'"
  using write_delivered [OF ex_headers(1) _ _ _ _ _ _ refl ex_recv_pkt, where q' = qpc_sample]
  by (simp add: qpc_sample_def ex_desc_def tx_opcode_def ex_pkt_def new_EthPacket_def pkt_put_def)

lemma write_first_undefined_witness:
  "wrRpuProcessing 0 qpc_sample (ex_recv PKT_FIRST) = Inl (Undefined ''memcpy from an unassigned pointer'')"
  by (rule write_first_undefined [OF ex_headers(2) _ _ _ ex_recv_pkt])
    (simp_all add: qpc_sample_def ex_desc_def tx_opcode_def)

end
