(* ===== verification/Verbs.thy ===== *)
theory Verbs
  imports Driver
begin

text \<open>
  \<^verbatim>\<open>libhgrnic.c\<close> and \<^verbatim>\<open>libhgrnic.h\<close> of \<^verbatim>\<open>tests/test-progs/hangu-rnic-isolated/src\<close>: the verbs library
  of the simulated processes. A process is the driver it opened and the device (\<open>host\<close>): a store of
  the process goes through its page table to memory or to a register. What the process cannot know
  is an argument: the addresses \<^verbatim>\<open>memalign\<close> returns, and \<open>dev\<close>, what the device does while the library
  spins. A loop that waits for the device may wait forever; \<open>None\<close> says that it does.
\<close>

section \<open>Loops that wait\<close>

type_synonym 'a wres = "'a res option"

definition wbind :: "'a wres \<Rightarrow> ('a \<Rightarrow> 'b wres) \<Rightarrow> 'b wres" where
  "wbind m f = (case m of None \<Rightarrow> None | Some (Inl e) \<Rightarrow> Some (Inl e) | Some (Inr x) \<Rightarrow> f x)"

lemma wbind_simps [simp]:
  "wbind None f = None" "wbind (Some (Inl e)) f = Some (Inl e)" "wbind (Some (Inr x)) f = f x"
  by (simp_all add: wbind_def)

section \<open>Structures\<close>

record ibv_mtt =
  im_index :: u32
  im_vaddr :: u64
  im_paddr :: u64

record ibv_mr =
  ib_lkey :: u32
  ib_flag :: u32
  ib_addr :: u64
  ib_length :: u64
  ib_num_mtt :: u32
  ib_mtt :: ibv_mtt

record ibv_cq =
  icq_num :: u32
  icq_mr :: ibv_mr
  icq_offset :: u32
  icq_cpl_cnt :: u32

record ibv_qp =
  iqp_num :: u32
  iqp_flag :: u8
  iqp_type :: u8
  iqp_cq :: "ibv_cq option"
  iqp_snd_mr :: ibv_mr
  iqp_rcv_mr :: ibv_mr
  iqp_snd_wqe_offset :: u16
  iqp_rcv_wqe_offset :: u16
  iqp_llid :: u16
  iqp_dest_qpn :: u32
  iqp_snd_psn :: u32
  iqp_ack_psn :: u32
  iqp_exp_psn :: u32
  iqp_dlid :: u16
  iqp_qkey :: u32

text \<open>
  A work request. Its union is kept as the four words it occupies: the datagram view reads
  \<^verbatim>\<open>dlid\<close>, \<^verbatim>\<open>qkey\<close> and \<^verbatim>\<open>dqpn\<close> from the first three, the RDMA view reads \<^verbatim>\<open>rkey\<close> from the first and the
  aligned 64-bit \<^verbatim>\<open>raddr\<close> from the last two.
\<close>

record ibv_wqe =
  wq_trans_type :: u8
  wq_flag :: u32
  wq_mr :: ibv_mr
  wq_offset :: u32
  wq_length :: u32
  wq_w0 :: u32
  wq_w1 :: u32
  wq_w2 :: u32
  wq_w3 :: u32

definition wq_raddr :: "ibv_wqe \<Rightarrow> u64" where
  "wq_raddr w = push_bit 32 (ucast (wq_w3 w)) OR ucast (wq_w2 w)"

record cpl_desc =
  cpl_srv_type :: u8
  cpl_trans_type :: u8
  cpl_byte_cnt :: u32
  cpl_qp_num :: u32
  cpl_cq_num :: u32

record ibv_context =
  ctx_lid :: u16
  ctx_doorbell :: u64
  ctx_sync :: u64
  cm_mr :: ibv_mr
  cm_cq :: ibv_cq
  cm_qp :: ibv_qp
  cm_snd_off :: u32
  cm_rcv_posted_off :: u32
  cm_rcv_acked_off :: u32
  cm_rcv_num :: u32

record ibv_mr_init_attr =
  mra_flag :: u32
  mra_length :: u64

abbreviation (input) "MR_FLAG_RD \<equiv> (1 :: u32)"
abbreviation (input) "MR_FLAG_WR \<equiv> (2 :: u32)"
abbreviation (input) "MR_FLAG_LOCAL \<equiv> (4 :: u32)"
abbreviation (input) "MR_FLAG_REMOTE \<equiv> (8 :: u32)"
abbreviation (input) "IBV_TYPE_NULL \<equiv> (0 :: u8)"
abbreviation (input) "IBV_TYPE_SEND \<equiv> (1 :: u8)"
abbreviation (input) "IBV_TYPE_RECV \<equiv> (2 :: u8)"
abbreviation (input) "IBV_TYPE_RDMA_WRITE \<equiv> (3 :: u8)"
abbreviation (input) "IBV_TYPE_RDMA_READ \<equiv> (4 :: u8)"
abbreviation (input) "QKEY_CM \<equiv> (0xFF :: u32)"
abbreviation (input) "RCV_WR_BASE \<equiv> (0 :: u32)"
abbreviation (input) "SND_WR_BASE \<equiv> (3000 :: u32)"
abbreviation (input) "RCV_WR_MAX \<equiv> (70 :: u32)"
abbreviation (input) "PAGE_SIZE \<equiv> (4096 :: u64)"

section \<open>Memory of the process\<close>

fun read_bytes :: "u64 \<Rightarrow> nat \<Rightarrow> HanGuDriver \<Rightarrow> rnic \<Rightarrow> u8 list res" where
  "read_bytes va 0 d s = Inr []"
| "read_bytes va (Suc n) d s =
     (case pt_translate va d of
        None \<Rightarrow> Inl (Panicked ''page fault'')
      | Some pa \<Rightarrow> ebind (read_bytes (va + 1) n d s) (\<lambda>bs. Inr (hostMem s pa # bs)))"

definition load :: "u64 \<Rightarrow> nat \<Rightarrow> host \<Rightarrow> u8 list res" where
  "load va n h = read_bytes va n (fst h) (snd h)"

section \<open>Commands\<close>

text \<open>The command is issued until the driver takes it; then the library waits for its completion.\<close>

partial_function (option) cmd_issue :: "(rnic \<Rightarrow> rnic res) \<Rightarrow> ioc \<Rightarrow> host \<Rightarrow> (ioc \<times> host) wres" where
  "cmd_issue dev req h =
     (case ioctl req h of
        Inl e \<Rightarrow> Some (Inl e)
      | Inr (ret, req', h') \<Rightarrow>
          if ret = 0 then Some (Inr (req', h'))
          else (case dev (snd h') of Inl e \<Rightarrow> Some (Inl e) | Inr s \<Rightarrow> cmd_issue dev req' (fst h', s)))"

partial_function (option) cmd_wait :: "(rnic \<Rightarrow> rnic res) \<Rightarrow> host \<Rightarrow> host wres" where
  "cmd_wait dev h =
     (case dev (snd h) of
        Inl e \<Rightarrow> Some (Inl e)
      | Inr s \<Rightarrow>
          (case ioctl IOC_CHECK_GO (fst h, s) of
             Inl e \<Rightarrow> Some (Inl e)
           | Inr (ret, _, h') \<Rightarrow> if ret = 0 then Some (Inr h') else cmd_wait dev h'))"

definition write_cmd :: "(rnic \<Rightarrow> rnic res) \<Rightarrow> ioc \<Rightarrow> host \<Rightarrow> (ioc \<times> host) wres" where
  "write_cmd dev req h =
     wbind (cmd_issue dev req h) (\<lambda>r. wbind (cmd_wait dev (snd r)) (\<lambda>h'. Some (Inr (fst r, h'))))"

definition trans_wait :: "host \<Rightarrow> host res" where
  "trans_wait h = ebind (ioctl IOC_CHECK_GO h) (\<lambda>r. Inr (snd (snd r)))"

definition get_time :: "host \<Rightarrow> (u64 \<times> host) res" where
  "get_time h =
     ebind (ioctl (IOC_GET_TIME 0) h) (\<lambda>r. Inr ((case fst (snd r) of IOC_GET_TIME t \<Rightarrow> t | _ \<Rightarrow> 0), snd (snd r)))"

section \<open>Memory regions\<close>

text \<open>\<^verbatim>\<open>(length >> 12) + (length & 0xFFF) ? 1 : 0\<close>, where the sum is the condition.\<close>

definition calc_num_mtt :: "u64 \<Rightarrow> u32" where
  "calc_num_mtt len = (if drop_bit 12 len + (len AND 0xFFF) \<noteq> 0 then 1 else 0)"

fun clear_all :: "u64 list \<Rightarrow> u64 \<Rightarrow> host \<Rightarrow> host res" where
  "clear_all [] len h = Inr h"
| "clear_all (a # as) len h = ebind (writeBlob a (replicate (unat len) 0) h) (clear_all as len)"

definition mtt_of :: "ioc \<Rightarrow> kfd_ioctl_init_mtt_args res" where
  "mtt_of r = (case r of IOC_ALLOC_MTT a \<Rightarrow> Inr a | IOC_WRITE_MTT a \<Rightarrow> Inr a | _ \<Rightarrow> Inl (Undefined ''request''))"

definition mpt_of :: "ioc \<Rightarrow> kfd_ioctl_alloc_mpt_args res" where
  "mpt_of r = (case r of IOC_ALLOC_MPT a \<Rightarrow> Inr a | _ \<Rightarrow> Inl (Undefined ''request''))"

definition new_mr :: "ibv_mr_init_attr \<Rightarrow> u64 \<Rightarrow> u32 \<Rightarrow> u64 \<Rightarrow> u32 \<Rightarrow> ibv_mr" where
  "new_mr attr addr mtt_index paddr lkey =
     \<lparr>ib_lkey = lkey, ib_flag = mra_flag attr, ib_addr = addr, ib_length = mra_length attr,
      ib_num_mtt = calc_num_mtt (mra_length attr),
      ib_mtt = \<lparr>im_index = mtt_index, im_vaddr = addr, im_paddr = paddr\<rparr>\<rparr>"

definition mpt_args_of :: "ibv_mr list \<Rightarrow> kfd_ioctl_write_mpt_args \<Rightarrow> kfd_ioctl_write_mpt_args" where
  "mpt_args_of mrs a =
     a\<lparr>mptw_batch_size := of_nat (length mrs),
            mptw_flag := \<lambda>i. if i < length mrs then ucast (ib_flag (mrs ! i)) else mptw_flag a i,
            mptw_addr := \<lambda>i. if i < length mrs then ib_addr (mrs ! i) else mptw_addr a i,
            mptw_length := \<lambda>i. if i < length mrs then ib_length (mrs ! i) else mptw_length a i,
            mptw_mtt_index := \<lambda>i. if i < length mrs then im_index (ib_mtt (mrs ! i)) else mptw_mtt_index a i,
            mptw_mpt_index := \<lambda>i. if i < length mrs then ib_lkey (mrs ! i) else mptw_mpt_index a i\<rparr>"

text \<open>The request structures are allocated once and used for every round of the loop.\<close>

type_synonym mr_args = "kfd_ioctl_init_mtt_args \<times> kfd_ioctl_alloc_mpt_args \<times> kfd_ioctl_write_mpt_args"

text \<open>One round of \<^verbatim>\<open>ibv_reg_batch_mr\<close>, for the regions at the addresses \<open>addrs\<close>.\<close>

definition reg_round ::
  "(rnic \<Rightarrow> rnic res) \<Rightarrow> ibv_mr_init_attr \<Rightarrow> u64 list \<Rightarrow> mr_args \<Rightarrow> host \<Rightarrow> (ibv_mr list \<times> mr_args \<times> host) wres" where
  "reg_round dev attr addrs args h =
     (let n = length addrs; mtt = fst args; mpta = fst (snd args); mptw = snd (snd args);
          mtt1 = mtt\<lparr>mtta_batch_size := of_nat n, mtta_vaddr := \<lambda>i. if i < n then addrs ! i else mtta_vaddr mtt i\<rparr>
      in wbind (Some (ensure (n = 0 \<or> calc_num_mtt (mra_length attr) = 1) (Assert_failed ''num_mtt == 1'')
                  (clear_all addrs (mra_length attr) h))) (\<lambda>h1.
         wbind (write_cmd dev (IOC_ALLOC_MTT mtt1) h1) (\<lambda>r2.
         wbind (Some (mtt_of (fst r2))) (\<lambda>mtt2.
         wbind (write_cmd dev (IOC_WRITE_MTT (mtt2\<lparr>mtta_batch_size := of_nat n\<rparr>)) (snd r2)) (\<lambda>r3.
         wbind (Some (mtt_of (fst r3))) (\<lambda>mtt3.
         wbind (write_cmd dev (IOC_ALLOC_MPT (mpta\<lparr>mpta_batch_size := of_nat n\<rparr>)) (snd r3)) (\<lambda>r4.
         wbind (Some (mpt_of (fst r4))) (\<lambda>mpta1.
           let mrs = map (\<lambda>i. new_mr attr (addrs ! i) (mtta_mtt_index mtt2 + of_nat i) (mtta_paddr mtt2 i)
                       (mpta_mpt_index mpta1 + of_nat i)) [0..<n];
               mptw1 = mpt_args_of mrs mptw
           in wbind (Some (ensure (\<forall>m \<in> set mrs. ib_lkey m = im_index (ib_mtt m)) (Assert_failed ''lkey == mtt_index'')
                       (Inr ()))) (\<lambda>_.
              wbind (write_cmd dev (IOC_WRITE_MPT mptw1) (snd r4)) (\<lambda>r5.
              Some (Inr (mrs, (mtt3, mpta1, mptw1), snd r5))))))))))))"

function reg_rounds ::
  "(rnic \<Rightarrow> rnic res) \<Rightarrow> ibv_mr_init_attr \<Rightarrow> u64 list \<Rightarrow> mr_args \<Rightarrow> host \<Rightarrow> (ibv_mr list \<times> host) wres" where
  "reg_rounds dev attr addrs args h =
     (if addrs = [] then Some (Inr ([], h))
      else wbind (reg_round dev attr (take 512 addrs) args h) (\<lambda>r.
           wbind (reg_rounds dev attr (drop 512 addrs) (fst (snd r)) (snd (snd r))) (\<lambda>q.
           Some (Inr (fst r @ fst q, snd q)))))"
  by pat_completeness auto
termination
  by (relation "measure (\<lambda>(_, _, addrs, _, _). length addrs)") auto

definition ibv_reg_batch_mr ::
  "(rnic \<Rightarrow> rnic res) \<Rightarrow> ibv_mr_init_attr \<Rightarrow> u64 list \<Rightarrow> mr_args \<Rightarrow> host \<Rightarrow> (ibv_mr list \<times> host) wres" where
  "ibv_reg_batch_mr dev attr addrs fresh h = reg_rounds dev attr addrs fresh h"

text \<open>A single region; here the key and the index of the translation entry are not compared.\<close>

definition ibv_reg_mr ::
  "(rnic \<Rightarrow> rnic res) \<Rightarrow> ibv_mr_init_attr \<Rightarrow> u64 \<Rightarrow> mr_args \<Rightarrow> host \<Rightarrow> (ibv_mr \<times> host) wres" where
  "ibv_reg_mr dev attr addr fresh h =
     (let mtt = fst fresh; mpta = fst (snd fresh); mptw = snd (snd fresh);
          mtt1 = mtt\<lparr>mtta_batch_size := 1, mtta_vaddr := (mtta_vaddr mtt)(0 := addr)\<rparr>
      in wbind (Some (ensure (calc_num_mtt (mra_length attr) = 1) (Assert_failed ''num_mtt == 1'')
                  (clear_all [addr] (mra_length attr) h))) (\<lambda>h1.
         wbind (write_cmd dev (IOC_ALLOC_MTT mtt1) h1) (\<lambda>r2.
         wbind (Some (mtt_of (fst r2))) (\<lambda>mtt2.
         wbind (write_cmd dev (IOC_WRITE_MTT mtt2) (snd r2)) (\<lambda>r3.
         wbind (write_cmd dev (IOC_ALLOC_MPT (mpta\<lparr>mpta_batch_size := 1\<rparr>)) (snd r3)) (\<lambda>r4.
         wbind (Some (mpt_of (fst r4))) (\<lambda>mpta1.
           let mr = new_mr attr addr (mtta_mtt_index mtt2) (mtta_paddr mtt2 0) (mpta_mpt_index mpta1)
           in wbind (write_cmd dev (IOC_WRITE_MPT (mpt_args_of [mr] mptw)) (snd r4)) (\<lambda>r5.
              Some (Inr (mr, snd r5))))))))))"

section \<open>Completion queues and queue pairs\<close>

definition cq_of :: "ioc \<Rightarrow> u32 res" where
  "cq_of r = (case r of IOC_ALLOC_CQ n \<Rightarrow> Inr n | _ \<Rightarrow> Inl (Undefined ''request''))"

definition qp_of :: "ioc \<Rightarrow> kfd_ioctl_alloc_qp_args res" where
  "qp_of r = (case r of IOC_ALLOC_QP a \<Rightarrow> Inr a | _ \<Rightarrow> Inl (Undefined ''request''))"

text \<open>The queue has the size of the attribute; the context that is written says one page.\<close>

definition ibv_create_cq ::
  "(rnic \<Rightarrow> rnic res) \<Rightarrow> u32 \<Rightarrow> u64 \<Rightarrow> u32 \<Rightarrow> mr_args \<Rightarrow> host \<Rightarrow> (ibv_cq \<times> host) wres" where
  "ibv_create_cq dev size_log addr junk_num fresh h =
     wbind (write_cmd dev (IOC_ALLOC_CQ junk_num) h) (\<lambda>r1.
     wbind (Some (cq_of (fst r1))) (\<lambda>num.
     wbind (ibv_reg_mr dev \<lparr>mra_flag = MR_FLAG_RD OR MR_FLAG_LOCAL, mra_length = scast (push_bit (unat size_log) (1 :: u32))\<rparr>
              addr fresh (snd r1)) (\<lambda>r2.
     wbind (write_cmd dev (IOC_WRITE_CQC \<lparr>cqcw_cq_num = num, cqcw_offset = 0, cqcw_lkey = ib_lkey (fst r2), cqcw_size_log = 12\<rparr>)
              (snd r2)) (\<lambda>r3.
     Some (Inr (\<lparr>icq_num = num, icq_mr = fst r2, icq_offset = 0, icq_cpl_cnt = 0\<rparr>, snd r3))))))"

definition zero_mr :: ibv_mr where
  "zero_mr = \<lparr>ib_lkey = 0, ib_flag = 0, ib_addr = 0, ib_length = 0, ib_num_mtt = 0,
     ib_mtt = \<lparr>im_index = 0, im_vaddr = 0, im_paddr = 0\<rparr>\<rparr>"

definition zero_qp :: ibv_qp where
  "zero_qp = \<lparr>iqp_num = 0, iqp_flag = 0, iqp_type = 0, iqp_cq = None, iqp_snd_mr = zero_mr, iqp_rcv_mr = zero_mr,
     iqp_snd_wqe_offset = 0, iqp_rcv_wqe_offset = 0, iqp_llid = 0, iqp_dest_qpn = 0, iqp_snd_psn = 0, iqp_ack_psn = 0,
     iqp_exp_psn = 0, iqp_dlid = 0, iqp_qkey = 0\<rparr>"

definition ibv_create_qp ::
  "(rnic \<Rightarrow> rnic res) \<Rightarrow> u32 \<Rightarrow> u32 \<Rightarrow> u64 \<Rightarrow> u64 \<Rightarrow> mr_args \<Rightarrow> kfd_ioctl_alloc_qp_args \<Rightarrow> host \<Rightarrow> (ibv_qp \<times> host) wres" where
  "ibv_create_qp dev sq_size_log rq_size_log snd_addr rcv_addr fresh qp_args h =
     wbind (write_cmd dev (IOC_ALLOC_QP (qp_args\<lparr>qpa_batch_size := 1\<rparr>)) h) (\<lambda>r1.
     wbind (Some (qp_of (fst r1))) (\<lambda>qa.
     wbind (ibv_reg_mr dev \<lparr>mra_flag = MR_FLAG_WR OR MR_FLAG_LOCAL, mra_length = scast (push_bit (unat sq_size_log) (1 :: u32))\<rparr>
              snd_addr fresh (snd r1)) (\<lambda>r2.
     wbind (ibv_reg_mr dev \<lparr>mra_flag = MR_FLAG_WR OR MR_FLAG_LOCAL, mra_length = scast (push_bit (unat rq_size_log) (1 :: u32))\<rparr>
              rcv_addr fresh (snd r2)) (\<lambda>r3.
     Some (Inr (zero_qp\<lparr>iqp_num := qpa_qp_num qa, iqp_snd_mr := fst r2, iqp_rcv_mr := fst r3\<rparr>, snd r3))))))"

function alloc_qps ::
  "(rnic \<Rightarrow> rnic res) \<Rightarrow> nat \<Rightarrow> kfd_ioctl_alloc_qp_args \<Rightarrow> host \<Rightarrow> (u32 list \<times> host) wres" where
  "alloc_qps dev left args h =
     (if left = 0 then Some (Inr ([], h))
      else let sub = (if left > 256 then 256 else left)
           in wbind (write_cmd dev (IOC_ALLOC_QP (args\<lparr>qpa_batch_size := of_nat sub\<rparr>)) h) (\<lambda>r1.
              wbind (Some (qp_of (fst r1))) (\<lambda>qa.
              wbind (alloc_qps dev (left - sub) qa (snd r1)) (\<lambda>r2.
              Some (Inr (map (\<lambda>i. qpa_qp_num qa + of_nat i) [0..<sub] @ fst r2, snd r2))))))"
  by pat_completeness auto
termination
  by (relation "measure (\<lambda>(_, left, _, _). left)") auto

text \<open>
  A batch of queue pairs. Only the first structure of the array is cleared; \<open>mem i\<close> is what the memory
  of the others holds.
\<close>

definition ibv_create_batch_qp ::
  "(rnic \<Rightarrow> rnic res) \<Rightarrow> u32 \<Rightarrow> nat \<Rightarrow> u64 list \<Rightarrow> (nat \<Rightarrow> ibv_qp) \<Rightarrow> mr_args \<Rightarrow> kfd_ioctl_alloc_qp_args \<Rightarrow> host \<Rightarrow>
     (ibv_qp list \<times> host) wres" where
  "ibv_create_batch_qp dev sq_size_log batch_size addrs mem fresh qp_args h =
     wbind (alloc_qps dev batch_size qp_args h) (\<lambda>r1.
     wbind (ibv_reg_batch_mr dev \<lparr>mra_flag = MR_FLAG_WR OR MR_FLAG_LOCAL, mra_length = scast (push_bit (unat sq_size_log) (1 :: u32))\<rparr>
              (take (2 * batch_size) addrs) fresh (snd r1)) (\<lambda>r2.
     wbind (Some (ensure (2 * batch_size \<le> length addrs) (Undefined ''memalign'') (Inr ()))) (\<lambda>_.
     Some (Inr (map (\<lambda>i. (if i = 0 then zero_qp else mem i)\<lparr>iqp_num := fst r1 ! i,
              iqp_snd_mr := fst r2 ! (2 * i + 1), iqp_rcv_mr := fst r2 ! (2 * i)\<rparr>) [0..<batch_size], snd r2)))))"

definition qpc_elem_of :: "ibv_qp \<Rightarrow> kfd_qpc_elem res" where
  "qpc_elem_of qp =
     (case iqp_cq qp of
        None \<Rightarrow> Inl (Undefined ''null completion queue'')
      | Some cq \<Rightarrow>
          Inr \<lparr>qpw_flag = iqp_flag qp, qpw_type = iqp_type qp, qpw_sq_size_log = 12, qpw_rq_size_log = 12,
            qpw_snd_wqe_offset = iqp_snd_wqe_offset qp, qpw_rcv_wqe_offset = iqp_rcv_wqe_offset qp,
            qpw_llid = iqp_llid qp, qpw_dlid = iqp_dlid qp, qpw_src_qpn = iqp_num qp, qpw_dest_qpn = iqp_dest_qpn qp,
            qpw_snd_psn = iqp_snd_psn qp, qpw_ack_psn = iqp_ack_psn qp, qpw_exp_psn = iqp_exp_psn qp,
            qpw_cq_num = icq_num cq, qpw_snd_wqe_base_lkey = ib_lkey (iqp_snd_mr qp),
            qpw_rcv_wqe_base_lkey = ib_lkey (iqp_rcv_mr qp), qpw_qkey = iqp_qkey qp\<rparr>)"

fun qpc_elems_of :: "ibv_qp list \<Rightarrow> kfd_qpc_elem list res" where
  "qpc_elems_of [] = Inr []"
| "qpc_elems_of (q # qs) = ebind (qpc_elem_of q) (\<lambda>e. ebind (qpc_elems_of qs) (\<lambda>es. Inr (e # es)))"

definition zero_qpc_elem :: kfd_qpc_elem where
  "zero_qpc_elem = \<lparr>qpw_flag = 0, qpw_type = 0, qpw_sq_size_log = 0, qpw_rq_size_log = 0, qpw_snd_wqe_offset = 0,
     qpw_rcv_wqe_offset = 0, qpw_llid = 0, qpw_dlid = 0, qpw_src_qpn = 0, qpw_dest_qpn = 0, qpw_snd_psn = 0,
     qpw_ack_psn = 0, qpw_exp_psn = 0, qpw_cq_num = 0, qpw_snd_wqe_base_lkey = 0, qpw_rcv_wqe_base_lkey = 0, qpw_qkey = 0\<rparr>"

text \<open>One command for at most 256 queue pairs; \<open>old\<close> is what the request held before.\<close>

definition modify_round ::
  "(rnic \<Rightarrow> rnic res) \<Rightarrow> ibv_qp list \<Rightarrow> (nat \<Rightarrow> kfd_qpc_elem) \<Rightarrow> host \<Rightarrow> ((nat \<Rightarrow> kfd_qpc_elem) \<times> host) wres" where
  "modify_round dev qps old h =
     wbind (Some (qpc_elems_of qps)) (\<lambda>es.
       let el = (\<lambda>i. if i < length es then es ! i else old i)
       in wbind (write_cmd dev (IOC_WRITE_QPC \<lparr>qpw_batch_size = of_nat (length qps), qpw_elem = el\<rparr>) h) (\<lambda>r.
          Some (Inr (el, snd r))))"

function modify_rounds ::
  "(rnic \<Rightarrow> rnic res) \<Rightarrow> ibv_qp list \<Rightarrow> (nat \<Rightarrow> kfd_qpc_elem) \<Rightarrow> host \<Rightarrow> host wres" where
  "modify_rounds dev qps old h =
     (if qps = [] then Some (Inr h)
      else wbind (modify_round dev (take 256 qps) old h) (\<lambda>r. modify_rounds dev (drop 256 qps) (fst r) (snd r)))"
  by pat_completeness auto
termination
  by (relation "measure (\<lambda>(_, qps, _, _). length qps)") auto

definition ibv_modify_batch_qp :: "(rnic \<Rightarrow> rnic res) \<Rightarrow> ibv_qp list \<Rightarrow> host \<Rightarrow> host wres" where
  "ibv_modify_batch_qp dev qps h = modify_rounds dev qps (\<lambda>_. zero_qpc_elem) h"

definition ibv_modify_qp :: "(rnic \<Rightarrow> rnic res) \<Rightarrow> ibv_qp \<Rightarrow> host \<Rightarrow> host wres" where
  "ibv_modify_qp dev qp h =
     wbind (modify_round dev [qp] (\<lambda>_. zero_qpc_elem) h) (\<lambda>r. Some (Inr (snd r)))"

section \<open>Opening the device\<close>

text \<open>\<open>addrs\<close> are the four blocks that the calls below align: the region, the completion queue, the two work queues.\<close>

definition ibv_open_device ::
  "(rnic \<Rightarrow> rnic res) \<Rightarrow> u8 \<Rightarrow> u16 \<Rightarrow> u64 \<times> u64 \<times> u64 \<times> u64 \<Rightarrow> u32 \<Rightarrow> mr_args \<Rightarrow> kfd_ioctl_alloc_qp_args \<Rightarrow> host \<Rightarrow>
     (ibv_context \<times> host) wres" where
  "ibv_open_device dev contextId lid addrs junk_num fresh qp_args h =
     (let (a_mr, a_cq, a_snd, a_rcv) = addrs
      in wbind (Some (drv_mmap 0 0x1000 (drv_open contextId (fst h)))) (\<lambda>m.
         wbind (write_cmd dev IOC_INIT_DEV (snd m, snd h)) (\<lambda>r1.
         wbind (ibv_reg_mr dev \<lparr>mra_flag = MR_FLAG_RD OR MR_FLAG_WR OR MR_FLAG_LOCAL, mra_length = PAGE_SIZE\<rparr> a_mr fresh (snd r1)) (\<lambda>r2.
         wbind (ibv_create_cq dev 12 a_cq junk_num fresh (snd r2)) (\<lambda>r3.
         wbind (ibv_create_qp dev 12 12 a_snd a_rcv fresh qp_args (snd r3)) (\<lambda>r4.
           let qp = (fst r4)\<lparr>iqp_type := QP_TYPE_UD, iqp_cq := Some (fst r3), iqp_snd_wqe_offset := 0,
                      iqp_rcv_wqe_offset := 0, iqp_llid := lid, iqp_qkey := QKEY_CM\<rparr>
           in wbind (ibv_modify_qp dev qp (snd r4)) (\<lambda>h5.
              Some (Inr (\<lparr>ctx_lid = lid, ctx_doorbell = fst m, ctx_sync = fst m + 8, cm_mr = fst r2, cm_cq = fst r3,
                cm_qp = qp, cm_snd_off = SND_WR_BASE, cm_rcv_posted_off = RCV_WR_BASE, cm_rcv_acked_off = RCV_WR_BASE,
                cm_rcv_num = 0\<rparr>, h5)))))))))"

section \<open>Posting work requests\<close>

text \<open>
  A send descriptor is filled in place. The opcode is the low byte of the flags; the words of the union
  keep their old contents when no branch writes them.
\<close>

definition write_send_desc :: "u64 \<Rightarrow> ibv_qp \<Rightarrow> ibv_wqe \<Rightarrow> host \<Rightarrow> host res" where
  "write_send_desc va qp w h =
     ebind (writeBlob (va + 28) (le_enc (wq_flag w)) h) (\<lambda>h1.
     ebind (writeBlob (va + 28) [wq_trans_type w] h1) (\<lambda>h2.
     ebind (writeBlob va (le_enc (wq_length w) @ le_enc (ib_lkey (wq_mr w)) @
              le_enc (ib_addr (wq_mr w) + ucast (wq_offset w))) h2) (\<lambda>h3.
     if wq_trans_type w = IBV_TYPE_RDMA_WRITE \<or> wq_trans_type w = IBV_TYPE_RDMA_READ
     then writeBlob (va + 16) (le_enc (wq_w0 w) @ le_enc (ucast (wq_raddr w AND 0xffffffff) :: u32) @
            le_enc (ucast (drop_bit 32 (wq_raddr w)) :: u32)) h3
     else if wq_trans_type w = IBV_TYPE_SEND \<and> iqp_type qp = QP_TYPE_UD
     then writeBlob (va + 16) (le_enc (wq_w0 w) @ le_enc (wq_w1 w) @ le_enc (wq_w2 w)) h3
     else Inr h3)))"

definition doorbell_val :: "u16 \<Rightarrow> u8 \<Rightarrow> u32 \<Rightarrow> nat \<Rightarrow> u64" where
  "doorbell_val sq_head first_trans_type qpn snd_cnt =
     (let db_low = (push_bit 4 (ucast sq_head) OR ucast first_trans_type :: u32);
          db_high = (push_bit 8 qpn OR of_nat snd_cnt :: u32)
      in push_bit 32 (ucast db_high) OR ucast db_low)"

fun post_send_loop ::
  "u64 \<Rightarrow> ibv_wqe list \<Rightarrow> ibv_qp \<Rightarrow> u16 \<Rightarrow> u8 \<Rightarrow> nat \<Rightarrow> host \<Rightarrow> (ibv_qp \<times> u16 \<times> u8 \<times> nat \<times> host) res" where
  "post_send_loop doorbell [] qp sq_head first snd_cnt h = Inr (qp, sq_head, first, snd_cnt, h)"
| "post_send_loop doorbell (w # ws) qp sq_head first snd_cnt h =
     ebind (write_send_desc (ib_addr (iqp_snd_mr qp) + ucast (iqp_snd_wqe_offset qp)) qp w h) (\<lambda>h1.
       let qp1 = qp\<lparr>iqp_snd_wqe_offset := iqp_snd_wqe_offset qp + 32\<rparr>
       in if ucast (iqp_snd_wqe_offset qp1) + 32 > ib_length (iqp_snd_mr qp)
          then ebind (writeBlob doorbell (le_enc (doorbell_val sq_head first (iqp_num qp) (snd_cnt + 1))) h1) (\<lambda>h2.
               post_send_loop doorbell ws (qp1\<lparr>iqp_snd_wqe_offset := 0\<rparr>) 0
                 (case ws of [] \<Rightarrow> IBV_TYPE_NULL | w' # _ \<Rightarrow> wq_trans_type w') 0 h2)
          else post_send_loop doorbell ws qp1 sq_head first (snd_cnt + 1) h1)"

definition ibv_post_send :: "ibv_context \<Rightarrow> ibv_wqe list \<Rightarrow> ibv_qp \<Rightarrow> u8 \<Rightarrow> host \<Rightarrow> (ibv_qp \<times> host) res" where
  "ibv_post_send ctx wqe qp num h =
     ensure (wqe \<noteq> [] \<and> unat num \<le> length wqe) (Undefined ''wqe[] index'')
       (ebind (post_send_loop (ctx_doorbell ctx) (take (unat num) wqe) qp (iqp_snd_wqe_offset qp)
                 (wq_trans_type (hd wqe)) 0 h) (\<lambda>r.
          case r of (qp1, sq_head, first, snd_cnt, h1) \<Rightarrow>
            if snd_cnt = 0 then Inr (qp1, h1)
            else ebind (writeBlob (ctx_doorbell ctx) (le_enc (doorbell_val sq_head first (iqp_num qp1) snd_cnt)) h1)
                   (\<lambda>h2. Inr (qp1, h2))))"

fun post_recv_loop :: "ibv_wqe list \<Rightarrow> ibv_qp \<Rightarrow> host \<Rightarrow> (ibv_qp \<times> host) res" where
  "post_recv_loop [] qp h = Inr (qp, h)"
| "post_recv_loop (w # ws) qp h =
     ebind (writeBlob (ib_addr (iqp_rcv_mr qp) + ucast (iqp_rcv_wqe_offset qp))
              (le_enc (wq_length w) @ le_enc (ib_lkey (wq_mr w)) @ le_enc (ib_addr (wq_mr w) + ucast (wq_offset w))) h) (\<lambda>h1.
       let qp1 = qp\<lparr>iqp_rcv_wqe_offset := iqp_rcv_wqe_offset qp + 16\<rparr>
       in post_recv_loop ws
            (if ucast (iqp_rcv_wqe_offset qp1) + 16 > ib_length (iqp_rcv_mr qp) then qp1\<lparr>iqp_rcv_wqe_offset := 0\<rparr> else qp1) h1)"

definition ibv_post_recv :: "ibv_wqe list \<Rightarrow> ibv_qp \<Rightarrow> u8 \<Rightarrow> host \<Rightarrow> (ibv_qp \<times> host) res" where
  "ibv_post_recv wqe qp num h =
     ensure (unat num \<le> length wqe) (Undefined ''wqe[] index'') (post_recv_loop (take (unat num) wqe) qp h)"

section \<open>Polling\<close>

definition dec_cpl :: "u8 list \<Rightarrow> cpl_desc" where
  "dec_cpl bs =
     \<lparr>cpl_srv_type = le_dec (slice 0 1 bs), cpl_trans_type = le_dec (slice 1 1 bs), cpl_byte_cnt = le_dec (slice 4 4 bs),
      cpl_qp_num = le_dec (slice 8 4 bs), cpl_cq_num = le_dec (slice 12 4 bs)\<rparr>"

fun ibv_poll_cpl :: "nat \<Rightarrow> ibv_cq \<Rightarrow> host \<Rightarrow> (cpl_desc list \<times> ibv_cq \<times> host) res" where
  "ibv_poll_cpl 0 cq h = Inr ([], cq, h)"
| "ibv_poll_cpl (Suc max_num) cq h =
     (let va = ib_addr (icq_mr cq) + ucast (icq_offset cq)
      in ebind (load va 16 h) (\<lambda>bs.
         if cpl_byte_cnt (dec_cpl bs) = 0 then Inr ([], cq, h)
         else ebind (writeBlob (va + 4) (le_enc (0 :: u32)) h) (\<lambda>h1.
              let cq1 = cq\<lparr>icq_cpl_cnt := icq_cpl_cnt cq + 1, icq_offset := icq_offset cq + 16\<rparr>;
                  cq2 = (if ucast (icq_offset cq1) + 16 > ib_length (icq_mr cq) then cq1\<lparr>icq_offset := 0\<rparr> else cq1)
              in ebind (ibv_poll_cpl max_num cq2 h1) (\<lambda>r. Inr (dec_cpl bs # fst r, snd r)))))"

text \<open>
  The completion descriptor as \<^verbatim>\<open>hangu-rnic/src/libhgrnic.h\<close> declares it, which the same \<^verbatim>\<open>libhgrnic.c\<close> is
  compiled with there: twelve bytes, with a 16-bit count.
\<close>

definition dec_cpl12 :: "u8 list \<Rightarrow> cpl_desc" where
  "dec_cpl12 bs =
     \<lparr>cpl_srv_type = le_dec (slice 0 1 bs), cpl_trans_type = le_dec (slice 1 1 bs),
      cpl_byte_cnt = ucast (le_dec (slice 2 2 bs) :: u16), cpl_qp_num = le_dec (slice 4 4 bs), cpl_cq_num = le_dec (slice 8 4 bs)\<rparr>"

fun ibv_poll_cpl12 :: "nat \<Rightarrow> ibv_cq \<Rightarrow> host \<Rightarrow> (cpl_desc list \<times> ibv_cq \<times> host) res" where
  "ibv_poll_cpl12 0 cq h = Inr ([], cq, h)"
| "ibv_poll_cpl12 (Suc max_num) cq h =
     (let va = ib_addr (icq_mr cq) + ucast (icq_offset cq)
      in ebind (load va 12 h) (\<lambda>bs.
         if cpl_byte_cnt (dec_cpl12 bs) = 0 then Inr ([], cq, h)
         else ebind (writeBlob (va + 2) (le_enc (0 :: u16)) h) (\<lambda>h1.
              let cq1 = cq\<lparr>icq_cpl_cnt := icq_cpl_cnt cq + 1, icq_offset := icq_offset cq + 12\<rparr>;
                  cq2 = (if ucast (icq_offset cq1) + 12 > ib_length (icq_mr cq) then cq1\<lparr>icq_offset := 0\<rparr> else cq1)
              in ebind (ibv_poll_cpl12 max_num cq2 h1) (\<lambda>r. Inr (dec_cpl12 bs # fst r, snd r)))))"

section \<open>Synchronisation of the processors\<close>

text \<open>\<^verbatim>\<open>cpu_sync\<close> of one processor, up to where it is.\<close>

datatype sync_pc = SyncOut | SyncEntered | SyncLeaving | SyncLeft

definition SYNC_REG :: u64 where
  "SYNC_REG = 0xc000000000000020"

definition cpu_sync :: "sync_pc \<Rightarrow> rnic \<Rightarrow> (sync_pc \<times> rnic) res" where
  "cpu_sync pc s =
     (case pc of
        SyncOut \<Rightarrow> ebind (pio_write SYNC_REG (le_enc (1 :: u32)) s) (\<lambda>s'. Inr (SyncEntered, s'))
      | SyncEntered \<Rightarrow> ebind (pio_read SYNC_REG 4 s) (\<lambda>v. Inr (if v \<noteq> 1 then SyncEntered else SyncLeaving, s))
      | SyncLeaving \<Rightarrow> ebind (pio_write SYNC_REG (le_enc (0 :: u32)) s) (\<lambda>s'. Inr (SyncLeft, s'))
      | SyncLeft \<Rightarrow> ebind (pio_read SYNC_REG 4 s) (\<lambda>v. Inr (if v \<noteq> 0 then SyncLeft else SyncOut, s)))"

end
