(* ===== verification/Host.thy ===== *)
theory Host
  imports Driver
begin

text \<open>
  Properties of the host side: resource numbers, context memory, and commands from the driver's
  register write to what the device executes.
\<close>

section \<open>Resource numbers\<close>

text \<open>The numbers a bitmap has handed out.\<close>

definition taken :: "RescMeta \<Rightarrow> nat \<Rightarrow> bool" where
  "taken m n \<longleftrightarrow> bit (rm_bitmap m (n div 8)) (n mod 8)"

declare free_byte.simps [simp del] free_bit.simps [simp del]

lemma free_byte_Inr:
  "free_byte bm n i = Inr k \<Longrightarrow> i \<le> k \<and> k < n \<and> bm (unat k) \<noteq> 0xff \<and> (\<forall>j. unat i \<le> j \<and> j < unat k \<longrightarrow> bm j = 0xff)"
proof (induction bm n i rule: free_byte.induct)
  case (1 bm n i)
  show ?case
  proof (cases "n \<le> i \<or> bm (unat i) \<noteq> 0xff")
    case True
    then show ?thesis using "1.prems" by (auto simp: free_byte.simps [of bm n i] not_le split: if_splits)
  next
    case False
    then have lt: "i < n" by auto
    then have u: "unat (i + 1) = Suc (unat i)"
      using unsigned_less [of n, where ?'a = nat] by (simp add: unat_word_ariths word_less_nat_alt)
    have IH: "i + 1 \<le> k \<and> k < n \<and> bm (unat k) \<noteq> 0xff \<and> (\<forall>j. unat (i + 1) \<le> j \<and> j < unat k \<longrightarrow> bm j = 0xff)"
      using "1.IH" "1.prems" False by (simp add: free_byte.simps [of bm n i])
    have "bm j = 0xff" if "unat i \<le> j" "j < unat k" for j
      using IH that False u by (cases "j = unat i") auto
    moreover have "i \<le> k" using IH u by (simp add: word_le_nat_alt)
    ultimately show ?thesis using IH by blast
  qed
qed

lemma free_bit_spec: "j \<le> 8 \<Longrightarrow> j \<le> free_bit b j \<and> \<not> bit b (free_bit b j) \<and> (\<forall>i. j \<le> i \<and> i < free_bit b j \<longrightarrow> bit b i)"
proof (induction b j rule: free_bit.induct)
  case (1 b j)
  show ?case
  proof (cases "bit b j")
    case True
    then have "j < 8" by (auto dest: bit_imp_le_length)
    then have IH: "j + 1 \<le> free_bit b (j + 1) \<and> \<not> bit b (free_bit b (j + 1)) \<and> (\<forall>i. j + 1 \<le> i \<and> i < free_bit b (j + 1) \<longrightarrow> bit b i)"
      using "1.IH" [OF True] by simp
    have e: "free_bit b j = free_bit b (j + 1)" using True by (simp add: free_bit.simps [of b j])
    have "bit b i" if "j \<le> i" "i < free_bit b (j + 1)" for i
      using IH that True by (cases "i = j") auto
    then show ?thesis using IH unfolding e by auto
  qed (auto simp: free_bit.simps [of b j])
qed

lemma full_byte: "(\<forall>i<8. bit (b :: u8) i) \<Longrightarrow> b = 0xff"
proof -
  assume "\<forall>i<8. bit b i"
  then have "b = mask 8" by (intro bit_eqI) (auto simp: bit_simps)
  then show ?thesis by (simp add: mask_eq_exp_minus_1)
qed

lemma bit_ff: "bit (0xff :: u8) i \<longleftrightarrow> i < 8"
proof -
  have "(0xff :: u8) = - 1" by simp
  then show ?thesis by (simp only: bit_minus_1_iff) simp
qed

lemma allocResc_spec:
  assumes "allocResc cpu m = Inr (num, m')"
  shows "\<exists>n<8 * unat (rm_entryNumPage m). \<not> taken m n \<and> (\<forall>k<n. taken m k) \<and>
    num = of_nat n + push_bit RESC_LIM_LOG (ucast cpu) \<and> (\<forall>k. taken m' k \<longleftrightarrow> k = n \<or> taken m k) \<and>
    rm_entryNumPage m' = rm_entryNumPage m"
proof -
  obtain i where i: "free_byte (rm_bitmap m) (rm_entryNumPage m) 0 = Inr i"
      and r: "num = i * 8 + of_nat (free_bit (rm_bitmap m (unat i)) 0) + push_bit RESC_LIM_LOG (ucast cpu)"
      "m' = m\<lparr>rm_bitmap := (rm_bitmap m)(unat i := rm_bitmap m (unat i) OR push_bit (free_bit (rm_bitmap m (unat i)) 0) 1)\<rparr>"
    using assms by (auto simp: allocResc_def Let_def ebind_Inr)
  let ?b = "rm_bitmap m (unat i)" and ?j = "free_bit (rm_bitmap m (unat i)) 0"
  have fb: "i < rm_entryNumPage m" "?b \<noteq> 0xff" "\<forall>j<unat i. rm_bitmap m j = 0xff" using free_byte_Inr [OF i] by auto
  have fj: "\<not> bit ?b ?j" "\<forall>k<?j. bit ?b k" using free_bit_spec [of 0 ?b] by auto
  have j8: "?j < 8" 
  proof (rule ccontr)
    assume "\<not> ?j < 8"
    then have "\<forall>k<8. bit ?b k" using fj(2) by auto
    then show False using full_byte fb(2) by blast
  qed
  let ?n = "8 * unat i + ?j"
  have nn: "?n div 8 = unat i" "?n mod 8 = ?j" using j8 by simp_all
  have "taken m k" if "k < ?n" for k
  proof (cases "k div 8 = unat i")
    case True
    then have "k mod 8 < ?j" using that div_mult_mod_eq [of k 8] by linarith
    then show ?thesis using fj(2) True by (simp add: taken_def)
  next
    case False
    then have "k div 8 < unat i" using that j8 by linarith
    then have "rm_bitmap m (k div 8) = 0xff" using fb(3) by blast
    then show ?thesis using bit_ff [of "k mod 8"] unfolding taken_def by (simp only:)
  qed
  moreover have "\<not> taken m ?n" using fj(1) nn by (simp add: taken_def)
  moreover have "taken m' k \<longleftrightarrow> k = ?n \<or> taken m k" for k
  proof (cases "k div 8 = unat i")
    case True
    have "k = ?n \<longleftrightarrow> k mod 8 = ?j" using True j8 div_mult_mod_eq [of k 8] by linarith
    then show ?thesis using True by (auto simp: taken_def r(2) bit_simps)
  next
    case False
    then have "k \<noteq> ?n" using nn(1) by auto
    then show ?thesis using False by (simp add: taken_def r(2))
  qed
  moreover have "num = of_nat ?n + push_bit RESC_LIM_LOG (ucast cpu)" by (simp add: r(1) mult.commute)
  moreover have "?n < 8 * unat (rm_entryNumPage m)" using fb(1) j8 by (simp add: word_less_nat_alt)
  ultimately show ?thesis by (intro exI [of _ ?n]) (simp add: r(2))
qed


text \<open>
  Numbers are never given back, so the numbers handed out are always the first ones.
\<close>

definition handed_out :: "RescMeta \<Rightarrow> nat \<Rightarrow> bool" where
  "handed_out m a \<longleftrightarrow> (\<forall>k. taken m k \<longleftrightarrow> k < a)"

lemma allocResc_next:
  assumes "handed_out m a" and "allocResc cpu m = Inr (num, m')"
  shows "a < 8 * unat (rm_entryNumPage m) \<and> num = of_nat a + push_bit RESC_LIM_LOG (ucast cpu) \<and> handed_out m' (Suc a) \<and>
    rm_entryNumPage m' = rm_entryNumPage m"
proof -
  obtain n where n: "n < 8 * unat (rm_entryNumPage m)" "\<not> taken m n" "\<forall>k<n. taken m k"
      "num = of_nat n + push_bit RESC_LIM_LOG (ucast cpu)" "\<forall>k. taken m' k \<longleftrightarrow> k = n \<or> taken m k"
      "rm_entryNumPage m' = rm_entryNumPage m"
    using allocResc_spec [OF assms(2)] by blast
  have t: "taken m k \<longleftrightarrow> k < a" for k using assms(1) by (simp add: handed_out_def)
  have "\<not> n < a" using n(2) t by blast
  moreover have "\<not> a < n" using n(3) t [of a] by blast
  ultimately have "n = a" by simp
  moreover have "handed_out m' (Suc a)" unfolding handed_out_def using n(5) t \<open>n = a\<close> by (simp add: less_Suc_eq) blast
  ultimately show ?thesis using n(1,4,6) by blast
qed

lemma free_byte_Inl:
  "free_byte bm n i = Inl e \<Longrightarrow> (\<forall>j. unat i \<le> j \<and> j < unat n \<longrightarrow> bm j = 0xff) \<and> e = Undefined ''read past the bitmap''"
proof (induction bm n i rule: free_byte.induct)
  case (1 bm n i)
  show ?case
  proof (cases "n \<le> i")
    case True
    then show ?thesis using "1.prems" by (auto simp: free_byte.simps [of bm n i] word_le_nat_alt)
  next
    case False
    then have full: "bm (unat i) = 0xff" using "1.prems" by (auto simp: free_byte.simps [of bm n i] split: if_splits)
    have u: "unat (i + 1) = Suc (unat i)"
      using False unsigned_less [of n, where ?'a = nat] by (simp add: unat_word_ariths not_le word_less_nat_alt)
    have IH: "(\<forall>j. unat (i + 1) \<le> j \<and> j < unat n \<longrightarrow> bm j = 0xff) \<and> e = Undefined ''read past the bitmap''"
      using "1.IH" "1.prems" False full by (simp add: free_byte.simps [of bm n i])
    have "bm j = 0xff" if "unat i \<le> j" "j < unat n" for j
      using IH that full u by (cases "j = unat i") auto
    then show ?thesis using IH by blast
  qed
qed

text \<open>The allocation succeeds exactly while there is a free bit, and then yields the next number.\<close>

lemma allocResc_iff:
  assumes "handed_out m a"
  shows "(\<exists>r. allocResc cpu m = Inr r) \<longleftrightarrow> a < 8 * unat (rm_entryNumPage m)"
proof
  assume "\<exists>r. allocResc cpu m = Inr r"
  then show "a < 8 * unat (rm_entryNumPage m)" using allocResc_next [OF assms] by (metis prod.collapse)
next
  assume a: "a < 8 * unat (rm_entryNumPage m)"
  show "\<exists>r. allocResc cpu m = Inr r"
  proof (cases "free_byte (rm_bitmap m) (rm_entryNumPage m) 0")
    case (Inl e)
    have "a div 8 < unat (rm_entryNumPage m)" using a by linarith
    then have "rm_bitmap m (a div 8) = 0xff" using free_byte_Inl [OF Inl] by simp
    then have "taken m a" using bit_ff [of "a mod 8"] unfolding taken_def by (simp only:)
    then show ?thesis using assms by (simp add: handed_out_def)
  qed (simp add: allocResc_def Let_def)
qed

lemma allocBatch_spec:
  assumes "handed_out m a" and "allocBatch n cpu idx m = Inr (num, m')" and "n \<noteq> 0"
  shows "a + n \<le> 8 * unat (rm_entryNumPage m) \<and> num = of_nat (a + n - 1) + push_bit RESC_LIM_LOG (ucast cpu) \<and>
    handed_out m' (a + n)"
  using assms
proof (induction n arbitrary: a idx m)
  case (Suc n)
  obtain k m1 where r: "allocResc cpu m = Inr (k, m1)" "allocBatch n cpu k m1 = Inr (num, m')"
    using Suc.prems(2) by (auto simp: ebind_Inr)
  have n1: "a < 8 * unat (rm_entryNumPage m)" "k = of_nat a + push_bit RESC_LIM_LOG (ucast cpu)" "handed_out m1 (Suc a)"
      "rm_entryNumPage m1 = rm_entryNumPage m"
    using allocResc_next [OF Suc.prems(1) r(1)] by auto
  show ?case
  proof (cases "n = 0")
    case True
    then show ?thesis using n1 r(2) by simp
  next
    case False
    then show ?thesis using Suc.IH [OF n1(3) r(2)] n1(4) by simp
  qed
qed simp


lemma allocResc_Inl: "allocResc cpu m = Inl e \<Longrightarrow> e = Undefined ''read past the bitmap''"
  by (auto simp: allocResc_def Let_def ebind_Inl dest: free_byte_Inl)

lemma allocBatch_Inl:
  assumes "handed_out m a" and "allocBatch n cpu idx m = Inl e"
  shows "8 * unat (rm_entryNumPage m) < a + n \<and> e = Undefined ''read past the bitmap''"
  using assms
proof (induction n arbitrary: a idx m)
  case (Suc n)
  show ?case
  proof (cases "allocResc cpu m")
    case (Inl e')
    then show ?thesis
      using Suc.prems(2) allocResc_iff [OF Suc.prems(1), of cpu] by (auto dest: allocResc_Inl)
  next
    case (Inr r)
    then obtain k m1 where r: "allocResc cpu m = Inr (k, m1)" "allocBatch n cpu k m1 = Inl e"
      using Suc.prems(2) by (cases r) auto
    have n1: "handed_out m1 (Suc a)" "rm_entryNumPage m1 = rm_entryNumPage m"
      using allocResc_next [OF Suc.prems(1) r(1)] by auto
    then show ?thesis using Suc.IH [OF n1(1) r(2)] by simp
  qed
qed simp

lemma allocQpc_spec:
  assumes "handed_out (qpcMeta d) a" and "qpa_batch_size r \<noteq> 0"
  shows "case allocQpc r d of
      Inr (r', d') \<Rightarrow> a + unat (qpa_batch_size r) \<le> 8 * unat (rm_entryNumPage (qpcMeta d)) \<and>
        qpa_qp_num r' = of_nat a + push_bit RESC_LIM_LOG (ucast (cpu_id d)) \<and>
        handed_out (qpcMeta d') (a + unat (qpa_batch_size r))
    | Inl e \<Rightarrow> 8 * unat (rm_entryNumPage (qpcMeta d)) < a + unat (qpa_batch_size r) \<and> e = Undefined ''read past the bitmap''"
proof (cases "allocBatch (unat (qpa_batch_size r)) (cpu_id d) (qpa_qp_num r) (qpcMeta d)")
  case (Inl e)
  then show ?thesis using allocBatch_Inl [OF assms(1) Inl] by (simp add: allocQpc_def)
next
  case (Inr x)
  obtain num m where x: "x = (num, m)" by (cases x)
  have n: "unat (qpa_batch_size r) \<noteq> 0" using assms(2) by (simp add: unat_eq_0)
  have "of_nat (a + unat (qpa_batch_size r) - 1) = of_nat a + qpa_batch_size r - (1 :: u32)"
    using n by (simp add: of_nat_diff add.commute)
  then show ?thesis using allocBatch_spec [OF assms(1) Inr [unfolded x] n] Inr x by (simp add: allocQpc_def)
qed

section \<open>Pages of context memory\<close>

lemma first_unmapped_ex:
  "\<exists>k\<le>n. first_unmapped n m v = v + of_nat k \<and> (\<forall>i<k. um_lookup m (v + of_nat i) \<noteq> None) \<and>
     (k < n \<longrightarrow> um_lookup m (v + of_nat k) = None)"
proof (induction n arbitrary: v)
  case (Suc n)
  show ?case
  proof (cases "um_lookup m v = None")
    case True
    then show ?thesis by (intro exI [of _ 0]) simp
  next
    case False
    obtain k where k: "k \<le> n" "first_unmapped n m (v + 1) = v + 1 + of_nat k"
        "\<forall>i<k. um_lookup m (v + 1 + of_nat i) \<noteq> None" "k < n \<longrightarrow> um_lookup m (v + 1 + of_nat k) = None"
      using Suc.IH [of "v + 1"] by blast
    have "um_lookup m (v + of_nat i) \<noteq> None" if "i < Suc k" for i
      using False k(3) that by (cases i) (auto simp: algebra_simps)
    then show ?thesis using k(1,2,4) False by (intro exI [of _ "Suc k"]) (simp add: algebra_simps)
  qed
qed simp

text \<open>As many rounds as the map has entries are enough.\<close>

lemma first_unmapped_found:
  assumes "um_inv m" and "um_size m < 2 ^ 64"
  shows "um_lookup m (first_unmapped (um_size m) m v) = None"
proof (rule ccontr)
  assume hit: "um_lookup m (first_unmapped (um_size m) m v) \<noteq> None"
  obtain k where k: "k \<le> um_size m" "first_unmapped (um_size m) m v = v + of_nat k"
      "\<forall>i<k. um_lookup m (v + of_nat i) \<noteq> None" "k < um_size m \<longrightarrow> um_lookup m (v + of_nat k) = None"
    using first_unmapped_ex by blast
  then have "k = um_size m" using hit by (metis le_neq_implies_less)
  then have "um_lookup m (v + of_nat i) \<noteq> None" if "i \<le> um_size m" for i
    using k(2,3) hit that by (cases "i = k") auto
  then have sub: "(\<lambda>i. v + of_nat i) ` {..um_size m} \<subseteq> dom (um_lookup m)" by (auto simp del: not_None_eq)
  have "inj_on (\<lambda>i. v + of_nat i) {..um_size m}"
  proof (rule inj_onI)
    fix i j assume "i \<in> {..um_size m}" "j \<in> {..um_size m}" "v + of_nat i = v + of_nat j"
    then have "(of_nat i :: u64) = of_nat j" "i < 2 ^ 64" "j < 2 ^ 64" using assms(2) by auto
    then show "i = j" by (simp add: word_of_nat_eq_iff take_bit_nat_eq_self)
  qed
  then have "Suc (um_size m) \<le> card (dom (um_lookup m))"
    using card_mono [OF um.finite_dom sub] by (simp add: card_image)
  then show False using um.size_card [OF assms(1)] by simp
qed

lemma map_icm_pages_lookup:
  "n \<le> 2 ^ 32 \<Longrightarrow> um_lookup (map_icm_pages n v p m) x =
     (if unat (x - v) < n then Some (p + 4096 * (x - v)) else um_lookup m x)"
proof (induction n arbitrary: v p m)
  case (Suc n)
  have "unat (x - v) = (if x = v then 0 else Suc (unat (x - (v + 1))))"
    using unatSuc [of "x - v - 1"] by (auto simp: algebra_simps)
  with Suc show ?case by (auto simp: um.lookup_assign algebra_simps)
qed simp

section \<open>Address translation\<close>

text \<open>A range of the process that lies in consecutive bytes of physical memory.\<close>

definition maps_to :: "u64 \<Rightarrow> nat \<Rightarrow> u64 \<Rightarrow> HanGuDriver \<Rightarrow> bool" where
  "maps_to va n pa d \<longleftrightarrow> (\<forall>k<n. pt_translate (va + of_nat k) d = Some (pa + of_nat k))"

lemma unat_plus_nat: "unat (x :: u64) + k < 2 ^ 64 \<Longrightarrow> unat (x + of_nat k) = unat x + k"
  by (simp add: unat_word_ariths unat_of_nat)

lemma aligned_iff: "take_bit 12 (x :: u64) = 0 \<longleftrightarrow> unat x mod 4096 = 0"
proof -
  have "unat (take_bit 12 x) = unat x mod 4096" by (simp only: unsigned_take_bit_eq) (simp add: take_bit_eq_mod)
  then show ?thesis by (metis unat_eq_0)
qed

lemma page_split:
  assumes "take_bit 12 va = 0" and "unat va + k < 2 ^ 64"
  shows "drop_bit 12 (va + of_nat k) = drop_bit 12 va + (of_nat (k div 4096) :: u64)"
    and "(va + of_nat k) AND 0xFFF = (of_nat (k mod 4096) :: u64)"
proof -
  have al: "unat va mod 4096 = 0" using assms(1) by (simp only: aligned_iff)
  have u: "unat (va + of_nat k) = unat va + k" by (rule unat_plus_nat [OF assms(2)])
  have d: "unat (drop_bit 12 va) = unat va div 4096" by (simp only: unat_drop_bit_eq) (simp add: drop_bit_eq_div)
  have lt: "unat va div 4096 + k div 4096 < 2 ^ 64" using assms(2) by linarith
  have dv: "(unat va + k) div 4096 = unat va div 4096 + k div 4096" using al by (auto elim!: dvdE simp: mod_eq_0_iff_dvd)
  have r: "unat (drop_bit 12 va + (of_nat (k div 4096) :: u64)) = unat va div 4096 + k div 4096"
    using unat_plus_nat [of "drop_bit 12 va" "k div 4096"] lt unfolding d by blast
  have l: "unat (drop_bit 12 (va + of_nat k)) = unat va div 4096 + k div 4096"
    unfolding unat_drop_bit_eq u by (simp add: drop_bit_eq_div dv)
  show "drop_bit 12 (va + of_nat k) = drop_bit 12 va + (of_nat (k div 4096) :: u64)"
    by (rule word_unat_eq_iff [THEN iffD2]) (simp only: l r)
  have m: "(0xFFF :: u64) = mask 12" by (simp add: mask_eq_exp_minus_1)
  have ml: "unat (take_bit 12 (va + of_nat k)) = k mod 4096"
    using al mod_add_left_eq [of "unat va" 4096 k] by (simp only: unsigned_take_bit_eq u) (simp add: take_bit_eq_mod)
  show "(va + of_nat k) AND 0xFFF = (of_nat (k mod 4096) :: u64)"
    unfolding m take_bit_eq_mask [symmetric]
    by (rule word_unat_eq_iff [THEN iffD2]) (simp only: ml unat_of_nat, simp)
qed

lemma pt_map_pages_lookup:
  "pt_map_pages n vp pp d = Inr d' \<Longrightarrow> n \<le> 2 ^ 32 \<Longrightarrow> um_lookup (pTable d') x =
     (if unat (x - vp) < n then Some (pp + (x - vp)) else um_lookup (pTable d) x)"
proof (induction n arbitrary: vp pp d)
  case (Suc n)
  have "unat (x - vp) = (if x = vp then 0 else Suc (unat (x - (vp + 1))))"
    using unatSuc [of "x - vp - 1"] by (auto simp: algebra_simps)
  with Suc show ?case by (auto simp: um.lookup_emplace algebra_simps split: if_splits)
qed simp

lemma pt_map_pages_ok:
  "\<forall>i<n. um_lookup (pTable d) (vp + of_nat i) = None \<Longrightarrow> n \<le> 2 ^ 32 \<Longrightarrow> \<exists>d'. pt_map_pages n vp pp d = Inr d'"
proof (induction n arbitrary: vp pp d)
  case (Suc n)
  have "um_lookup (um_emplace (pTable d) vp pp) (vp + 1 + of_nat i) = None" if "i < n" for i
  proof -
    have "(of_nat (Suc i) :: u64) \<noteq> 0" using that Suc.prems(2) by (simp add: word_unat_eq_iff unat_of_nat del: of_nat_Suc)
    then have "vp + 1 + of_nat i \<noteq> vp" by (simp add: add.assoc)
    moreover have "um_lookup (pTable d) (vp + 1 + of_nat i) = None"
      using Suc.prems(1) that by (auto simp: algebra_simps dest!: spec [of _ "Suc i"])
    ultimately show ?thesis by (simp add: um.lookup_emplace)
  qed
  moreover have "um_lookup (pTable d) vp = None" using Suc.prems(1) by (auto dest!: spec [of _ 0])
  ultimately show ?case using Suc.IH [of "d\<lparr>pTable := um_emplace (pTable d) vp pp\<rparr>" "vp + 1"] Suc.prems(2) by simp
qed simp

lemma and_page: "(x :: u64) AND 0xFFF = take_bit 12 x"
proof -
  have "(0xFFF :: u64) = mask 12" by (simp add: mask_eq_exp_minus_1)
  then show ?thesis by (simp only: take_bit_eq_mask)
qed

lemma pt_map_maps:
  assumes "pt_map va pa n d = Inr d'" "take_bit 12 pa = 0" "n \<le> 2 ^ 32" "unat va + 4096 * n \<le> 2 ^ 64" "unat pa + 4096 * n \<le> 2 ^ 64"
  shows "maps_to va (4096 * n) pa d'"
  unfolding maps_to_def
proof (intro allI impI)
  fix k assume k: "k < 4096 * n"
  have va: "take_bit 12 va = 0" and m: "pt_map_pages n (drop_bit 12 va) (drop_bit 12 pa) d = Inr d'"
    using assms(1) by (auto simp: pt_map_def ensure_Inr and_page)
  have kn: "k div 4096 < n" using k by (simp add: less_mult_imp_div_less mult.commute)
  have v: "unat va + k < 2 ^ 64" "unat pa + k < 2 ^ 64" using k assms by auto
  have "unat (of_nat (k div 4096) :: u64) = k div 4096" using kn assms(3) by (simp add: unat_of_nat)
  then have "pt_translate (va + of_nat k) d' = Some (push_bit 12 (drop_bit 12 pa + of_nat (k div 4096)) OR of_nat (k mod 4096))"
    using kn assms(3) by (simp add: pt_translate_def pt_map_pages_lookup [OF m] page_split [OF va v(1)])
  also have "push_bit 12 (drop_bit 12 pa + of_nat (k div 4096)) OR of_nat (k mod 4096) =
      push_bit 12 (drop_bit 12 (pa + of_nat k)) OR take_bit 12 (pa + of_nat k)"
    using page_split [OF assms(2) v(2)] by (simp add: take_bit_eq_mask mask_eq_exp_minus_1)
  also have "\<dots> = pa + of_nat k"
    by (rule bit_word_eqI) (auto simp: bit_simps)
  finally show "pt_translate (va + of_nat k) d' = Some (pa + of_nat k)" .
qed

lemma maps_to_mono: "maps_to va n pa d \<Longrightarrow> m \<le> n \<Longrightarrow> maps_to va m pa d"
  by (auto simp: maps_to_def)

lemma mem_write_Cons:
  assumes "length bs < 2 ^ 64 - 1"
  shows "mem_write (a + 1) bs (mem_write a [b] s) = mem_write a (b # bs) s"
proof -
  have "unat (x - a) = (if x = a then 0 else Suc (unat (x - (a + 1))))" for x
    using unatSuc [of "x - a - 1"] by (auto simp: algebra_simps)
  then have "(if unat (x - (a + 1)) < length bs then bs ! unat (x - (a + 1))
      else if unat (x - a) = 0 then [b] ! unat (x - a) else hostMem s x) =
    (if unat (x - a) < Suc (length bs) then (b # bs) ! unat (x - a) else hostMem s x)" for x
    using assms by (auto simp: unsigned_minus_1_eq_mask mask_eq_exp_minus_1)
  then show ?thesis by (simp add: mem_write_def cong: if_cong)
qed

lemma write_bytes_mapped:
  "maps_to va (length bs) pa d \<Longrightarrow> length bs < 2 ^ 64 \<Longrightarrow> write_bytes va bs d s = Inr (mem_write pa bs s)"
proof (induction bs arbitrary: va pa s)
  case Nil
  then show ?case by (simp add: mem_write_def)
next
  case (Cons b bs)
  have "pt_translate va d = Some pa" using Cons.prems(1) by (auto simp: maps_to_def dest!: spec [of _ 0])
  moreover have "maps_to (va + 1) (length bs) (pa + 1) d"
    unfolding maps_to_def
  proof (intro allI impI)
    fix k assume "k < length bs"
    then show "pt_translate (va + 1 + of_nat k) d = Some (pa + 1 + of_nat k)"
      using Cons.prems(1) by (auto simp: maps_to_def algebra_simps dest!: spec [of _ "Suc k"])
  qed
  ultimately show ?case using Cons by (simp add: mem_write_Cons)
qed

lemma writeBlob_mapped:
  assumes "maps_to va (length bs) pa d" "bs \<noteq> []" "length bs < 2 ^ 64" "getBAR pa = None"
  shows "writeBlob va bs (d, s) = Inr (d, mem_write pa bs s)"
proof -
  have "pt_translate va d = Some pa" using assms(1,2) by (auto simp: maps_to_def dest!: spec [of _ 0])
  then show ?thesis using write_bytes_mapped [OF assms(1,3)] assms(4) by (simp add: writeBlob_def)
qed


section \<open>Commands\<close>

text \<open>A driver whose command register and mailbox are mapped.\<close>

definition driver_ready :: "HanGuDriver \<Rightarrow> bool" where
  "driver_ready d \<longleftrightarrow> maps_to (hcrAddr d) 4096 (fst (hd rnic_BARs)) d \<and>
     maps_to (mailbox_vaddr d) (4096 * MAILBOX_PAGE_NUM) (mailbox_paddr d) d \<and> getBAR (mailbox_paddr d) = None"

lemma getBAR_hcr [simp]: "k < 4096 \<Longrightarrow> getBAR (0xc000000000000000 + of_nat k) = Some (0, of_nat k)"
proof -
  assume k: "k < 4096"
  have "unat (0xc000000000000000 + of_nat k :: u64) = 0xc000000000000000 + k"
    using k unat_plus_nat [of "0xc000000000000000" k] by simp
  then show ?thesis using k by (simp add: getBAR_def rnic_BARs_def isBAR_def word_le_nat_alt word_less_nat_alt)
qed

lemma getBAR_from_empty: "getBAR_from i (replicate n (0, 0)) x = None"
  by (induction n arbitrary: i) (auto simp: isBAR_def)

lemma getBAR_0 [simp]: "getBAR 0xc000000000000000 = Some (0, 0)"
  using getBAR_hcr [of 0] by simp

lemma hcr_translate: "driver_ready d \<Longrightarrow> k < 4096 \<Longrightarrow> pt_translate (hcrAddr d + of_nat k) d = Some (0xc000000000000000 + of_nat k)"
  by (simp add: driver_ready_def maps_to_def rnic_BARs_def)

lemma postHcr_ready:
  assumes "driver_ready d"
  shows "postHcr inP inM outP opc (d, s) =
    Inr (d, sched_next CeuProcEvent (s\<lparr>regs := write_hcr (mk_hcr inP inM outP opc) (regs s)\<rparr>))"
proof -
  have "pt_translate (hcrAddr d) d = Some 0xc000000000000000" using hcr_translate [OF assms, of 0] by simp
  moreover have "length (enc_Hcr (mk_hcr inP inM outP opc)) = 24" by (rule hcr.len_enc) simp
  moreover have "dec_Hcr (enc_Hcr (mk_hcr inP inM outP opc)) = mk_hcr inP inM outP opc" by (rule hcr.dec_enc_all) simp
  ultimately show ?thesis by (simp add: postHcr_def writeBlob_def pio_write_def)
qed

lemma mbox_post_ready:
  assumes "driver_ready d" "bs \<noteq> []" "length bs \<le> 4096 * MAILBOX_PAGE_NUM"
  shows "mbox_post bs inM outP opc (d, s) = Inr (d, sched_next CeuProcEvent
    ((mem_write (mailbox_paddr d) bs s)\<lparr>regs := write_hcr (mk_hcr (mailbox_paddr d) inM outP opc) (regs s)\<rparr>))"
proof -
  have "maps_to (mailbox_vaddr d) (length bs) (mailbox_paddr d) d" "getBAR (mailbox_paddr d) = None"
    using assms(1,3) by (auto simp: driver_ready_def elim: maps_to_mono)
  then have "writeBlob (mailbox_vaddr d) bs (d, s) = Inr (d, mem_write (mailbox_paddr d) bs s)"
    using assms(2,3) by (intro writeBlob_mapped) auto
  then show ?thesis by (simp add: mbox_post_def postHcr_ready [OF assms(1)]) (simp add: mem_write_def)
qed

text \<open>What the registers hold after a command has been written.\<close>

lemma and_low_half: "(p :: u64) AND 0xffffffff = take_bit 32 p"
proof -
  have "(0xffffffff :: u64) = mask 32" by (simp add: mask_eq_exp_minus_1)
  then show ?thesis by (simp only: take_bit_eq_mask)
qed

lemma set_halves: "set_iparamh (set_iparaml r (ucast (p AND 0xffffffff))) (ucast (drop_bit 32 p)) = p"
  "set_oparamh (set_oparaml r (ucast (p AND 0xffffffff))) (ucast (drop_bit 32 p)) = p"
  by (rule bit_word_eqI; auto simp: field_defs and_low_half bit_insertBits_val bit_simps)+

lemma write_hcr_regs:
  "inParam (write_hcr (mk_hcr inP inM outP opc) r) = inP" "modifier (write_hcr (mk_hcr inP inM outP opc) r) = inM"
  "outParam (write_hcr (mk_hcr inP inM outP opc) r) = outP"
  "cmd_op8 (write_hcr (mk_hcr inP inM outP opc) r) = opc" "cmd_go (cmdCtrl (write_hcr (mk_hcr inP inM outP opc) r)) = 1"
proof -
  have "ucast (bits_val (push_bit 31 1 OR ucast opc :: u32) 7 0) = opc"
    by (rule bit_word_eqI) (auto simp: bit_bits_val bit_simps simp del: push_bit_of_1)
  then show "cmd_op8 (write_hcr (mk_hcr inP inM outP opc) r) = opc"
    by (simp add: cmd_op8_def write_hcr_def mk_hcr_def field_defs)
  have "bits_val (push_bit 31 1 OR ucast opc :: u32) 31 31 = 1"
    by (rule bit_word_eqI) (auto simp: bit_bits_val bit_simps bit_1_iff dest: bit_imp_le_length simp del: push_bit_of_1)
  then show "cmd_go (cmdCtrl (write_hcr (mk_hcr inP inM outP opc) r)) = 1"
    by (simp add: write_hcr_def mk_hcr_def field_defs)
qed (simp_all add: write_hcr_def mk_hcr_def set_halves)

text \<open>The driver sees a command until the device has cleared the go bit.\<close>

lemma checkHcr_ready:
  assumes "driver_ready d"
  shows "checkHcr (d, s) = Inr (cmd_go (cmdCtrl (regs s)) = 1)"
proof -
  have "pt_translate (hcrAddr d + 20) d = Some (0xc000000000000000 + 20)" using hcr_translate [OF assms, of 20] by simp
  moreover have "getBAR (0xc000000000000000 + 20) = Some (0, 20)" using getBAR_hcr [of 20] by simp
  moreover have "drop_bit 31 (push_bit 31 (cmd_go r) OR cmd_op r) = cmd_go r" for r :: u32
    by (rule bit_word_eqI) (auto simp: field_defs bit_bits_val bit_simps dest: bit_imp_le_length)
  ultimately show ?thesis by (simp add: checkHcr_def readBlob32_def pio_read_def)
qed


text \<open>The mailbox that a command names is what the device has fetched when it executes the command.\<close>

definition mbox_fetched :: "u8 list \<Rightarrow> rnic \<Rightarrow> bool" where
  "mbox_fetched bs s \<longleftrightarrow> (\<exists>p. mboxBuf s = Some p \<and> deref p s = Inr (OBytes bs))"

lemma mbox_array_fetched:
  "mbox_fetched bs s \<Longrightarrow> n * sz \<le> length bs \<Longrightarrow> mbox_array dec sz n s = Inr (dec_array dec sz n bs)"
  by (auto simp: mbox_fetched_def mbox_array_def)

lemma sched_next_regs [simp]: "regs (sched_next e s) = regs s" "ccuDmaReadFifo (sched_next e s) = ccuDmaReadFifo s"
  "mboxBuf (sched_next e s) = mboxBuf s"
  by (simp_all add: sched_next_def sched_at_def)

lemma dmaRead_bytes:
  "deref p s = Inr (OBytes old) \<Longrightarrow> length old = length bs \<Longrightarrow> mem_read a (length bs) s = bs \<Longrightarrow>
     dmaRead a (int (length bs)) (Some (p, 0)) s = Inr (heap_set p (OBytes bs) s)"
  by (simp add: dmaRead_def obj_fill_def)

lemma ceu_fetches:
  assumes "ceu_entries (regs s) = Inr (n, sz)" and len: "length bs = unat n * sz" "bs \<noteq> []" "length bs \<le> 32 * 4096"
    and mem: "mem_read (pciToDma s (inParam (regs s))) (length bs) s = bs"
  shows "\<exists>s2 q r s3. ceuProc s = Inr s2 \<and> ccuDmaReadFifo s2 = ccuDmaReadFifo s @ [q] \<and> dmaReqs s2 = dmaReqs s @ [r] \<and>
    q = length (dmaReqs s) \<and> dr_event r = Some MboxEvent \<and>
    dmaRead (dr_addr r) (dr_size r) (dr_data r) s2 = Inr s3 \<and> mbox_fetched bs s3 \<and> regs s3 = regs s"
proof -
  have "unat n * sz \<noteq> 0" using len(2) unfolding len(1) [symmetric] by simp
  then have n0: "unat n \<noteq> 0" "sz \<noteq> 0" by (metis mult_0, metis mult_0_right)
  have "sz \<le> unat n * sz" using n0(1) by (cases "unat n") auto
  then have szb: "sz \<le> 131072" using len(1,3) by linarith
  have m: "unat (n * of_nat sz) = length bs"
    using len szb by (simp add: unat_word_ariths unat_of_nat)
  have w: "n * of_nat sz = of_nat (length bs)" unfolding m [symmetric] by simp
  have size: "ceu_size n sz = int (length bs)"
    using len(3) unfolding ceu_size_def w by (simp add: unsigned_of_nat signed_of_nat signed_take_bit_int_eq_self take_bit_nat_eq_self)
  let ?b = "new_bytes (junk_bytes (unat n * sz) s) s"
  let ?s1 = "(snd ?b)\<lparr>mboxBuf := Some (fst ?b)\<rparr>"
  let ?r = "new_DmaReq (pciToDma s (inParam (regs s))) (int (length bs)) (Some MboxEvent) (Some (length (heap s), 0))"
  let ?s2 = "sched_next DmaReadEvent (?s1\<lparr>dmaReqs := dmaReqs s @ [?r], ccuDmaReadFifo := ccuDmaReadFifo s @ [length (dmaReqs s)]\<rparr>)"
  have c: "ceuProc s = Inr ?s2"
    using assms(1) len(2,3) by (simp add: ceuProc_def Let_def size new_bytes_def alloc_def add_dmaReq_def)
  have h: "deref (length (heap s)) ?s2 = Inr (OBytes (junk_bytes (unat n * sz) s))"
    by (simp add: deref_def new_bytes_def alloc_def)
  have m2: "mem_read (pciToDma s (inParam (regs s))) (length bs) ?s2 = bs"
    using mem by (simp add: mem_read_def new_bytes_def alloc_def)
  have "dmaRead (dr_addr ?r) (dr_size ?r) (dr_data ?r) ?s2 = Inr (heap_set (length (heap s)) (OBytes bs) ?s2)"
    using dmaRead_bytes [OF h _ m2] len(1) by (simp add: new_DmaReq_def junk_bytes_def)
  moreover have "mbox_fetched bs (heap_set (length (heap s)) (OBytes bs) ?s2)"
    unfolding mbox_fetched_def
    by (rule exI [of _ "length (heap s)"]) (simp add: deref_def heap_set_def new_bytes_def alloc_def)
  moreover have "regs (heap_set (length (heap s)) (OBytes bs) ?s2) = regs s"
    by (simp add: heap_set_def new_bytes_def alloc_def)
  moreover have "ccuDmaReadFifo ?s2 = ccuDmaReadFifo s @ [length (dmaReqs s)]" "dmaReqs ?s2 = dmaReqs s @ [?r]"
    "dr_event ?r = Some MboxEvent"
    by (simp_all add: new_DmaReq_def)
  ultimately show ?thesis using c by blast
qed


text \<open>From the driver's mailbox to the device's.\<close>

lemma mbox_delivers:
  assumes "driver_ready d" and "pciToDma s (mailbox_paddr d) = mailbox_paddr d"
    and "ceu_entries (write_hcr (mk_hcr (mailbox_paddr d) inM outP opc) (regs s)) = Inr (n, sz)"
    and "length bs = unat n * sz" "bs \<noteq> []" "length bs \<le> 32 * 4096"
  shows "\<exists>s1 s2 r s3. mbox_post bs inM outP opc (d, s) = Inr (d, s1) \<and> ceuProc s1 = Inr s2 \<and>
    dmaReqs s2 = dmaReqs s @ [r] \<and> ccuDmaReadFifo s2 = ccuDmaReadFifo s @ [length (dmaReqs s)] \<and>
    dmaRead (dr_addr r) (dr_size r) (dr_data r) s2 = Inr s3 \<and> mbox_fetched bs s3 \<and>
    regs s3 = write_hcr (mk_hcr (mailbox_paddr d) inM outP opc) (regs s)"
proof -
  let ?s1 = "sched_next CeuProcEvent
    ((mem_write (mailbox_paddr d) bs s)\<lparr>regs := write_hcr (mk_hcr (mailbox_paddr d) inM outP opc) (regs s)\<rparr>)"
  have post: "mbox_post bs inM outP opc (d, s) = Inr (d, ?s1)"
    using assms by (intro mbox_post_ready) auto
  have "mem_read (mailbox_paddr d) (length bs) ?s1 = mem_read (mailbox_paddr d) (length bs) (mem_write (mailbox_paddr d) bs s)"
    by (simp add: mem_read_def)
  also have "\<dots> = bs" using assms(6) by (intro mem_read_write) simp
  finally have "mem_read (pciToDma ?s1 (inParam (regs ?s1))) (length bs) ?s1 = bs"
    using assms(2) by (simp add: write_hcr_regs mem_write_def)
  then show ?thesis
    using ceu_fetches [of ?s1 n sz bs] assms(3-6) post by (fastforce simp: mem_write_def)
qed


text \<open>Opening the device maps the register page and, with the first command, the mailbox.\<close>

lemma pt_map_pages_frame: "pt_map_pages n vp pp d = Inr d' \<Longrightarrow> d' = d\<lparr>pTable := pTable d'\<rparr>"
proof (induction n arbitrary: vp pp d)
  case (Suc n)
  then show ?case by (fastforce split: if_splits)
qed simp

lemma pt_map_frame: "pt_map va pa n d = Inr d' \<Longrightarrow> d' = d\<lparr>pTable := pTable d'\<rparr>"
  by (auto simp: pt_map_def ensure_Inr dest: pt_map_pages_frame)

lemma maps_to_kept:
  assumes "maps_to va n pa d" "pt_map va' pa' m d = Inr d'" "m \<le> 2 ^ 32"
    "\<And>k. k < n \<Longrightarrow> m \<le> unat (drop_bit 12 (va + of_nat k) - drop_bit 12 va')"
  shows "maps_to va n pa d'"
proof -
  have "pt_map_pages m (drop_bit 12 va') (drop_bit 12 pa') d = Inr d'" using assms(2) by (simp add: pt_map_def ensure_Inr)
  then show ?thesis using assms(1,3,4) by (fastforce simp: maps_to_def pt_translate_def pt_map_pages_lookup not_less)
qed

text \<open>The pages of the mailbox lie below the page of the registers.\<close>

lemma mailbox_below:
  assumes "take_bit 12 (e :: u64) = 0" "0x21000 \<le> e"
  shows "unat (e - 0x1000) + 4096 \<le> 2 ^ 64" "unat (e - 0x21000) + 0x20000 < 2 ^ 64" "take_bit 12 (e - 0x1000) = 0" "take_bit 12 (e - 0x21000) = 0"
    "k < 4096 \<Longrightarrow> 32 \<le> unat (drop_bit 12 (e - 0x1000 + of_nat k) - drop_bit 12 (e - 0x21000))"
proof -
  have u: "unat (e - 0x1000) = unat e - 0x1000" "unat (e - 0x21000) = unat e - 0x21000" "0x21000 \<le> unat e"
    using assms(2) by (simp_all add: unat_sub word_le_nat_alt)
  have ual: "unat e mod 4096 = 0" using assms(1) by (simp only: aligned_iff)
  have "(unat e - 0x1000) mod 4096 = 0" "(unat e - 0x21000) mod 4096 = 0"
    using ual by (auto simp: mod_eq_0_iff_dvd intro!: dvd_diff_nat)
  then show al2: "take_bit 12 (e - 0x1000) = 0" "take_bit 12 (e - 0x21000) = 0" by (simp_all only: aligned_iff u)
  show "unat (e - 0x1000) + 4096 \<le> 2 ^ 64" "unat (e - 0x21000) + 0x20000 < 2 ^ 64"
    using u unsigned_less [of e, where ?'a = nat] by auto
  assume k: "k < 4096"
  have "e - 0x1000 + of_nat k = e - 0x21000 + of_nat (0x20000 + k)" by simp
  moreover have "unat (e - 0x21000) + (0x20000 + k) < 2 ^ 64"
    using u k unsigned_less [of e, where ?'a = nat] by simp
  ultimately have "drop_bit 12 (e - 0x1000 + of_nat k) = drop_bit 12 (e - 0x21000) + of_nat ((0x20000 + k) div 4096)"
    using page_split(1) [OF al2(2), of "0x20000 + k"] by (simp only:)
  moreover have "(0x20000 + k) div 4096 = 32" using k by simp
  ultimately show "32 \<le> unat (drop_bit 12 (e - 0x1000 + of_nat k) - drop_bit 12 (e - 0x21000))" by simp
qed

lemma driver_init_ready:
  assumes m: "drv_mmap 0 0x1000 d = Inr (a, d1)" "initMailbox d1 = Inr d2"
    and al: "take_bit 12 (mmapEnd d) = 0" and top: "0x21000 \<le> mmapEnd d" and pp: "pagePtr d < 0x100000000"
  shows "driver_ready d2"
proof -
  let ?va = "mmapEnd d - 0x1000" and ?mb = "mmapEnd d - 0x21000" and ?pa = "push_bit 12 (pagePtr d)"
  note low = mailbox_below [OF al top]
  have pa: "unat ?pa = 4096 * unat (pagePtr d)" "unat (pagePtr d) < 0x100000000" "take_bit 12 ?pa = 0"
  proof -
    show lt: "unat (pagePtr d) < 0x100000000" using pp by (simp add: word_less_nat_alt)
    show "unat ?pa = 4096 * unat (pagePtr d)" using lt by (simp add: push_bit_eq_mult unat_word_ariths)
    then show "take_bit 12 ?pa = 0" unfolding aligned_iff by simp
  qed
  obtain d0 where d0: "pt_map ?va (fst (hd rnic_BARs)) 1 (d\<lparr>mmapEnd := ?va\<rparr>) = Inr d0" "d1 = d0\<lparr>hcrAddr := ?va\<rparr>"
    using m(1) by (auto simp: drv_mmap_def Let_def ebind_Inr)
  have f0: "mmapEnd d0 = ?va" "pagePtr d0 = pagePtr d" using pt_map_frame [OF d0(1)] by (cases d0, simp)+
  have hcr: "maps_to ?va 4096 (fst (hd rnic_BARs)) d0"
    using pt_map_maps [OF d0(1)] low(1) by (simp add: rnic_BARs_def)
  let ?d = "d1\<lparr>pagePtr := pagePtr d + 32, mailbox_paddr := ?pa, mailbox_vaddr := ?mb, mmapEnd := ?mb\<rparr>"
  have mb: "pt_map ?mb ?pa 32 ?d = Inr d2"
    using m(2) f0 by (simp add: initMailbox_def allocPhysPages_def Let_def d0(2))
  have "maps_to ?va 4096 (fst (hd rnic_BARs)) ?d" using hcr by (simp add: maps_to_def pt_translate_def d0(2))
  then have "maps_to ?va 4096 (fst (hd rnic_BARs)) d2" by (rule maps_to_kept [OF _ mb]) (use low(5) in auto)
  moreover have "maps_to ?mb (4096 * 32) ?pa d2" using pt_map_maps [OF mb] pa low(2) by simp
  moreover have "getBAR ?pa = None" using pa by (simp add: getBAR_def rnic_BARs_def isBAR_def word_le_nat_alt getBAR_from_empty)
  moreover have "hcrAddr d2 = ?va \<and> mailbox_vaddr d2 = ?mb \<and> mailbox_paddr d2 = ?pa"
    using pt_map_frame [OF mb] by (cases d2) (simp add: d0(2))
  ultimately show ?thesis unfolding driver_ready_def by simp
qed

lemma driver_init_runs:
  assumes "\<forall>x. um_lookup (pTable d) x = None" "take_bit 12 (mmapEnd d) = 0" "0x21000 \<le> mmapEnd d"
  shows "\<exists>a d1 d2. drv_mmap 0 0x1000 d = Inr (a, d1) \<and> initMailbox d1 = Inr d2"
proof -
  let ?va = "mmapEnd d - 0x1000" and ?mb = "mmapEnd d - 0x21000" and ?pa = "push_bit 12 (pagePtr d)"
  note low = mailbox_below [OF assms(2,3)]
  obtain d0 where d0: "pt_map_pages 1 (drop_bit 12 ?va) (drop_bit 12 (fst (hd rnic_BARs))) (d\<lparr>mmapEnd := ?va\<rparr>) = Inr d0"
    using pt_map_pages_ok [of 1 "d\<lparr>mmapEnd := ?va\<rparr>" "drop_bit 12 ?va"] assms(1) by auto
  then have m: "pt_map ?va (fst (hd rnic_BARs)) 1 (d\<lparr>mmapEnd := ?va\<rparr>) = Inr d0"
    using low(3) by (simp add: pt_map_def and_page ensure_def)
  have f0: "mmapEnd d0 = ?va" "pagePtr d0 = pagePtr d" using pt_map_frame [OF m] by (cases d0, simp)+
  let ?d = "d0\<lparr>hcrAddr := ?va, pagePtr := pagePtr d + 32, mailbox_paddr := ?pa, mailbox_vaddr := ?mb, mmapEnd := ?mb\<rparr>"
  have dr: "drop_bit 12 ?va = drop_bit 12 ?mb + 32"
    using page_split(1) [OF low(4), of "0x20000"] low(2) by simp
  have "um_lookup (pTable d0) (drop_bit 12 ?mb + of_nat i) = None" if "i < 32" for i
  proof -
    have "unat (of_nat i :: u64) = i" using that by (simp add: unat_of_nat)
    then have "(of_nat i :: u64) \<noteq> 32" using that by (auto dest: arg_cong [of _ _ unat])
    then have "drop_bit 12 ?mb + of_nat i - drop_bit 12 ?va \<noteq> 0" unfolding dr by simp
    then show ?thesis using pt_map_pages_lookup [OF d0] assms(1) by (simp add: unat_eq_0)
  qed
  then obtain d2 where "pt_map_pages 32 (drop_bit 12 ?mb) (drop_bit 12 ?pa) ?d = Inr d2"
    using pt_map_pages_ok [of 32 ?d "drop_bit 12 ?mb"] by auto
  then have "initMailbox (d0\<lparr>hcrAddr := ?va\<rparr>) = Inr d2"
    using low(4) f0 by (simp add: initMailbox_def allocPhysPages_def Let_def pt_map_def and_page ensure_def)
  then show ?thesis using m by (simp add: drv_mmap_def Let_def)
qed

lemma driver_init_frame:
  assumes "drv_mmap start len d = Inr (a, d1)" "initMailbox d1 = Inr d2"
  shows "cpu_id d2 = cpu_id d" "qpcMeta d2 = qpcMeta d" "icmAddrmap d2 = icmAddrmap d"
proof -
  have kept: "cpu_id y = cpu_id x \<and> qpcMeta y = qpcMeta x \<and> icmAddrmap y = icmAddrmap x" if "pt_map va pa n x = Inr y" for va pa n x y
    using pt_map_frame [OF that] by (cases y) simp
  have "cpu_id d1 = cpu_id d \<and> qpcMeta d1 = qpcMeta d \<and> icmAddrmap d1 = icmAddrmap d"
    using assms(1) by (auto simp: drv_mmap_def Let_def ebind_Inr split: if_splits dest!: kept)
  then show "cpu_id d2 = cpu_id d" "qpcMeta d2 = qpcMeta d" "icmAddrmap d2 = icmAddrmap d"
    using assms(2) by (auto simp: initMailbox_def allocPhysPages_def Let_def dest!: kept)
qed

section \<open>Properties\<close>

definition ex_driver0 :: HanGuDriver where
  "ex_driver0 =
     (let m = new_meta 0 8 9 20
      in \<lparr>cpu_id = 1, hcrAddr = 0, mttMeta = m, mptMeta = m, cqcMeta = m, qpcMeta = m, icmAddrmap = um_empty,
          mailbox_paddr = 0, mailbox_vaddr = 0, pTable = um_empty, mmapEnd = 0x7ffff000, pagePtr = 0x100\<rparr>)"

definition ex_driver :: HanGuDriver where
  "ex_driver = projr (ebind (drv_mmap 0 0x1000 ex_driver0) (\<lambda>r. initMailbox (snd r)))"

lemma ex_driver_runs:
  "\<exists>a d1. drv_mmap 0 0x1000 ex_driver0 = Inr (a, d1) \<and> initMailbox d1 = Inr ex_driver \<and> driver_ready ex_driver"
proof -
  have e: "\<forall>x. um_lookup (pTable ex_driver0) x = None" "take_bit 12 (mmapEnd ex_driver0) = 0"
      "0x21000 \<le> mmapEnd ex_driver0" "pagePtr ex_driver0 < 0x100000000"
    by (simp_all add: ex_driver0_def Let_def um_lookup_def um_empty_def)
  obtain a d1 d2 where d: "drv_mmap 0 0x1000 ex_driver0 = Inr (a, d1)" "initMailbox d1 = Inr d2"
    using driver_init_runs [OF e(1-3)] by blast
  have "ex_driver = d2" by (simp add: ex_driver_def d)
  then show ?thesis using d driver_init_ready [OF d e(2-4)] by blast
qed

lemma ex_driver_ready: "driver_ready ex_driver"
  using ex_driver_runs by blast

lemma ex_driver_meta: "cpu_id ex_driver = 1" "qpcMeta ex_driver = new_meta 0 8 9 20"
  and ex_driver_icm: "icmAddrmap ex_driver = um_empty"
proof -
  obtain a d1 where "drv_mmap 0 0x1000 ex_driver0 = Inr (a, d1)" "initMailbox d1 = Inr ex_driver" using ex_driver_runs by blast
  note f = driver_init_frame [OF this]
  show "cpu_id ex_driver = 1" "qpcMeta ex_driver = new_meta 0 8 9 20" "icmAddrmap ex_driver = um_empty"
    unfolding f by (simp_all add: ex_driver0_def Let_def)
qed



text \<open>
  C22. Queue pair contexts written by the driver are created by the device: the command that the driver
  writes makes the device read the mailbox, and once the bytes have arrived it creates exactly the
  contexts the request names, in their order.
\<close>

theorem write_qpc_reaches_device:
  assumes "driver_ready d" and "pciToDma s (mailbox_paddr d) = mailbox_paddr d"
    and "qpw_batch_size a \<noteq> 0" and "qpw_batch_size a \<le> MAX_QPC_BATCH"
  shows "\<exists>s1 s2 r s3. writeQpc a (d, s) = Inr (d, s1) \<and> ceuProc s1 = Inr s2 \<and>
    dmaReqs s2 = dmaReqs s @ [r] \<and> ccuDmaReadFifo s2 = ccuDmaReadFifo s @ [length (dmaReqs s)] \<and>
    dmaRead (dr_addr r) (dr_size r) (dr_data r) s2 = Inr s3 \<and>
    mbox_command s3 = ebind (create_qpcs (map (\<lambda>i. qpc_entry (qpw_elem a i)) [0..<unat (qpw_batch_size a)]) s3) delete_mbox"
proof -
  let ?n = "unat (qpw_batch_size a)" and ?qs = "map (\<lambda>i. qpc_entry (qpw_elem a i)) [0..<unat (qpw_batch_size a)]"
  let ?r = "write_hcr (mk_hcr (mailbox_paddr d) (qpw_src_qpn (qpw_elem a 0)) (ucast (qpw_batch_size a)) WRITE_QPC) (regs s)"
  have wf: "qpc_wf q" if "q \<in> set ?qs" for q using that by (auto simp: qpc_wf_def qpc_entry_def)
  have n: "0 < ?n" "?n \<le> 256" using assms(3,4) by (auto simp: word_le_nat_alt unat_gt_0)
  have bs: "concat (map (\<lambda>i. enc_QpcResc (qpc_entry (qpw_elem a i))) [0..<?n]) = concat (map enc_QpcResc ?qs)"
    by (simp add: comp_def)
  have len: "length (concat (map enc_QpcResc ?qs)) = ?n * 256"
    using qpcr.len_array [of ?qs, OF wf] by (simp del: length_concat map_map)
  have ent: "ceu_entries ?r = Inr (ucast (qpw_batch_size a), 256)" by (simp add: ceu_entries_def write_hcr_regs)
  have uc: "unat (ucast (qpw_batch_size a) :: u64) = ?n"
    using unsigned_less [of "qpw_batch_size a", where ?'a = nat] by (simp add: unsigned_ucast_eq take_bit_nat_eq_self)
  have l: "length (concat (map enc_QpcResc ?qs)) = unat (ucast (qpw_batch_size a) :: u64) * 256"
      "length (concat (map enc_QpcResc ?qs)) \<le> 32 * 4096" using len n by (simp_all only: uc)
  have ne: "concat (map enc_QpcResc ?qs) \<noteq> []" using len n by (metis length_0_conv mult_is_0 less_not_refl zero_neq_numeral)
  obtain s1 s2 r s3 where m: "mbox_post (concat (map enc_QpcResc ?qs)) (qpw_src_qpn (qpw_elem a 0)) (ucast (qpw_batch_size a))
        WRITE_QPC (d, s) = Inr (d, s1)" "ceuProc s1 = Inr s2" "dmaReqs s2 = dmaReqs s @ [r]"
      "ccuDmaReadFifo s2 = ccuDmaReadFifo s @ [length (dmaReqs s)]"
      "dmaRead (dr_addr r) (dr_size r) (dr_data r) s2 = Inr s3" "mbox_fetched (concat (map enc_QpcResc ?qs)) s3" "regs s3 = ?r"
    using mbox_delivers [OF assms(1,2) ent l(1) ne l(2)] by blast
  have "mbox_array dec_QpcResc 256 ?n s3 = Inr ?qs"
    using mbox_array_fetched [OF m(6), of ?n 256 dec_QpcResc] len qpcr.dec_array_enc [of ?qs, OF wf] by (simp del: map_map)
  then have "mbox_command s3 = ebind (create_qpcs ?qs s3) delete_mbox"
    by (simp add: mbox_command_def m(7) write_hcr_regs uc)
  then show ?thesis using m(1-5) assms(4) unfolding writeQpc_def bs by auto
qed


definition ex_qpw :: kfd_ioctl_write_qpc_args where
  "ex_qpw = \<lparr>qpw_batch_size = 2, qpw_elem = (\<lambda>i. \<lparr>qpw_flag = 0, qpw_type = QP_TYPE_RC, qpw_sq_size_log = 12,
     qpw_rq_size_log = 12, qpw_snd_wqe_offset = 0, qpw_rcv_wqe_offset = 0, qpw_llid = 1, qpw_dlid = 2,
     qpw_src_qpn = 7 + of_nat i, qpw_dest_qpn = 9, qpw_snd_psn = 0, qpw_ack_psn = 0, qpw_exp_psn = 0, qpw_cq_num = 1,
     qpw_snd_wqe_base_lkey = 3, qpw_rcv_wqe_base_lkey = 4, qpw_qkey = 0\<rparr>)\<rparr>"

lemma dev0_pciToDma: "pciToDma dev0 a = a"
  by (simp add: dev0_def new_HanGuRnic_def nicbase0_def Let_def new_bytes_def alloc_def)

lemma write_qpc_reaches_device_witness:
  "\<exists>s1 s2 r s3. writeQpc ex_qpw (ex_driver, dev0) = Inr (ex_driver, s1) \<and> ceuProc s1 = Inr s2 \<and>
    dmaReqs s2 = dmaReqs dev0 @ [r] \<and> dmaRead (dr_addr r) (dr_size r) (dr_data r) s2 = Inr s3 \<and>
    mbox_command s3 = ebind (create_qpcs [qpc_entry (qpw_elem ex_qpw 0), qpc_entry (qpw_elem ex_qpw 1)] s3) delete_mbox"
proof -
  have n: "qpw_batch_size ex_qpw = 2" by (simp add: ex_qpw_def)
  have l: "[0..<unat (2 :: u32)] = [0, 1]" by (simp add: upt_rec)
  show ?thesis
    using write_qpc_reaches_device [OF ex_driver_ready dev0_pciToDma, of ex_qpw] unfolding n l by auto
qed



text \<open>
  C34. The ranges of two processes overlap: the bitmap of queue pairs has eight times as many bits as a
  range has numbers, so the process that has used up its range is given the first number of the next
  process as well.
\<close>

theorem qp_numbers_collide:
  assumes "rm_entryNumPage (qpcMeta d) = 65536" "rm_entryNumPage (qpcMeta e) = 65536"
    and "handed_out (qpcMeta d) 65536" "handed_out (qpcMeta e) 0" and "cpu_id d < 255" "cpu_id e = cpu_id d + 1"
    and "qpa_batch_size r = 1"
  shows "\<exists>r1 d1 r2 e2. allocQpc r d = Inr (r1, d1) \<and> allocQpc r e = Inr (r2, e2) \<and> qpa_qp_num r1 = qpa_qp_num r2"
proof -
  have "unat (cpu_id d + 1) = unat (cpu_id d) + 1" using assms(5) by (simp add: unat_word_ariths word_less_nat_alt)
  moreover have "unat (ucast x :: u32) = unat x" for x :: u8
    using unsigned_less [of x, where ?'a = nat] by (simp add: unsigned_ucast_eq take_bit_nat_eq_self)
  ultimately have "(ucast (cpu_id d + 1) :: u32) = ucast (cpu_id d) + 1"
    using unsigned_less [of "cpu_id d", where ?'a = nat] by (simp add: word_unat_eq_iff unat_word_ariths)
  then have "of_nat 65536 + push_bit 16 (ucast (cpu_id d)) = (push_bit 16 (ucast (cpu_id e)) :: u32)"
    unfolding assms(6) by (simp add: push_bit_eq_mult algebra_simps)
  then show ?thesis
    using allocQpc_spec [OF assms(3), of r] allocQpc_spec [OF assms(4), of r] assms(1,2,7)
    by (auto split: sum.splits)
qed

text \<open>
  C28. The search for a page of context memory ends: as many rounds as pages are mapped are enough, the
  page found is not mapped yet, all pages before it are, and sixteen pages starting there are
  mapped to the physical pages just taken, in their order.
\<close>

theorem allocIcm_finds_page:
  assumes "um_inv (icmAddrmap d)" and "um_size (icmAddrmap d) < 2 ^ 64" and "allocIcm m index d = (v, d')"
  shows "um_lookup (icmAddrmap d) v = None \<and>
    (\<exists>k. v = icm_page m index + of_nat k \<and> (\<forall>i<k. um_lookup (icmAddrmap d) (icm_page m index + of_nat i) \<noteq> None)) \<and>
    (\<forall>i<16. um_lookup (icmAddrmap d') (v + of_nat i) = Some (push_bit 12 (pagePtr d + of_nat i))) \<and>
    pagePtr d' = pagePtr d + 16"
proof -
  have v: "v = first_unmapped (um_size (icmAddrmap d)) (icmAddrmap d) (icm_page m index)"
    and d': "icmAddrmap d' = map_icm_pages 16 v (push_bit 12 (pagePtr d)) (icmAddrmap d)" "pagePtr d' = pagePtr d + 16"
    using assms(3) by (auto simp: allocIcm_def allocPhysPages_def Let_def)
  have "um_lookup (icmAddrmap d') (v + of_nat i) = Some (push_bit 12 (pagePtr d + of_nat i))" if "i < 16" for i
  proof -
    have "unat (v + of_nat i - v) < 16" using that by (simp add: unat_of_nat)
    then show ?thesis unfolding d'(1) by (simp add: map_icm_pages_lookup push_bit_eq_mult distrib_left)
  qed
  moreover have "um_lookup (icmAddrmap d) v = None"
    unfolding v by (rule first_unmapped_found [OF assms(1,2)])
  moreover have "\<exists>k. v = icm_page m index + of_nat k \<and> (\<forall>i<k. um_lookup (icmAddrmap d) (icm_page m index + of_nat i) \<noteq> None)"
    unfolding v using first_unmapped_ex [of "um_size (icmAddrmap d)" "icmAddrmap d" "icm_page m index"] by metis
  ultimately show ?thesis using d'(2) by (intro conjI allI impI)
qed

lemma allocIcm_finds_page_witness:
  "um_lookup (icmAddrmap ex_driver) (fst (allocIcm (qpcMeta ex_driver) 5 ex_driver)) = None"
  using allocIcm_finds_page [of ex_driver "qpcMeta ex_driver" 5 "fst (allocIcm (qpcMeta ex_driver) 5 ex_driver)"
      "snd (allocIcm (qpcMeta ex_driver) 5 ex_driver)"] by (simp add: ex_driver_icm um_inv_def um_empty_def um_size_def)

definition ex_full :: "u8 \<Rightarrow> nat \<Rightarrow> HanGuDriver" where
  "ex_full cpu k = ex_driver\<lparr>cpu_id := cpu,
     qpcMeta := (new_meta 0 256 4 20)\<lparr>rm_bitmap := \<lambda>i. if i < k then 0xff else 0\<rparr>\<rparr>"

lemma ex_full_handed: "handed_out (qpcMeta (ex_full cpu k)) (8 * k)"
proof -
  have "taken (qpcMeta (ex_full cpu k)) n \<longleftrightarrow> n < 8 * k" for n
  proof (cases "n div 8 < k")
    case True
    then have "rm_bitmap (qpcMeta (ex_full cpu k)) (n div 8) = 0xff" by (simp add: ex_full_def)
    then have "taken (qpcMeta (ex_full cpu k)) n" using bit_ff [of "n mod 8"] unfolding taken_def by (simp only:)
    then show ?thesis using True by simp
  next
    case False
    then show ?thesis by (simp add: taken_def ex_full_def)
  qed
  then show ?thesis by (simp add: handed_out_def)
qed

lemma qp_numbers_collide_witness:
  "\<exists>r1 d1 r2 e2. allocQpc \<lparr>qpa_batch_size = 1, qpa_qp_num = 0\<rparr> (ex_full 0 8192) = Inr (r1, d1) \<and>
    allocQpc \<lparr>qpa_batch_size = 1, qpa_qp_num = 0\<rparr> (ex_full 1 0) = Inr (r2, e2) \<and> qpa_qp_num r1 = qpa_qp_num r2"
proof (rule qp_numbers_collide)
  show "handed_out (qpcMeta (ex_full 0 8192)) 65536" using ex_full_handed [of 0 8192] by simp
  show "handed_out (qpcMeta (ex_full 1 0)) 0" using ex_full_handed [of 1 0] by simp
qed (simp_all add: ex_full_def new_meta_def)

end
