(* ===== verification/Barrier.thy ===== *)
theory Barrier
  imports Verbs Host
begin

text \<open>
  The synchronisation of the processors of a node: \<^verbatim>\<open>cpu_sync\<close> of the library on each of them, in any
  interleaving, against the synchronisation register of the device. A processor carries the number
  of times it has entered the barrier.
\<close>

section \<open>Steps\<close>

inductive barrier_step :: "(sync_pc \<times> nat) list \<times> rnic \<Rightarrow> (sync_pc \<times> nat) list \<times> rnic \<Rightarrow> bool" where
  cpu: "i < length cs \<Longrightarrow> cpu_sync (fst (cs ! i)) s = Inr (pc, s') \<Longrightarrow>
    barrier_step (cs, s) (cs[i := (pc, if fst (cs ! i) = SyncOut then Suc (snd (cs ! i)) else snd (cs ! i))], s')"
| other: "syncCnt s' = syncCnt s \<Longrightarrow> syncSucc s' = syncSucc s \<Longrightarrow> cpuNum s' = cpuNum s \<Longrightarrow>
    barrier_step (cs, s) (cs, s')"

inductive_cases barrier_stepE: "barrier_step (cs, s) st"

lemma sync_reg: "getBAR SYNC_REG = Some (0, 0x20)"
  using getBAR_hcr [of 32] by (simp add: SYNC_REG_def)

lemma sync_write: "pio_write SYNC_REG (le_enc (v :: u32)) s = write_sync v s"
  by (simp add: pio_write_def sync_reg)

lemma sync_read: "pio_read SYNC_REG 4 s = Inr (ucast (syncSucc s))"
  by (simp add: pio_read_def sync_reg)

lemmas sync_defs = cpu_sync_def sync_write sync_read write_sync_def Let_def

section \<open>Invariant\<close>

definition inside :: "(sync_pc \<times> nat) list \<Rightarrow> nat" where
  "inside cs = length (filter (\<lambda>c. fst c \<in> {SyncEntered, SyncLeaving}) cs)"

lemma length_filter_update:
  "i < length xs \<Longrightarrow> length (filter P (xs[i := x])) + (if P (xs ! i) then 1 else 0) =
     length (filter P xs) + (if P x then 1 else 0)"
proof (induction xs arbitrary: i)
  case (Cons a xs)
  then show ?case using Cons.IH [of "i - 1"] by (cases i) (auto split: if_splits)
qed simp

lemma inside_update:
  "i < length cs \<Longrightarrow> inside (cs[i := c]) + (if fst (cs ! i) \<in> {SyncEntered, SyncLeaving} then 1 else 0) =
     inside cs + (if fst c \<in> {SyncEntered, SyncLeaving} then 1 else 0)"
  unfolding inside_def by (rule length_filter_update)

lemma inside_le: "inside cs \<le> length cs"
  by (simp add: inside_def)

lemma inside_all: "inside cs = length cs \<Longrightarrow> c \<in> set cs \<Longrightarrow> fst c \<in> {SyncEntered, SyncLeaving}"
  unfolding inside_def by (metis filter_id_conv length_filter_less less_irrefl)

lemma inside_none: "inside cs = 0 \<Longrightarrow> c \<in> set cs \<Longrightarrow> fst c \<notin> {SyncEntered, SyncLeaving}"
  by (auto simp: inside_def filter_empty_conv)

text \<open>Round \<open>r\<close> is over and the next one fills up, or everybody is in round \<open>r\<close> and it empties.\<close>

definition filling :: "nat \<Rightarrow> (sync_pc \<times> nat) list \<Rightarrow> bool" where
  "filling r cs \<longleftrightarrow> (\<forall>c \<in> set cs. c = (SyncEntered, Suc r) \<or> c = (SyncOut, r) \<or> c = (SyncLeft, r))"

definition emptying :: "nat \<Rightarrow> (sync_pc \<times> nat) list \<Rightarrow> bool" where
  "emptying r cs \<longleftrightarrow> (\<forall>c \<in> set cs. snd c = r \<and> fst c \<noteq> SyncOut)"

definition barrier_inv :: "nat \<Rightarrow> (sync_pc \<times> nat) list \<Rightarrow> rnic \<Rightarrow> bool" where
  "barrier_inv n cs s \<longleftrightarrow> length cs = n \<and> unat (cpuNum s) = n \<and> unat (syncCnt s) = inside cs \<and>
     (syncSucc s = 0 \<and> inside cs < n \<and> (\<exists>r. filling r cs) \<or> syncSucc s = 1 \<and> 0 < inside cs \<and> (\<exists>r. emptying r cs))"

lemma filling_ge: "filling r cs \<Longrightarrow> c \<in> set cs \<Longrightarrow>
    r \<le> snd c \<and> (fst c = SyncLeft \<or> fst c = SyncOut \<longrightarrow> snd c = r) \<and> (fst c = SyncEntered \<longrightarrow> snd c = Suc r) \<and> fst c \<noteq> SyncLeaving"
  by (auto simp: filling_def)

lemma emptying_eq: "emptying r cs \<Longrightarrow> c \<in> set cs \<Longrightarrow> snd c = r \<and> fst c \<noteq> SyncOut"
  by (simp add: emptying_def)

lemma cpu_ok:
  assumes "barrier_inv n cs s" "i < n"
  shows "\<exists>pc s'. cpu_sync (fst (cs ! i)) s = Inr (pc, s') \<and>
    barrier_inv n (cs[i := (pc, if fst (cs ! i) = SyncOut then Suc (snd (cs ! i)) else snd (cs ! i))]) s'"
proof -
  note inv = assms(1) [unfolded barrier_inv_def]
  have i: "i < length cs" "cs ! i \<in> set cs" using inv assms(2) by auto
  have cnt: "unat (syncCnt s) = inside cs" "unat (cpuNum s) = n" using inv by auto
  have inc: "unat (syncCnt s + 1) = inside cs + 1" if "inside cs < n"
    using that cnt unsigned_less [of "cpuNum s", where ?'a = nat] by (simp add: unat_word_ariths)
  have dec: "unat (syncCnt s - 1) = inside cs - 1" if "0 < inside cs"
    using that cnt by (simp add: unat_sub_if_size word_size unat_minus_one) 
  have upd: "c' \<in> set (cs[i := c]) \<Longrightarrow> c' = c \<or> c' \<in> set cs" for c c' by (auto dest: set_update_subset_insert [THEN subsetD])
  show ?thesis
  proof (cases "fst (cs ! i)")
    case SyncOut
    then obtain r where r: "syncSucc s = 0" "inside cs < n" "filling r cs" "snd (cs ! i) = r"
      using inv i(2) by (fastforce simp: emptying_def filling_def)
    let ?cs = "cs[i := (SyncEntered, Suc r)]"
    have ins: "inside ?cs = Suc (inside cs)" using inside_update [OF i(1), of "(SyncEntered, Suc r)"] SyncOut by simp
    have fil: "filling r ?cs" using r(3) upd by (fastforce simp: filling_def)
    have full: "emptying (Suc r) ?cs" if "inside ?cs = n"
      using fil inside_all [of ?cs] that i inv by (fastforce simp: emptying_def filling_def)
    have le: "syncCnt s + 1 \<le> cpuNum s" using inc [OF r(2)] r(2) cnt by (simp add: word_le_nat_alt)
    have eq: "syncCnt s + 1 = cpuNum s \<longleftrightarrow> inside ?cs = n" using inc [OF r(2)] cnt ins by (simp add: word_unat_eq_iff)
    have "cpu_sync SyncOut s = Inr (SyncEntered, if inside ?cs = n then s\<lparr>syncCnt := syncCnt s + 1, syncSucc := 1\<rparr>
        else s\<lparr>syncCnt := syncCnt s + 1\<rparr>)"
      using le by (simp add: sync_defs eq)
    moreover have "barrier_inv n ?cs (s\<lparr>syncCnt := syncCnt s + 1, syncSucc := 1\<rparr>)" if "inside ?cs = n"
      using full [OF that] inc [OF r(2)] ins inv by (auto simp: barrier_inv_def)
    moreover have "barrier_inv n ?cs (s\<lparr>syncCnt := syncCnt s + 1\<rparr>)" if "inside ?cs \<noteq> n"
      using fil that inc [OF r(2)] ins r(1,2) inv by (auto simp: barrier_inv_def)
    ultimately show ?thesis using SyncOut r(4) by auto
  next
    case SyncEntered
    show ?thesis
    proof (cases "syncSucc s = 1")
      case True
      then obtain r where r: "0 < inside cs" "emptying r cs" using inv by auto
      have "inside (cs[i := (SyncLeaving, snd (cs ! i))]) = inside cs"
        using inside_update [OF i(1), of "(SyncLeaving, snd (cs ! i))"] SyncEntered by simp
      moreover have "emptying r (cs[i := (SyncLeaving, snd (cs ! i))])" using r(2) upd i(2) by (fastforce simp: emptying_def)
      ultimately show ?thesis using SyncEntered True inv r by (auto simp: sync_defs barrier_inv_def)
    next
      case False
      then have "syncSucc s = 0" using inv by auto
      then have "cpu_sync (fst (cs ! i)) s = Inr (SyncEntered, s)" using SyncEntered by (simp add: sync_defs)
      moreover have "cs[i := (SyncEntered, snd (cs ! i))] = cs" using SyncEntered by (metis list_update_id prod.collapse)
      ultimately show ?thesis using assms(1) SyncEntered by simp
    qed
  next
    case SyncLeaving
    then obtain r where r: "syncSucc s = 1" "0 < inside cs" "emptying r cs" "snd (cs ! i) = r"
      using inv i(2) by (fastforce simp: emptying_def filling_def)
    let ?cs = "cs[i := (SyncLeft, r)]"
    have ins: "Suc (inside ?cs) = inside cs" using inside_update [OF i(1), of "(SyncLeft, r)"] SyncLeaving by simp
    have emp: "emptying r ?cs" using r(3) upd by (fastforce simp: emptying_def)
    have over: "filling r ?cs" if "inside ?cs = 0"
    proof -
      have "fst c = SyncLeft" if "c \<in> set ?cs" for c
        using inside_none [OF \<open>inside ?cs = 0\<close> that] emp that by (cases "fst c") (auto simp: emptying_def)
      then show ?thesis using emp by (auto simp: filling_def emptying_def prod_eq_iff)
    qed
    have eq: "syncCnt s = 1 \<longleftrightarrow> inside ?cs = 0" using cnt ins by (auto simp: word_unat_eq_iff)
    have pos: "0 < syncCnt s" using r(2) cnt by (simp add: word_less_nat_alt)
    have lt: "inside ?cs < n" using ins inside_le [of cs] inv by simp
    have "cpu_sync SyncLeaving s = Inr (SyncLeft, if inside ?cs = 0 then s\<lparr>syncCnt := syncCnt s - 1, syncSucc := 0\<rparr>
        else s\<lparr>syncCnt := syncCnt s - 1\<rparr>)"
      using pos by (simp add: sync_defs eq)
    moreover have "barrier_inv n ?cs (s\<lparr>syncCnt := syncCnt s - 1, syncSucc := 0\<rparr>)" if "inside ?cs = 0"
      using over [OF that] that dec [OF r(2)] ins lt inv by (auto simp: barrier_inv_def)
    moreover have "barrier_inv n ?cs (s\<lparr>syncCnt := syncCnt s - 1\<rparr>)" if "inside ?cs \<noteq> 0"
      using emp that dec [OF r(2)] ins r(1) inv by (auto simp: barrier_inv_def)
    ultimately show ?thesis using SyncLeaving r(4) by auto
  next
    case SyncLeft
    show ?thesis
    proof (cases "syncSucc s = 0")
      case True
      then obtain r where r: "filling r cs" "inside cs < n" using inv by auto
      have "inside (cs[i := (SyncOut, snd (cs ! i))]) = inside cs"
        using inside_update [OF i(1), of "(SyncOut, snd (cs ! i))"] SyncLeft by simp
      moreover have "snd (cs ! i) = r" using filling_ge [OF r(1) i(2)] SyncLeft by simp
      then have "filling r (cs[i := (SyncOut, snd (cs ! i))])"
        using r(1) unfolding filling_def by (metis upd)
      ultimately show ?thesis using SyncLeft True inv r by (auto simp: sync_defs barrier_inv_def)
    next
      case False
      then have "syncSucc s = 1" using inv by auto
      then have "cpu_sync (fst (cs ! i)) s = Inr (SyncLeft, s)" using SyncLeft by (simp add: sync_defs)
      moreover have "cs[i := (SyncLeft, snd (cs ! i))] = cs" using SyncLeft by (metis list_update_id prod.collapse)
      ultimately show ?thesis using assms(1) SyncLeft by simp
    qed
  qed
qed


lemma barrier_inv_step: "barrier_inv n cs s \<Longrightarrow> barrier_step (cs, s) (cs', s') \<Longrightarrow> barrier_inv n cs' s'"
proof (erule barrier_stepE, goal_cases)
  case (1 i pc s1)
  then have "i < n" by (simp add: barrier_inv_def)
  then show ?case using cpu_ok [OF 1(1)] 1 by fastforce
next
  case (2 s1)
  then show ?case by (simp add: barrier_inv_def)
qed

lemma barrier_inv_run: "barrier_step\<^sup>*\<^sup>* st st' \<Longrightarrow> barrier_inv n (fst st) (snd st) \<Longrightarrow> barrier_inv n (fst st') (snd st')"
  by (induction rule: rtranclp_induct) (auto intro: barrier_inv_step)

text \<open>Some processor always gets on.\<close>

lemma barrier_progress:
  assumes "barrier_inv n cs s" "0 < n"
  shows "\<exists>i<n. \<exists>pc s'. cpu_sync (fst (cs ! i)) s = Inr (pc, s') \<and> pc \<noteq> fst (cs ! i)"
proof -
  note inv = assms(1) [unfolded barrier_inv_def]
  have moves: "\<exists>pc s'. cpu_sync (fst (cs ! i)) s = Inr (pc, s') \<and> pc \<noteq> fst (cs ! i)"
    if "i < n" "fst (cs ! i) \<in> {SyncOut, SyncLeaving} \<or> fst (cs ! i) = SyncEntered \<and> syncSucc s = 1 \<or> fst (cs ! i) = SyncLeft \<and> syncSucc s = 0" for i
    using cpu_ok [OF assms(1) that(1)] that(2) by (auto simp: sync_defs ebind_Inr ensure_Inr)
  have "\<exists>i<n. fst (cs ! i) \<in> {SyncOut, SyncLeaving} \<or> fst (cs ! i) = SyncEntered \<and> syncSucc s = 1 \<or> fst (cs ! i) = SyncLeft \<and> syncSucc s = 0"
  proof (cases "syncSucc s = 1")
    case True
    then have "inside cs \<noteq> 0" using inv by auto
    then obtain c where "c \<in> set cs" "fst c \<in> {SyncEntered, SyncLeaving}" by (auto simp: inside_def filter_empty_conv)
    then show ?thesis using inv True by (auto simp: in_set_conv_nth)
  next
    case False
    then obtain r where f: "syncSucc s = 0" "filling r cs" "inside cs < length cs" using inv by auto
    have "\<not> (\<forall>c\<in>set cs. fst c \<in> {SyncEntered, SyncLeaving})"
    proof
      assume "\<forall>c\<in>set cs. fst c \<in> {SyncEntered, SyncLeaving}"
      then have "filter (\<lambda>c. fst c \<in> {SyncEntered, SyncLeaving}) cs = cs" by (intro filter_True)
      then have "inside cs = length cs" unfolding inside_def by (rule arg_cong)
      then show False using f(3) by simp
    qed
    then obtain i where i: "i < n" "fst (cs ! i) \<notin> {SyncEntered, SyncLeaving}" using inv by (metis in_set_conv_nth)
    then have "fst (cs ! i) = SyncOut \<or> fst (cs ! i) = SyncLeft" by (cases "fst (cs ! i)") auto
    then show ?thesis using f(1) i(1) by blast
  qed
  then show ?thesis using moves by blast
qed

section \<open>Property\<close>

text \<open>
  C26. The barrier is one, in every interleaving and however often it is used: the register is never
  misused (no assertion of the device fails), a processor that has passed the first half of a round
  finds every processor in that round, one that is out of a round finds that nobody is still inside
  it, and there is always a processor that gets on.
\<close>

theorem cpu_sync_is_barrier:
  assumes "barrier_step\<^sup>*\<^sup>* (replicate n (SyncOut, 0), s0) (cs, s)"
    and "0 < n" "unat (cpuNum s0) = n" "syncCnt s0 = 0" "syncSucc s0 = 0"
  shows "(\<forall>i<n. \<exists>pc s'. cpu_sync (fst (cs ! i)) s = Inr (pc, s')) \<and>
    (\<forall>i<n. \<forall>j<n. fst (cs ! i) \<in> {SyncLeaving, SyncLeft} \<longrightarrow> snd (cs ! i) \<le> snd (cs ! j)) \<and>
    (\<forall>i<n. \<forall>j<n. fst (cs ! i) = SyncOut \<and> fst (cs ! j) \<in> {SyncEntered, SyncLeaving} \<longrightarrow> snd (cs ! i) < snd (cs ! j)) \<and>
    (\<exists>i<n. \<exists>pc s'. cpu_sync (fst (cs ! i)) s = Inr (pc, s') \<and> pc \<noteq> fst (cs ! i))"
proof -
  have "barrier_inv n (replicate n (SyncOut, 0)) s0"
    using assms(2-5) by (auto simp: barrier_inv_def inside_def filling_def)
  then have inv: "barrier_inv n cs s" using barrier_inv_run [OF assms(1)] by simp
  then have cases: "(\<exists>r. filling r cs) \<or> (\<exists>r. emptying r cs)" and len: "length cs = n" by (auto simp: barrier_inv_def)
  have mem: "cs ! i \<in> set cs" if "i < n" for i using that len by simp
  have le: "snd c \<le> snd c'" if "c \<in> set cs" "c' \<in> set cs" "fst c \<in> {SyncLeaving, SyncLeft}" for c c'
    using cases filling_ge [OF _ that(1)] filling_ge [OF _ that(2)] emptying_eq [OF _ that(1)] emptying_eq [OF _ that(2)] that(3)
    by fastforce
  have lt: "snd c < snd c'" if "c \<in> set cs" "c' \<in> set cs" "fst c = SyncOut" "fst c' \<in> {SyncEntered, SyncLeaving}" for c c'
    using cases filling_ge [OF _ that(1)] filling_ge [OF _ that(2)] emptying_eq [OF _ that(1)] that(3,4) by fastforce
  have "\<forall>i<n. \<forall>j<n. fst (cs ! i) \<in> {SyncLeaving, SyncLeft} \<longrightarrow> snd (cs ! i) \<le> snd (cs ! j)"
    using le mem by blast
  moreover have "\<forall>i<n. \<forall>j<n. fst (cs ! i) = SyncOut \<and> fst (cs ! j) \<in> {SyncEntered, SyncLeaving} \<longrightarrow> snd (cs ! i) < snd (cs ! j)"
    using lt mem by blast
  ultimately show ?thesis using cpu_ok [OF inv] barrier_progress [OF inv assms(2)] by blast
qed

lemma cpu_sync_is_barrier_witness:
  "\<exists>i<2. \<exists>pc s'. cpu_sync (fst (replicate 2 (SyncOut, 0 :: nat) ! i)) (dev0\<lparr>cpuNum := 2, syncCnt := 0, syncSucc := 0\<rparr>) = Inr (pc, s') \<and>
    pc \<noteq> fst (replicate 2 (SyncOut, 0 :: nat) ! i)"
  using cpu_sync_is_barrier [OF rtranclp.rtrancl_refl, of 2 "dev0\<lparr>cpuNum := 2, syncCnt := 0, syncSucc := 0\<rparr>"] by simp

end
