(* ===== verification/SendRing.thy ===== *)
theory SendRing
  imports Verbs Host
begin

text \<open>
  The send queue that the library and the device share: what the library writes is what the device
  finds at the places its doorbells name. The lemmas on blocks of the process's memory serve the
  receive and the completion queue as well.
\<close>

section \<open>Bytes at an offset\<close>

lemma off_diff:
  "k < 2 ^ 32 \<Longrightarrow> j < 2 ^ 32 \<Longrightarrow> unat (of_nat k - of_nat j :: u64) = (if j \<le> k then k - j else k + 2 ^ 64 - j)"
  by (simp add: unat_sub_if_size word_size unat_of_nat word_le_nat_alt)

lemma hostMem_write_off:
  assumes "k < 2 ^ 32" "j < 2 ^ 32" "length bs < 2 ^ 32"
  shows "hostMem (mem_write (a + of_nat j) bs s) (a + of_nat k) =
    (if j \<le> k \<and> k < j + length bs then bs ! (k - j) else hostMem s (a + of_nat k))"
  using assms by (auto simp: mem_write_def off_diff)

lemma mem_read_off:
  assumes "k + n < 2 ^ 32" "j < 2 ^ 32" "length bs < 2 ^ 32" "k + n \<le> j \<or> j + length bs \<le> k"
  shows "mem_read (a + of_nat k) n (mem_write (a + of_nat j) bs s) = mem_read (a + of_nat k) n s"
proof -
  have "hostMem (mem_write (a + of_nat j) bs s) (a + of_nat k + of_nat i) = hostMem s (a + of_nat k + of_nat i)" if "i < n" for i
    using hostMem_write_off [of "k + i" j bs a s] assms that by (auto simp: add.assoc)
  then show ?thesis by (simp add: mem_read_def)
qed

lemma mem_read_same: "length bs < 2 ^ 64 \<Longrightarrow> length bs = n \<Longrightarrow> mem_read a n (mem_write a bs s) = bs"
  using mem_read_write [of bs a s] by simp

lemma mem_read_add: "mem_read a (m + n) s = mem_read a m s @ mem_read (a + of_nat m) n s"
  by (rule nth_equalityI) (auto simp: mem_read_def nth_append add.assoc of_nat_add [symmetric] simp del: of_nat_add)

lemma length_mem_read [simp]: "length (mem_read a n s) = n"
  by (simp add: mem_read_def)

section \<open>Send descriptors\<close>

text \<open>The descriptor of a work request; \<open>old\<close> is what was in its place.\<close>

definition tx_of :: "ibv_qp \<Rightarrow> ibv_wqe \<Rightarrow> TxDesc \<Rightarrow> TxDesc" where
  "tx_of qp w old =
     (let d = old\<lparr>tx_len := wq_length w, tx_lkey := ib_lkey (wq_mr w),
                  tx_lVaddr := ib_addr (wq_mr w) + ucast (wq_offset w),
                  tx_flags := push_bit 8 (drop_bit 8 (wq_flag w)) OR ucast (wq_trans_type w)\<rparr>
      in if wq_trans_type w = IBV_TYPE_RDMA_WRITE \<or> wq_trans_type w = IBV_TYPE_RDMA_READ
         then d\<lparr>tx_w0 := wq_w0 w, tx_w1 := wq_w2 w, tx_w2 := wq_w3 w\<rparr>
         else if wq_trans_type w = IBV_TYPE_SEND \<and> iqp_type qp = QP_TYPE_UD
         then d\<lparr>tx_w0 := wq_w0 w, tx_w1 := wq_w1 w, tx_w2 := wq_w2 w\<rparr>
         else d)"

lemma raddr_halves: "ucast (wq_raddr w AND 0xffffffff) = wq_w2 w" "ucast (drop_bit 32 (wq_raddr w)) = wq_w3 w"
  by (rule bit_word_eqI, auto simp: wq_raddr_def and_low_half bit_simps dest: bit_imp_le_length)+

lemma le_dec_opcode: "le_dec (b # tl (le_enc (f :: u32))) = push_bit 8 (drop_bit 8 f) OR (ucast b :: u32)"
proof (rule bit_word_eqI)
  fix n assume n: "n < LENGTH(32)"
  show "bit (le_dec (b # tl (le_enc f)) :: u32) n \<longleftrightarrow> bit (push_bit 8 (drop_bit 8 f) OR (ucast b :: u32)) n"
  proof (cases "n < 8")
    case True
    then show ?thesis using n by (simp add: bit_le_dec bit_simps)
  next
    case False
    then have d: "n div 8 = Suc (n div 8 - 1)" "n div 8 < 4" using n by auto
    have "(b # tl (le_enc f)) ! (n div 8) = le_enc f ! (n div 8)" using d by (subst (1 2) d(1)) (simp add: nth_tl)
    then have "bit ((b # tl (le_enc f)) ! (n div 8)) (n mod 8) \<longleftrightarrow> bit f n"
      using d(2) by (simp add: le_enc_def bit_simps)
    then show ?thesis using n d(2) False by (auto simp: bit_le_dec bit_simps simp del: le_dec.simps dest: bit_imp_le_length)
  qed
qed


text \<open>Blocks of the process: mapped to consecutive memory below the registers.\<close>

definition block :: "u64 \<Rightarrow> nat \<Rightarrow> u64 \<Rightarrow> HanGuDriver \<Rightarrow> bool" where
  "block va n pa d \<longleftrightarrow> maps_to va n pa d \<and> n < 2 ^ 32 \<and> unat pa + n < 0xc000000000000000"

lemma block_store:
  assumes "block va n pa d" "k + length bs \<le> n" "bs \<noteq> []"
  shows "writeBlob (va + of_nat k) bs (d, s) = Inr (d, mem_write (pa + of_nat k) bs s)"
proof (rule writeBlob_mapped)
  show "maps_to (va + of_nat k) (length bs) (pa + of_nat k) d"
    unfolding maps_to_def
  proof (intro allI impI)
    fix i assume "i < length bs"
    then show "pt_translate (va + of_nat k + of_nat i) d = Some (pa + of_nat k + of_nat i)"
      using assms(1,2) unfolding block_def maps_to_def by (auto simp: add.assoc dest!: spec [of _ "k + i"])
  qed
  have "unat (pa + of_nat k) < 0xc000000000000000"
    using assms unat_plus_nat [of pa k] by (simp add: block_def)
  then show "getBAR (pa + of_nat k) = None"
    by (simp add: getBAR_def rnic_BARs_def isBAR_def word_le_nat_alt getBAR_from_empty)
qed (use assms in \<open>auto simp: block_def\<close>)

lemma block_load:
  assumes "block va n pa d" "k + m \<le> n"
  shows "load (va + of_nat k) m (d, s) = Inr (mem_read (pa + of_nat k) m s)"
  using assms(2)
proof (induction m arbitrary: k)
  case 0
  then show ?case by (simp add: load_def mem_read_def)
next
  case (Suc m)
  have t: "pt_translate (va + of_nat k) d = Some (pa + of_nat k)"
    using assms(1) Suc.prems by (simp add: block_def maps_to_def)
  have "load (va + of_nat (Suc k)) m (d, s) = Inr (mem_read (pa + of_nat (Suc k)) m s)" using Suc.prems by (intro Suc.IH) simp
  then have r: "read_bytes (va + of_nat k + 1) m d s = Inr (mem_read (pa + of_nat k + 1) m s)"
    by (simp add: load_def add.commute add.left_commute)
  have "mem_read (pa + of_nat k) (Suc m) s = hostMem s (pa + of_nat k) # mem_read (pa + of_nat k + 1) m s"
    using mem_read_add [of "pa + of_nat k" 1 m s] by (simp add: mem_read_def)
  then show ?case using t r by (simp add: load_def)
qed

lemma le_enc_ne [simp]: "le_enc (x :: u32) \<noteq> []" "le_enc (y :: u64) \<noteq> []"
  by (simp_all add: le_enc_def)

lemma slice_in: "off + n \<le> length xs \<Longrightarrow> slice off n (xs @ ys) = slice off n xs"
  by (simp add: slice_def)

lemma dec_TxDesc_parts:
  assumes "length ws = 12" "length f = 4"
  shows "dec_TxDesc (le_enc a @ le_enc b @ le_enc c @ ws @ f) =
    \<lparr>tx_len = a, tx_lkey = b, tx_lVaddr = c, tx_w0 = le_dec (slice 0 4 ws), tx_w1 = le_dec (slice 4 4 ws),
     tx_w2 = le_dec (slice 8 4 ws), tx_flags = le_dec f\<rparr>"
  using assms by (simp add: dec_TxDesc_def slice_in)

lemma dec_TxDesc_words:
  assumes "length x = 16" "length ws = 12"
  shows "tx_w0 (dec_TxDesc (x @ ws @ f)) = le_dec (slice 0 4 ws)" "tx_w1 (dec_TxDesc (x @ ws @ f)) = le_dec (slice 4 4 ws)"
    "tx_w2 (dec_TxDesc (x @ ws @ f)) = le_dec (slice 8 4 ws)"
  using assms by (simp_all add: dec_TxDesc_def slice_in)

lemma mem_write_mem: "mem_write a bs s = s\<lparr>hostMem := hostMem (mem_write a bs s)\<rparr>"
  by (simp add: mem_write_def)

lemma write_send_desc_block:
  assumes b: "block va n pa d" "k + 32 \<le> n"
  shows "\<exists>m. write_send_desc (va + of_nat k) qp w (d, s) = Inr (d, s\<lparr>hostMem := m\<rparr>) \<and>
    dec_TxDesc (mem_read (pa + of_nat k) 32 (s\<lparr>hostMem := m\<rparr>)) = tx_of qp w (dec_TxDesc (mem_read (pa + of_nat k) 32 s)) \<and>
    (\<forall>j l. (j + l \<le> k \<or> k + 32 \<le> j) \<and> j + l \<le> n \<longrightarrow> mem_read (pa + of_nat j) l (s\<lparr>hostMem := m\<rparr>) = mem_read (pa + of_nat j) l s)"
proof -
  let ?A = "le_enc (wq_length w) @ le_enc (ib_lkey (wq_mr w)) @ le_enc (ib_addr (wq_mr w) + ucast (wq_offset w))"
  let ?B = "if wq_trans_type w = IBV_TYPE_RDMA_WRITE \<or> wq_trans_type w = IBV_TYPE_RDMA_READ
      then le_enc (wq_w0 w) @ le_enc (wq_w2 w) @ le_enc (wq_w3 w)
      else if wq_trans_type w = IBV_TYPE_SEND \<and> iqp_type qp = QP_TYPE_UD
      then le_enc (wq_w0 w) @ le_enc (wq_w1 w) @ le_enc (wq_w2 w) else mem_read (pa + of_nat (k + 16)) 12 s"
  let ?s1 = "mem_write (pa + of_nat (k + 28)) (le_enc (wq_flag w)) s"
  let ?s2 = "mem_write (pa + of_nat (k + 28)) [wq_trans_type w] ?s1"
  let ?s3 = "mem_write (pa + of_nat k) ?A ?s2"
  define s4 where "s4 = (if wq_trans_type w = IBV_TYPE_RDMA_WRITE \<or> wq_trans_type w = IBV_TYPE_RDMA_READ \<or>
    wq_trans_type w = IBV_TYPE_SEND \<and> iqp_type qp = QP_TYPE_UD then mem_write (pa + of_nat (k + 16)) ?B ?s3 else ?s3)"
  have n: "n < 2 ^ 32" "k + 32 \<le> n" using b by (auto simp: block_def)
  have st: "writeBlob (va + of_nat (k + j)) bs (d, t) = Inr (d, mem_write (pa + of_nat (k + j)) bs t)"
    if "j + length bs \<le> 32" "bs \<noteq> []" for j bs t
    using block_store [OF b(1), of "k + j" bs t] b(2) that by simp
  have at: "va + of_nat k + 28 = va + of_nat (k + 28)" "va + of_nat k + 16 = va + of_nat (k + 16)" by simp_all
  have run: "write_send_desc (va + of_nat k) qp w (d, s) = Inr (d, s4)"
    using st [of 0 ?A] unfolding write_send_desc_def at raddr_halves by (auto simp: st s4_def simp del: of_nat_add)
  have mem: "s4 = s\<lparr>hostMem := hostMem s4\<rparr>" by (simp add: s4_def mem_write_def)
  have f: "mem_read (pa + of_nat j) l (mem_write (pa + of_nat i) bs t) = mem_read (pa + of_nat j) l t"
    if "i \<le> k + 32" "i + length bs \<le> k + 32" "j + l \<le> n" "j + l \<le> i \<or> i + length bs \<le> j" for i j l bs t
    by (rule mem_read_off) (use that n in auto)
  have frame: "mem_read (pa + of_nat j) l s4 = mem_read (pa + of_nat j) l s" if "j + l \<le> k \<or> k + 32 \<le> j" "j + l \<le> n" for j l
    using that by (auto simp: s4_def f simp del: of_nat_add)
  have lB: "length ?B = 12" by simp
  have A: "mem_read (pa + of_nat k) 16 s4 = ?A"
    using n by (auto simp: s4_def f mem_read_same simp del: of_nat_add)
  have B: "mem_read (pa + of_nat (k + 16)) 12 s4 = ?B"
    using n by (auto simp: s4_def f mem_read_same simp del: of_nat_add)
  have "mem_read (pa + of_nat (k + 28)) 4 ?s2 = wq_trans_type w # tl (le_enc (wq_flag w))"
  proof -
    have four: "mem_read (pa + of_nat (k + 28)) 4 t = mem_read (pa + of_nat (k + 28)) 1 t @ mem_read (pa + of_nat (k + 29)) 3 t" for t
      using mem_read_add [of "pa + of_nat (k + 28)" 1 3 t] by (simp add: add.assoc)
    have "mem_read (pa + of_nat (k + 29)) 3 ?s2 = mem_read (pa + of_nat (k + 29)) 3 ?s1" using n by (intro f) auto
    also have "\<dots> = tl (mem_read (pa + of_nat (k + 28)) 4 ?s1)" unfolding four by (simp add: mem_read_def)
    also have "mem_read (pa + of_nat (k + 28)) 4 ?s1 = le_enc (wq_flag w)" by (rule mem_read_same) simp_all
    finally show ?thesis unfolding four by (simp add: mem_read_same)
  qed
  then have C: "mem_read (pa + of_nat (k + 28)) 4 s4 = wq_trans_type w # tl (le_enc (wq_flag w))"
    using n by (auto simp: s4_def f simp del: of_nat_add)
  have split: "mem_read (pa + of_nat k) 32 t = mem_read (pa + of_nat k) 16 t @ mem_read (pa + of_nat (k + 16)) 12 t @ mem_read (pa + of_nat (k + 28)) 4 t" for t
    using mem_read_add [of "pa + of_nat k" 16 16 t] mem_read_add [of "pa + of_nat (k + 16)" 12 4 t] by (simp add: add.assoc)
  note old = dec_TxDesc_words [of "mem_read (pa + of_nat k) 16 s" "mem_read (pa + of_nat (k + 16)) 12 s" "mem_read (pa + of_nat (k + 28)) 4 s", OF length_mem_read length_mem_read, folded split]
  have "dec_TxDesc (mem_read (pa + of_nat k) 32 s4) = tx_of qp w (dec_TxDesc (mem_read (pa + of_nat k) 32 s))"
    unfolding split [of s4] A B C
    by (intro TxDesc.equality)
      (auto simp: dec_TxDesc_parts le_dec_opcode tx_of_def Let_def slice_in old simp del: le_dec.simps of_nat_add)
  then show ?thesis using run frame mem by metis
qed


section \<open>Doorbells\<close>

lemma small_bits: "(x :: 'a::len word) < 2 ^ m \<Longrightarrow> bit x i \<Longrightarrow> i < m"
  by (metis bit_take_bit_iff less_mask_eq take_bit_eq_mask)

lemma doorbell_of_val:
  assumes "first < 16" "cnt < 256" "qpn < 2 ^ 24"
  shows "doorbell_of (doorbell_val head first qpn cnt) =
    \<lparr>db_opcode = first, db_num = of_nat cnt, db_qpn = qpn, db_offset = ucast head\<rparr>"
proof -
  have f: "bit first i \<Longrightarrow> i < 4" for i using assms(1) small_bits [of first 4 i] by simp
  have "take_bit 8 cnt = cnt" using assms(2) by (simp add: take_bit_nat_eq_self)
  then have c: "bit cnt i \<Longrightarrow> i < 8" for i by (metis bit_take_bit_iff)
  have q: "bit qpn i \<Longrightarrow> i < 24" for i using assms(3) small_bits [of qpn 24 i] by simp
  let ?v = "doorbell_val head first qpn cnt"
  have "ucast (dbr_opcode ?v) = first"
    by (rule bit_word_eqI) (auto simp: field_defs doorbell_val_def Let_def bit_bits_val bit_simps dest: f bit_imp_le_length)
  moreover have "ucast (dbr_num ?v) = (of_nat cnt :: u8)"
    by (rule bit_word_eqI) (auto simp: field_defs doorbell_val_def Let_def bit_bits_val bit_simps unsigned_of_nat dest: c bit_imp_le_length)
  moreover have "ucast (dbr_qpn ?v) = qpn"
    by (rule bit_word_eqI) (auto simp: field_defs doorbell_val_def Let_def bit_bits_val bit_simps dest: q c bit_imp_le_length)
  moreover have "ucast (dbr_offset ?v) = (ucast head :: u32)"
    by (rule bit_word_eqI) (auto simp: field_defs doorbell_val_def Let_def bit_bits_val bit_simps dest: f bit_imp_le_length)
  ultimately show ?thesis by (simp add: doorbell_of_def)
qed

lemma doorbell_store:
  assumes "driver_ready d"
  shows "writeBlob (hcrAddr d + 24) (le_enc v) (d, s) = Inr (d, sched_next DoorbellProcEvent
    (s\<lparr>regs := (regs s)\<lparr>db := v\<rparr>, pio2ccuDbFifo := pio2ccuDbFifo s @ [doorbell_of v]\<rparr>))"
proof -
  have "pt_translate (hcrAddr d + 24) d = Some (0xc000000000000000 + 24)" using hcr_translate [OF assms, of 24] by simp
  moreover have "getBAR (0xc000000000000000 + 24) = Some (0, 24)" using getBAR_hcr [of 24] by simp
  ultimately show ?thesis by (simp add: writeBlob_def pio_write_def)
qed


text \<open>The places of the ring that a doorbell names.\<close>

definition db_slots :: "DoorbellFifo \<Rightarrow> nat list" where
  "db_slots b = map (\<lambda>j. unat (db_offset b) div 32 + j) [0..<unat (db_num b)]"

definition db_ok :: "u32 \<Rightarrow> nat \<Rightarrow> DoorbellFifo \<Rightarrow> bool" where
  "db_ok qpn cap b \<longleftrightarrow> db_qpn b = qpn \<and> db_num b \<noteq> 0 \<and> unat (db_offset b) mod 32 = 0 \<and>
     unat (db_offset b) + 32 * unat (db_num b) \<le> 32 * cap"

definition slot_at :: "u64 \<Rightarrow> nat \<Rightarrow> rnic \<Rightarrow> TxDesc" where
  "slot_at pa j s = dec_TxDesc (mem_read (pa + of_nat (32 * j)) 32 s)"

text \<open>A send queue of \<open>cap\<close> places, mapped, and its doorbell.\<close>

definition send_ring :: "ibv_qp \<Rightarrow> nat \<Rightarrow> u64 \<Rightarrow> HanGuDriver \<Rightarrow> bool" where
  "send_ring qp cap pa d \<longleftrightarrow> driver_ready d \<and> 0 < cap \<and> cap \<le> 128 \<and> iqp_num qp < 2 ^ 24 \<and>
     block (ib_addr (iqp_snd_mr qp)) (32 * cap) pa d \<and> ib_length (iqp_snd_mr qp) = of_nat (32 * cap)"

lemma db_val_ok:
  assumes "first < 16" "hs + cnt \<le> cap" "cap \<le> 128" "cnt \<noteq> 0" "qpn < 2 ^ 24"
  defines "b \<equiv> doorbell_of (doorbell_val (of_nat (32 * hs)) first qpn cnt)"
  shows "db_ok qpn cap b" "db_slots b = [hs..<hs + cnt]"
proof -
  have b: "b = \<lparr>db_opcode = first, db_num = of_nat cnt, db_qpn = qpn, db_offset = ucast (of_nat (32 * hs) :: u16)\<rparr>"
    unfolding b_def by (rule doorbell_of_val) (use assms in auto)
  have o: "unat (db_offset b) = 32 * hs"
    using assms(2-4) unfolding b by (simp add: unsigned_ucast_eq unsigned_of_nat take_bit_nat_eq_self del: of_nat_mult)
  have n: "unat (db_num b) = cnt" using assms(2-4) unfolding b by (simp add: unat_of_nat)
  have "db_num b \<noteq> 0" using n assms(4) by auto
  then show "db_ok qpn cap b" using o n assms(2) by (simp add: db_ok_def b)
  show "db_slots b = [hs..<hs + cnt]"
    unfolding db_slots_def o n by (rule nth_equalityI) auto
qed

lemma tx_of_off [simp]: "tx_of (qp\<lparr>iqp_snd_wqe_offset := x\<rparr>) = tx_of qp"
  by (intro ext) (simp add: tx_of_def cong: if_cong)

lemma send_ring_off [simp]: "send_ring (qp\<lparr>iqp_snd_wqe_offset := x\<rparr>) cap pa d = send_ring qp cap pa d"
  by (simp add: send_ring_def)

lemma slot_at_doorbell [simp]:
  "slot_at pa j (sched_next e (s\<lparr>regs := r, pio2ccuDbFifo := q\<rparr>)) = slot_at pa j s"
  by (simp add: slot_at_def mem_read_def)

lemma ring_full:
  assumes "k < cap" "cap \<le> 128"
  shows "ucast (of_nat (32 * k) + 32 :: u16) + 32 > (of_nat (32 * cap) :: u64) \<longleftrightarrow> Suc k = cap"
proof -
  have "unat (ucast (of_nat (32 * k) + 32 :: u16) + 32 :: u64) = 32 * k + 64"
    using assms by (simp add: unat_word_ariths unsigned_ucast_eq unsigned_of_nat take_bit_nat_eq_self del: of_nat_mult)
  moreover have "unat (of_nat (32 * cap) :: u64) = 32 * cap" using assms by (simp add: unat_of_nat del: of_nat_mult)
  ultimately show ?thesis using assms(1) by (auto simp: word_less_nat_alt simp del: of_nat_mult)
qed


text \<open>The work requests are in the ring, from place \<open>k\<close> on, and nothing else has changed there.\<close>

definition posted :: "ibv_qp \<Rightarrow> nat \<Rightarrow> u64 \<Rightarrow> ibv_wqe list \<Rightarrow> nat \<Rightarrow> rnic \<Rightarrow> rnic \<Rightarrow> bool" where
  "posted qp cap pa ws k s s' \<longleftrightarrow>
     (\<forall>i<length ws. slot_at pa ((k + i) mod cap) s' = tx_of qp (ws ! i) (slot_at pa ((k + i) mod cap) s)) \<and>
     (\<forall>j<cap. (\<forall>i<length ws. j \<noteq> (k + i) mod cap) \<longrightarrow> slot_at pa j s' = slot_at pa j s)"

lemma mod_other: "k < cap \<Longrightarrow> 0 < i \<Longrightarrow> i < cap \<Longrightarrow> (k + i) mod cap \<noteq> (k :: nat)"
  by (auto simp: mod_if split: if_splits)

lemma posted_Cons:
  assumes "k < cap" "length ws < cap"
    and w: "slot_at pa k s1 = tx_of qp w (slot_at pa k s)"
    and f: "\<And>j. j < cap \<Longrightarrow> j \<noteq> k \<Longrightarrow> slot_at pa j s1 = slot_at pa j s"
    and p: "posted qp cap pa ws (Suc k mod cap) s1 s'"
  shows "posted qp cap pa (w # ws) k s s'"
proof -
  have sh: "(Suc k mod cap + i) mod cap = (k + Suc i) mod cap" for i by (simp add: mod_add_left_eq)
  have ne: "(k + Suc i) mod cap \<noteq> k" if "i < length ws" for i using mod_other [of k cap "Suc i"] assms(1,2) that by simp
  have "slot_at pa k s' = slot_at pa k s1"
    using p ne assms(1) unfolding posted_def sh by (metis ne)
  then have 0: "slot_at pa ((k + 0) mod cap) s' = tx_of qp w (slot_at pa ((k + 0) mod cap) s)" using w assms(1) by simp
  have S: "slot_at pa ((k + Suc i) mod cap) s' = tx_of qp (ws ! i) (slot_at pa ((k + Suc i) mod cap) s)" if "i < length ws" for i
    using p that f [of "(k + Suc i) mod cap"] ne [OF that] assms(1) unfolding posted_def sh by simp
  have "slot_at pa j s' = slot_at pa j s" if "j < cap" "\<forall>i<length (w # ws). j \<noteq> (k + i) mod cap" for j
  proof -
    have "j \<noteq> k" using that(2) assms(1) by (metis add_0_right length_greater_0_conv list.distinct(1) mod_less)
    moreover have "\<forall>i<length ws. j \<noteq> (Suc k mod cap + i) mod cap" unfolding sh using that(2) by auto
    ultimately show ?thesis using p f that(1) unfolding posted_def by metis
  qed
  then show ?thesis unfolding posted_def using 0 S by (auto simp: less_Suc_eq_0_disj)
qed

lemma post_send_loop_ring:
  assumes "send_ring qp cap pa d" and "\<forall>w \<in> set ws. wq_trans_type w < 16" and "first < 16"
    and "iqp_snd_wqe_offset qp = of_nat (32 * k)" "k < cap" "hs + cnt = k" "length ws \<le> cap"
  shows "\<exists>hs' first' cnt' s' dbs.
    post_send_loop (hcrAddr d + 24) ws qp (of_nat (32 * hs)) first cnt (d, s) =
      Inr (qp\<lparr>iqp_snd_wqe_offset := of_nat (32 * ((k + length ws) mod cap))\<rparr>, of_nat (32 * hs'), first', cnt', (d, s')) \<and>
    hs' + cnt' = (k + length ws) mod cap \<and> first' < 16 \<and> pio2ccuDbFifo s' = pio2ccuDbFifo s @ dbs \<and>
    (\<forall>b \<in> set dbs. db_ok (iqp_num qp) cap b) \<and>
    concat (map db_slots dbs) @ [hs'..<(k + length ws) mod cap] = [hs..<k] @ map (\<lambda>i. (k + i) mod cap) [0..<length ws] \<and>
    posted qp cap pa ws k s s'"
  using assms
proof (induction ws arbitrary: qp k hs cnt first s)
  case Nil
  have "qp\<lparr>iqp_snd_wqe_offset := of_nat (32 * k)\<rparr> = qp" unfolding Nil.prems(4) [symmetric] by simp
  then show ?case using Nil.prems
    by (intro exI [of _ hs] exI [of _ first] exI [of _ cnt] exI [of _ s] exI [of _ "[]"]) (simp add: posted_def del: of_nat_mult of_nat_add)
next
  case (Cons w ws)
  let ?va = "ib_addr (iqp_snd_mr qp)" and ?q = "qp\<lparr>iqp_snd_wqe_offset := of_nat (32 * (Suc k mod cap))\<rparr>"
  have ring: "driver_ready d" "cap \<le> 128" "iqp_num qp < 2 ^ 24" "block ?va (32 * cap) pa d" "ib_length (iqp_snd_mr qp) = of_nat (32 * cap)"
    using Cons.prems(1) by (auto simp: send_ring_def)
  obtain m where m: "write_send_desc (?va + of_nat (32 * k)) qp w (d, s) = Inr (d, s\<lparr>hostMem := m\<rparr>)"
      "slot_at pa k (s\<lparr>hostMem := m\<rparr>) = tx_of qp w (slot_at pa k s)"
      "\<forall>j l. (j + l \<le> 32 * k \<or> 32 * k + 32 \<le> j) \<and> j + l \<le> 32 * cap \<longrightarrow>
        mem_read (pa + of_nat j) l (s\<lparr>hostMem := m\<rparr>) = mem_read (pa + of_nat j) l s"
    using write_send_desc_block [OF ring(4), of "32 * k" qp w s] Cons.prems(5) unfolding slot_at_def by auto
  let ?s = "s\<lparr>hostMem := m\<rparr>"
  have frame: "slot_at pa j ?s = slot_at pa j s" if "j < cap" "j \<noteq> k" for j
  proof -
    have "32 * j + 32 \<le> 32 * k \<or> 32 * k + 32 \<le> 32 * j" using that(2) by (cases "j < k") auto
    then show ?thesis using m(3) [rule_format, of "32 * j" 32] that(1) unfolding slot_at_def by simp
  qed
  have at: "?va + ucast (iqp_snd_wqe_offset qp) = ?va + of_nat (32 * k)"
    using Cons.prems(4,5) ring(2) by (simp add: unsigned_of_nat take_bit_nat_eq_self del: of_nat_mult)
  have full: "ucast (iqp_snd_wqe_offset qp + 32) + 32 > ib_length (iqp_snd_mr qp) \<longleftrightarrow> Suc k = cap"
    unfolding Cons.prems(4) ring(5) by (rule ring_full [OF Cons.prems(5) ring(2)])
  have len: "length ws < cap" "length ws \<le> cap" using Cons.prems(7) by auto
  have q: "send_ring ?q cap pa d" using Cons.prems(1) by simp
  have off: "iqp_snd_wqe_offset ?q = of_nat (32 * (Suc k mod cap))" "Suc k mod cap < cap" using Cons.prems(5) by auto
  have sh: "(Suc k mod cap + length ws) mod cap = (k + length (w # ws)) mod cap"
    "map (\<lambda>i. (Suc k mod cap + i) mod cap) [0..<length ws] = map (\<lambda>i. (k + Suc i) mod cap) [0..<length ws]"
    by (simp_all add: mod_add_left_eq)
  have up: "map (\<lambda>i. (k + i) mod cap) [0..<length (w # ws)] = k # map (\<lambda>i. (k + Suc i) mod cap) [0..<length ws]"
    using Cons.prems(5) by (simp add: upt_conv_Cons map_Suc_upt [symmetric] comp_def del: upt_Suc)
  show ?case
  proof (cases "Suc k = cap")
    case True
    let ?v = "doorbell_val (of_nat (32 * hs)) first (iqp_num qp) (cnt + 1)"
    let ?f = "case ws of [] \<Rightarrow> IBV_TYPE_NULL | w' # _ \<Rightarrow> wq_trans_type w'"
    let ?s2 = "sched_next DoorbellProcEvent (?s\<lparr>regs := (regs ?s)\<lparr>db := ?v\<rparr>, pio2ccuDbFifo := pio2ccuDbFifo ?s @ [doorbell_of ?v]\<rparr>)"
    have f: "?f < 16" using Cons.prems(2) by (auto split: list.split)
    have d: "db_ok (iqp_num qp) cap (doorbell_of ?v)" "db_slots (doorbell_of ?v) = [hs..<Suc k]"
      using db_val_ok [of first hs "cnt + 1" cap "iqp_num qp"] Cons.prems(3,6) ring(2,3) True by auto
    obtain hs' first' cnt' s' dbs where IH: "post_send_loop (hcrAddr d + 24) ws ?q (of_nat (32 * 0)) ?f 0 (d, ?s2) =
        Inr (?q\<lparr>iqp_snd_wqe_offset := of_nat (32 * ((k + length (w # ws)) mod cap))\<rparr>, of_nat (32 * hs'), first', cnt', (d, s'))"
      "hs' + cnt' = (k + length (w # ws)) mod cap" "first' < 16" "pio2ccuDbFifo s' = pio2ccuDbFifo ?s2 @ dbs"
      "\<forall>b \<in> set dbs. db_ok (iqp_num ?q) cap b"
      "concat (map db_slots dbs) @ [hs'..<(k + length (w # ws)) mod cap] = [0..<0] @ map (\<lambda>i. (k + Suc i) mod cap) [0..<length ws]"
      "posted ?q cap pa ws (Suc k mod cap) ?s2 s'"
      using Cons.IH [OF q _ f off, of 0 0 ?s2] Cons.prems(2) len(2) True unfolding sh by auto
    have "posted qp cap pa ws (Suc k mod cap) ?s s'" using IH(7) by (simp add: posted_def)
    then have "posted qp cap pa (w # ws) k s s'" using posted_Cons [OF Cons.prems(5) len(1) m(2) frame] by blast
    moreover have "concat (map db_slots (doorbell_of ?v # dbs)) @ [hs'..<(k + length (w # ws)) mod cap] =
        [hs..<k] @ map (\<lambda>i. (k + i) mod cap) [0..<length (w # ws)]"
      using IH(6) d(2) Cons.prems(6) unfolding up by simp
    moreover have "post_send_loop (hcrAddr d + 24) (w # ws) qp (of_nat (32 * hs)) first cnt (d, s) =
        Inr (qp\<lparr>iqp_snd_wqe_offset := of_nat (32 * ((k + length (w # ws)) mod cap))\<rparr>, of_nat (32 * hs'), first', cnt', (d, s'))"
      using IH(1) full True m(1) doorbell_store [OF ring(1)] by (simp add: at del: of_nat_mult of_nat_add)
    moreover have "pio2ccuDbFifo s' = pio2ccuDbFifo s @ (doorbell_of ?v # dbs)" using IH(4) by (simp add: sched_next_def sched_at_def)
    ultimately show ?thesis using IH(2,3,5) d(1)
      by (intro exI [of _ hs'] exI [of _ first'] exI [of _ cnt'] exI [of _ s'] exI [of _ "doorbell_of ?v # dbs"]) simp
  next
    case False
    then have sk: "Suc k mod cap = Suc k" using Cons.prems(5) by simp
    obtain hs' first' cnt' s' dbs where IH: "post_send_loop (hcrAddr d + 24) ws ?q (of_nat (32 * hs)) first (cnt + 1) (d, ?s) =
        Inr (?q\<lparr>iqp_snd_wqe_offset := of_nat (32 * ((k + length (w # ws)) mod cap))\<rparr>, of_nat (32 * hs'), first', cnt', (d, s'))"
      "hs' + cnt' = (k + length (w # ws)) mod cap" "first' < 16" "pio2ccuDbFifo s' = pio2ccuDbFifo ?s @ dbs"
      "\<forall>b \<in> set dbs. db_ok (iqp_num ?q) cap b"
      "concat (map db_slots dbs) @ [hs'..<(k + length (w # ws)) mod cap] = [hs..<Suc k] @ map (\<lambda>i. (k + Suc i) mod cap) [0..<length ws]"
      "posted ?q cap pa ws (Suc k mod cap) ?s s'"
      using Cons.IH [OF q _ Cons.prems(3) off, of hs "cnt + 1" ?s] Cons.prems(2,6) len(2) unfolding sh sk by auto
    have "posted qp cap pa ws (Suc k mod cap) ?s s'" using IH(7) by (simp add: posted_def)
    then have "posted qp cap pa (w # ws) k s s'" using posted_Cons [OF Cons.prems(5) len(1) m(2) frame] by blast
    moreover have "concat (map db_slots dbs) @ [hs'..<(k + length (w # ws)) mod cap] =
        [hs..<k] @ map (\<lambda>i. (k + i) mod cap) [0..<length (w # ws)]"
      using IH(6) Cons.prems(6) unfolding up by simp
    moreover have eq: "iqp_snd_wqe_offset qp + 32 = of_nat (32 * (Suc k mod cap))" unfolding Cons.prems(4) sk by simp
    then have "post_send_loop (hcrAddr d + 24) (w # ws) qp (of_nat (32 * hs)) first cnt (d, s) =
        Inr (qp\<lparr>iqp_snd_wqe_offset := of_nat (32 * ((k + length (w # ws)) mod cap))\<rparr>, of_nat (32 * hs'), first', cnt', (d, s'))"
      using IH(1) full False m(1) by (simp add: at eq Let_def del: of_nat_mult of_nat_add)
    ultimately show ?thesis using IH(2-5)
      by (intro exI [of _ hs'] exI [of _ first'] exI [of _ cnt'] exI [of _ s'] exI [of _ dbs]) simp
  qed
qed


section \<open>Properties\<close>

text \<open>
  C14. What the library posts is what the device is told to fetch: the descriptors of a list of work
  requests that fits the send queue are in consecutive places of the ring, around its end, nothing
  else of the ring changes, and the doorbells name exactly these places, in order, each a run that
  does not cross the end of the ring.
\<close>

theorem post_send_ring:
  assumes "send_ring qp cap pa d" and "ctx_doorbell ctx = hcrAddr d + 24"
    and "iqp_snd_wqe_offset qp = of_nat (32 * k)" "k < cap"
    and "ws \<noteq> []" "length ws \<le> cap" "\<forall>w \<in> set ws. wq_trans_type w < 16"
  shows "\<exists>s' dbs. ibv_post_send ctx ws qp (of_nat (length ws)) (d, s) =
      Inr (qp\<lparr>iqp_snd_wqe_offset := of_nat (32 * ((k + length ws) mod cap))\<rparr>, (d, s')) \<and>
    pio2ccuDbFifo s' = pio2ccuDbFifo s @ dbs \<and> (\<forall>b \<in> set dbs. db_ok (iqp_num qp) cap b) \<and>
    concat (map db_slots dbs) = map (\<lambda>i. (k + i) mod cap) [0..<length ws] \<and> posted qp cap pa ws k s s'"
proof -
  have ring: "driver_ready d" "cap \<le> 128" "iqp_num qp < 2 ^ 24" using assms(1) by (auto simp: send_ring_def)
  have f: "wq_trans_type (hd ws) < 16" using assms(5,7) by auto
  have n: "unat (of_nat (length ws) :: u8) = length ws" using assms(6) ring(2) by (simp add: unat_of_nat)
  obtain hs' first' cnt' s' dbs where L:
      "post_send_loop (hcrAddr d + 24) ws qp (of_nat (32 * k)) (wq_trans_type (hd ws)) 0 (d, s) =
        Inr (qp\<lparr>iqp_snd_wqe_offset := of_nat (32 * ((k + length ws) mod cap))\<rparr>, of_nat (32 * hs'), first', cnt', (d, s'))"
      "hs' + cnt' = (k + length ws) mod cap" "first' < 16" "pio2ccuDbFifo s' = pio2ccuDbFifo s @ dbs"
      "\<forall>b \<in> set dbs. db_ok (iqp_num qp) cap b"
      "concat (map db_slots dbs) @ [hs'..<(k + length ws) mod cap] = map (\<lambda>i. (k + i) mod cap) [0..<length ws]"
      "posted qp cap pa ws k s s'"
    using post_send_loop_ring [OF assms(1,7) f assms(3,4), of k 0 s] assms(6) by auto
  have run: "ibv_post_send ctx ws qp (of_nat (length ws)) (d, s) =
      (if cnt' = 0 then Inr (qp\<lparr>iqp_snd_wqe_offset := of_nat (32 * ((k + length ws) mod cap))\<rparr>, (d, s'))
       else ebind (writeBlob (hcrAddr d + 24) (le_enc (doorbell_val (of_nat (32 * hs')) first' (iqp_num qp) cnt')) (d, s'))
         (\<lambda>h. Inr (qp\<lparr>iqp_snd_wqe_offset := of_nat (32 * ((k + length ws) mod cap))\<rparr>, h)))"
    using L(1) assms(5) n unfolding ibv_post_send_def assms(2,3) by (simp del: of_nat_mult)
  show ?thesis
  proof (cases "cnt' = 0")
    case True
    then show ?thesis using run L by auto
  next
    case False
    let ?v = "doorbell_val (of_nat (32 * hs')) first' (iqp_num qp) cnt'"
    let ?s = "sched_next DoorbellProcEvent (s'\<lparr>regs := (regs s')\<lparr>db := ?v\<rparr>, pio2ccuDbFifo := pio2ccuDbFifo s' @ [doorbell_of ?v]\<rparr>)"
    have le: "hs' + cnt' \<le> cap" using L(2) assms(4) by (metis less_imp_le_nat less_nat_zero_code mod_less_divisor neq0_conv)
    have "db_ok (iqp_num qp) cap (doorbell_of ?v)" "db_slots (doorbell_of ?v) = [hs'..<(k + length ws) mod cap]"
      using db_val_ok [OF L(3) le ring(2) False ring(3)] L(2) by simp_all
    moreover have "posted qp cap pa ws k s ?s" using L(7) by (simp add: posted_def)
    moreover have "pio2ccuDbFifo ?s = pio2ccuDbFifo s @ dbs @ [doorbell_of ?v]" using L(4) by (simp add: sched_next_def sched_at_def)
    ultimately show ?thesis
      using run False L(5,6) doorbell_store [OF ring(1)] by (intro exI [of _ ?s] exI [of _ "dbs @ [doorbell_of ?v]"]) simp
  qed
qed

text \<open>A send queue of four places in the pages of the mailbox; three requests go around its end.\<close>

definition ex_qp :: ibv_qp where
  "ex_qp = zero_qp\<lparr>iqp_num := 5, iqp_snd_wqe_offset := 64,
     iqp_snd_mr := zero_mr\<lparr>ib_addr := mailbox_vaddr ex_driver, ib_length := 128\<rparr>\<rparr>"

definition ex_wqe :: "u8 \<Rightarrow> ibv_wqe" where
  "ex_wqe t = \<lparr>wq_trans_type = t, wq_flag = 0, wq_mr = zero_mr, wq_offset = 0, wq_length = 64,
     wq_w0 = 1, wq_w1 = 2, wq_w2 = 3, wq_w3 = 4\<rparr>"

lemma ex_driver_mailbox: "mailbox_paddr ex_driver = 0x100000"
proof -
  have kept: "mailbox_paddr y = mailbox_paddr x \<and> pagePtr y = pagePtr x" if "pt_map va pa n x = Inr y" for va pa n x y
    using pt_map_frame [OF that] by (cases y) simp
  obtain a d1 where d: "drv_mmap 0 0x1000 ex_driver0 = Inr (a, d1)" "initMailbox d1 = Inr ex_driver" using ex_driver_runs by blast
  have "pagePtr d1 = pagePtr ex_driver0" using d(1) by (auto simp: drv_mmap_def Let_def ebind_Inr dest!: kept)
  then show ?thesis using d(2) by (auto simp: initMailbox_def allocPhysPages_def Let_def ex_driver0_def dest!: kept)
qed

lemma ex_block: "n \<le> 0x20000 \<Longrightarrow> block (mailbox_vaddr ex_driver) n 0x100000 ex_driver"
  using ex_driver_ready
  by (auto simp: block_def driver_ready_def ex_driver_mailbox elim: maps_to_mono)

definition ex_ctx :: ibv_context where
  "ex_ctx = \<lparr>ctx_lid = 0, ctx_doorbell = hcrAddr ex_driver + 24, ctx_sync = 0, cm_mr = zero_mr,
     cm_cq = \<lparr>icq_num = 0, icq_mr = zero_mr, icq_offset = 0, icq_cpl_cnt = 0\<rparr>, cm_qp = zero_qp, cm_snd_off = 0,
     cm_rcv_posted_off = 0, cm_rcv_acked_off = 0, cm_rcv_num = 0\<rparr>"

lemma post_send_ring_witness:
  "\<exists>qp' s' dbs. ibv_post_send ex_ctx [ex_wqe 2, ex_wqe 1, ex_wqe 3] ex_qp 3 (ex_driver, dev0) = Inr (qp', (ex_driver, s')) \<and>
    iqp_snd_wqe_offset qp' = 32 \<and> concat (map db_slots dbs) = [2, 3, 0] \<and> pio2ccuDbFifo s' = pio2ccuDbFifo dev0 @ dbs"
proof -
  have r: "send_ring ex_qp 4 0x100000 ex_driver" using ex_block [of 128] ex_driver_ready by (simp add: send_ring_def ex_qp_def)
  have "ctx_doorbell ex_ctx = hcrAddr ex_driver + 24" by (simp add: ex_ctx_def)
  moreover have "iqp_snd_wqe_offset ex_qp = of_nat (32 * 2)" by (simp add: ex_qp_def)
  moreover have "\<forall>w \<in> set [ex_wqe 2, ex_wqe 1, ex_wqe 3]. wq_trans_type w < 16" by (simp add: ex_wqe_def)
  ultimately show ?thesis
    using post_send_ring [OF r, where ctx = ex_ctx and k = 2 and ws = "[ex_wqe 2, ex_wqe 1, ex_wqe 3]" and s = dev0] by (auto simp: upt_rec)
qed

end
