(* ===== verification/Poll.thy ===== *)
theory Poll
  imports SendRing EngineRx
begin

text \<open>
  Completions: what the device writes into a completion queue is what the library polls, in order and
  once each, and both sides go around the ring in the same steps.
\<close>

section \<open>One completion\<close>

definition cpl_of :: "CqDesc \<Rightarrow> cpl_desc" where
  "cpl_of c = \<lparr>cpl_srv_type = cq_srvType c, cpl_trans_type = cq_transType c, cpl_byte_cnt = cq_byteCnt c,
     cpl_qp_num = cq_qpn c, cpl_cq_num = cq_cqn c\<rparr>"

lemma dec_cpl_cqd: "dec_cpl bs = cpl_of (dec_CqDesc bs)"
  unfolding dec_cpl_def dec_CqDesc_def cpl_of_def by (simp only: CqDesc.select_convs)

lemma dec_cpl_enc: "dec_cpl (enc_CqDesc c) = cpl_of c"
  unfolding dec_cpl_cqd by (simp only: cqd.dec_enc_all)

lemma length_enc_CqDesc [simp]: "length (enc_CqDesc c) = 16"
  by (rule cqd.len_enc) simp

definition cqe_at :: "u64 \<Rightarrow> nat \<Rightarrow> rnic \<Rightarrow> u8 list" where
  "cqe_at pa j s = mem_read (pa + of_nat (16 * j)) 16 s"

definition cq_ring :: "ibv_cq \<Rightarrow> nat \<Rightarrow> u64 \<Rightarrow> HanGuDriver \<Rightarrow> bool" where
  "cq_ring cq cap pa d \<longleftrightarrow> 0 < cap \<and> cap \<le> 2 ^ 20 \<and> block (ib_addr (icq_mr cq)) (16 * cap) pa d \<and>
     ib_length (icq_mr cq) = of_nat (16 * cap)"

lemma cq_full:
  assumes "k < cap" "cap \<le> 2 ^ 20"
  shows "ucast (of_nat (16 * k) + 16 :: u32) + 16 > (of_nat (16 * cap) :: u64) \<longleftrightarrow> Suc k = cap"
proof -
  have "unat (ucast (of_nat (16 * k) + 16 :: u32) + 16 :: u64) = 16 * k + 32"
    using assms by (simp add: unat_word_ariths unsigned_ucast_eq unsigned_of_nat take_bit_nat_eq_self del: of_nat_mult)
  moreover have "unat (of_nat (16 * cap) :: u64) = 16 * cap" using assms by (simp add: unat_of_nat del: of_nat_mult)
  ultimately show ?thesis using assms(1) by (auto simp: word_less_nat_alt simp del: of_nat_mult)
qed

text \<open>One completion is taken and its place marked free.\<close>

lemma byte_cnt_cleared:
  assumes "length a = 4" "length b = 8"
  shows "cpl_byte_cnt (dec_cpl (a @ le_enc (0 :: u32) @ b)) = 0"
proof -
  have "slice 4 4 (a @ le_enc (0 :: u32) @ b) = le_enc (0 :: u32)" using assms by (simp add: slice_def)
  moreover have "le_dec (le_enc (0 :: u32)) = (0 :: u32)" by simp
  ultimately show ?thesis unfolding dec_cpl_def by (simp only: cpl_desc.select_convs)
qed

lemma cqe_take:
  assumes "block va (16 * cap) pa d" "k < cap"
  shows "\<exists>s'. writeBlob (va + of_nat (16 * k) + 4) (le_enc (0 :: u32)) (d, s) = Inr (d, s') \<and>
    cpl_byte_cnt (dec_cpl (cqe_at pa k s')) = 0 \<and> (\<forall>j<cap. j \<noteq> k \<longrightarrow> cqe_at pa j s' = cqe_at pa j s)"
proof -
  let ?s = "mem_write (pa + of_nat (16 * k + 4)) (le_enc (0 :: u32)) s"
  have n: "16 * cap < 2 ^ 32" using assms(1) by (simp add: block_def)
  have w: "writeBlob (va + of_nat (16 * k + 4)) (le_enc (0 :: u32)) (d, s) = Inr (d, ?s)"
    by (rule block_store [OF assms(1)]) (use assms(2) in auto)
  have "cqe_at pa k ?s = mem_read (pa + of_nat (16 * k)) 4 ?s @ mem_read (pa + of_nat (16 * k + 4)) 4 ?s @ mem_read (pa + of_nat (16 * k + 8)) 8 ?s"
    using mem_read_add [of "pa + of_nat (16 * k)" 4 12 ?s] mem_read_add [of "pa + of_nat (16 * k + 4)" 4 8 ?s]
    by (simp add: cqe_at_def add.assoc)
  moreover have "mem_read (pa + of_nat (16 * k + 4)) 4 ?s = le_enc (0 :: u32)" by (rule mem_read_same) simp_all
  ultimately have c: "cpl_byte_cnt (dec_cpl (cqe_at pa k ?s)) = 0" by (simp only: byte_cnt_cleared length_mem_read)
  have o: "cqe_at pa j ?s = cqe_at pa j s" if "j < cap" "j \<noteq> k" for j
    unfolding cqe_at_def by (rule mem_read_off) (use that assms(2) n in \<open>auto simp: neq_iff\<close>)
  have "va + of_nat (16 * k) + 4 = va + of_nat (16 * k + 4)" by (simp add: add.assoc)
  then show ?thesis using w c o by (simp only:) blast
qed

section \<open>Polling\<close>

text \<open>The completions \<open>cs\<close> are in the queue from place \<open>k\<close> on, and the place behind them is free.\<close>

definition completed :: "u64 \<Rightarrow> nat \<Rightarrow> nat \<Rightarrow> CqDesc list \<Rightarrow> rnic \<Rightarrow> bool" where
  "completed pa cap k cs s \<longleftrightarrow>
     (\<forall>i<length cs. cqe_at pa ((k + i) mod cap) s = enc_CqDesc (cs ! i) \<and> cq_byteCnt (cs ! i) \<noteq> 0) \<and>
     cpl_byte_cnt (dec_cpl (cqe_at pa ((k + length cs) mod cap) s)) = 0"

text \<open>The places from \<open>k\<close> on have been freed and no other has changed.\<close>

definition consumed :: "u64 \<Rightarrow> nat \<Rightarrow> nat \<Rightarrow> nat \<Rightarrow> rnic \<Rightarrow> rnic \<Rightarrow> bool" where
  "consumed pa cap k n s s' \<longleftrightarrow>
     (\<forall>i<n. cpl_byte_cnt (dec_cpl (cqe_at pa ((k + i) mod cap) s')) = 0) \<and>
     (\<forall>j<cap. (\<forall>i<n. j \<noteq> (k + i) mod cap) \<longrightarrow> cqe_at pa j s' = cqe_at pa j s)"

lemma mod_next: "((k + 1) mod cap + i) mod cap = (k + Suc i) mod (cap :: nat)"
  by (simp add: mod_add_left_eq)

lemma completed_step:
  assumes "completed pa cap k (c # cs) s" "k < cap" "Suc (length cs) < cap" "\<forall>j<cap. j \<noteq> k \<longrightarrow> cqe_at pa j s1 = cqe_at pa j s"
  shows "completed pa cap ((k + 1) mod cap) cs s1"
proof -
  have eq: "cqe_at pa ((k + Suc i) mod cap) s1 = cqe_at pa ((k + Suc i) mod cap) s" if "i \<le> length cs" for i
    using assms(2-4) that mod_other [of k cap "Suc i"] by simp
  have "cqe_at pa ((k + Suc i) mod cap) s = enc_CqDesc (cs ! i) \<and> cq_byteCnt (cs ! i) \<noteq> 0" if "i < length cs" for i
    using assms(1) that unfolding completed_def by (auto dest!: spec [of _ "Suc i"])
  then show ?thesis using assms(1) eq unfolding completed_def mod_next by simp
qed

lemma consumed_step:
  assumes "consumed pa cap ((k + 1) mod cap) n s1 s'" "k < cap" "Suc n < cap"
    and "cpl_byte_cnt (dec_cpl (cqe_at pa k s1)) = 0" "\<forall>j<cap. j \<noteq> k \<longrightarrow> cqe_at pa j s1 = cqe_at pa j s"
  shows "consumed pa cap k (Suc n) s s'"
proof -
  have a: "\<forall>i<n. cpl_byte_cnt (dec_cpl (cqe_at pa ((k + Suc i) mod cap) s')) = 0"
    and b: "\<And>j. j < cap \<Longrightarrow> \<forall>i<n. j \<noteq> (k + Suc i) mod cap \<Longrightarrow> cqe_at pa j s' = cqe_at pa j s1"
    using assms(1) unfolding consumed_def mod_next by auto
  have "\<forall>i<n. k \<noteq> (k + Suc i) mod cap" using mod_other [of k cap] assms(2,3) by (metis Suc_lessD less_trans_Suc zero_less_Suc not_less_eq)
  then have k: "cqe_at pa k s' = cqe_at pa k s1" using b [OF assms(2)] by blast
  have "cpl_byte_cnt (dec_cpl (cqe_at pa ((k + i) mod cap) s')) = 0" if "i < Suc n" for i
    using that a k assms(2,4) by (cases i) auto
  moreover have "cqe_at pa j s' = cqe_at pa j s" if "j < cap" "\<forall>i<Suc n. j \<noteq> (k + i) mod cap" for j
  proof -
    have "j \<noteq> k" using that(2) assms(2) by (auto dest!: spec [of _ 0])
    moreover have "\<forall>i<n. j \<noteq> (k + Suc i) mod cap" using that(2) by auto
    ultimately show ?thesis using b [OF that(1)] assms(5) that(1) by simp
  qed
  ultimately show ?thesis unfolding consumed_def by blast
qed

lemma ring_off: "k < 2 ^ 20 \<Longrightarrow> ucast (of_nat (16 * k) :: u32) = (of_nat (16 * k) :: u64)"
  by (rule word_unat_eq_iff [THEN iffD2])
    (simp add: unsigned_ucast_eq unsigned_of_nat take_bit_nat_eq_self del: of_nat_mult)

lemma cqe_load:
  assumes "cq_ring cq cap pa d" "icq_offset cq = of_nat (16 * k)" "k < cap"
  shows "load (ib_addr (icq_mr cq) + ucast (icq_offset cq)) 16 (d, s) = Inr (cqe_at pa k s)"
    "ib_addr (icq_mr cq) + ucast (icq_offset cq) = ib_addr (icq_mr cq) + of_nat (16 * k)"
proof -
  show e: "ib_addr (icq_mr cq) + ucast (icq_offset cq) = ib_addr (icq_mr cq) + of_nat (16 * k)"
    using ring_off [of k] assms by (simp add: cq_ring_def)
  show "load (ib_addr (icq_mr cq) + ucast (icq_offset cq)) 16 (d, s) = Inr (cqe_at pa k s)"
    using assms block_load [of "ib_addr (icq_mr cq)" "16 * cap" pa d "16 * k" 16 s] unfolding e
    by (simp add: cq_ring_def cqe_at_def del: of_nat_mult)
qed

lemma poll_step:
  assumes "cq_ring cq cap pa d" "icq_offset cq = of_nat (16 * k)" "k < cap"
    and "cqe_at pa k s = enc_CqDesc c" "cq_byteCnt c \<noteq> 0"
  shows "\<exists>s1. ibv_poll_cpl (Suc n) cq (d, s) = ebind (ibv_poll_cpl n
        (cq\<lparr>icq_offset := of_nat (16 * ((k + 1) mod cap)), icq_cpl_cnt := icq_cpl_cnt cq + 1\<rparr>) (d, s1)) (\<lambda>r. Inr (cpl_of c # fst r, snd r)) \<and>
    cpl_byte_cnt (dec_cpl (cqe_at pa k s1)) = 0 \<and> (\<forall>j<cap. j \<noteq> k \<longrightarrow> cqe_at pa j s1 = cqe_at pa j s)"
proof -
  note ld = cqe_load [OF assms(1-3)]
  obtain s1 where s1: "writeBlob (ib_addr (icq_mr cq) + of_nat (16 * k) + 4) (le_enc (0 :: u32)) (d, s) = Inr (d, s1)"
      "cpl_byte_cnt (dec_cpl (cqe_at pa k s1)) = 0" "\<forall>j<cap. j \<noteq> k \<longrightarrow> cqe_at pa j s1 = cqe_at pa j s"
    using cqe_take [of "ib_addr (icq_mr cq)" cap pa d k s] assms(1,3) by (auto simp: cq_ring_def)
  have ring: "cap \<le> 2 ^ 20" "ib_length (icq_mr cq) = of_nat (16 * cap)" using assms(1) by (auto simp: cq_ring_def)
  have "cq\<lparr>icq_offset := of_nat (16 * ((k + 1) mod cap)), icq_cpl_cnt := icq_cpl_cnt cq + 1\<rparr> =
      (let cq1 = cq\<lparr>icq_cpl_cnt := icq_cpl_cnt cq + 1, icq_offset := icq_offset cq + 16\<rparr>
       in if ucast (icq_offset cq1) + 16 > ib_length (icq_mr cq) then cq1\<lparr>icq_offset := 0\<rparr> else cq1)"
    using cq_full [OF assms(3) ring(1)] assms(2,3) unfolding Let_def ring(2)
    by (cases "Suc k = cap") (simp_all add: algebra_simps)
  moreover have "cpl_byte_cnt (dec_cpl (cqe_at pa k s)) \<noteq> 0" "dec_cpl (cqe_at pa k s) = cpl_of c"
    using assms(5) unfolding assms(4) dec_cpl_enc by (simp_all add: cpl_of_def)
  ultimately show ?thesis using s1 by (intro exI [of _ s1]) (simp add: ld(2) ld(1) [unfolded ld(2)] Let_def del: of_nat_mult)
qed

lemma poll_ring:
  assumes "cq_ring cq cap pa d" and "icq_offset cq = of_nat (16 * k)" "k < cap"
    and "length cs < cap" "length cs \<le> max_num" and "completed pa cap k cs s"
  shows "\<exists>s'. ibv_poll_cpl max_num cq (d, s) = Inr (map cpl_of cs,
      cq\<lparr>icq_offset := of_nat (16 * ((k + length cs) mod cap)), icq_cpl_cnt := icq_cpl_cnt cq + of_nat (length cs)\<rparr>, (d, s')) \<and>
    consumed pa cap k (length cs) s s'"
  using assms
proof (induction cs arbitrary: cq k max_num s)
  case Nil
  have "cpl_byte_cnt (dec_cpl (cqe_at pa k s)) = 0" using Nil.prems by (simp add: completed_def)
  moreover have "cq\<lparr>icq_offset := of_nat (16 * k), icq_cpl_cnt := icq_cpl_cnt cq\<rparr> = cq" using Nil.prems(2) by simp
  ultimately show ?case using Nil.prems(3) cqe_load(1) [OF Nil.prems(1-3)]
    by (cases max_num) (auto simp: consumed_def Let_def simp del: of_nat_mult)
next
  case (Cons c cs)
  let ?cq = "cq\<lparr>icq_offset := of_nat (16 * ((k + 1) mod cap)), icq_cpl_cnt := icq_cpl_cnt cq + 1\<rparr>"
  have c: "cqe_at pa k s = enc_CqDesc c" "cq_byteCnt c \<noteq> 0"
    using Cons.prems(3,6) by (auto simp: completed_def dest!: spec [of _ 0])
  obtain n where n: "max_num = Suc n" "length cs \<le> n" using Cons.prems(5) by (cases max_num) auto
  obtain s1 where s1: "ibv_poll_cpl max_num cq (d, s) = ebind (ibv_poll_cpl n ?cq (d, s1)) (\<lambda>r. Inr (cpl_of c # fst r, snd r))"
      "cpl_byte_cnt (dec_cpl (cqe_at pa k s1)) = 0" "\<forall>j<cap. j \<noteq> k \<longrightarrow> cqe_at pa j s1 = cqe_at pa j s"
    using poll_step [OF Cons.prems(1-3) c] unfolding n(1) by blast
  have l: "Suc (length cs) < cap" using Cons.prems(4) by simp
  obtain s' where s': "ibv_poll_cpl n ?cq (d, s1) = Inr (map cpl_of cs,
      ?cq\<lparr>icq_offset := of_nat (16 * (((k + 1) mod cap + length cs) mod cap)), icq_cpl_cnt := icq_cpl_cnt ?cq + of_nat (length cs)\<rparr>, (d, s'))"
      "consumed pa cap ((k + 1) mod cap) (length cs) s1 s'"
    using Cons.IH [of ?cq "(k + 1) mod cap" n s1] Cons.prems(1,3) l n(2) completed_step [OF Cons.prems(6,3) l s1(3)]
    by (auto simp: cq_ring_def)
  have "consumed pa cap k (Suc (length cs)) s s'" by (rule consumed_step [OF s'(2) Cons.prems(3) l s1(2,3)])
  then show ?case using s1(1) s'(1) unfolding mod_next by (intro exI [of _ s']) (simp add: algebra_simps)
qed

section \<open>The device's side\<close>

text \<open>
  What becomes of a completion: the request that \<open>post_cqe\<close> makes, translated to the page the
  memory region maps it to, and carried out by the DMA engine.
\<close>

definition cqe_dma :: "u64 \<Rightarrow> CqcResc \<Rightarrow> CqDesc \<Rightarrow> rnic \<Rightarrow> rnic res" where
  "cqe_dma pa cqc c s =
     (let s1 = post_cqe TPT_WCHNL_TX_CQUE cqc c s;
          r = last (cqWreqFifo s1);
          s2 = dmaReqProcess (pa + ucast (mr_offset r AND 0xFFF)) r s1;
          q = last (dmaReqs s2)
      in dmaWrite (dr_addr q) (dr_size q) (dr_data q) s2)"

text \<open>Each completion is given the context of its queue, which is then moved on.\<close>

fun complete_all :: "u64 \<Rightarrow> CqDesc list \<Rightarrow> CqcResc \<Rightarrow> rnic \<Rightarrow> (CqcResc \<times> rnic) res" where
  "complete_all pa [] cqc s = Inr (cqc, s)"
| "complete_all pa (c # cs) cqc s = ebind (cqe_dma pa cqc c s) (complete_all pa cs (cqcReadUpdate cqc))"

lemma sched_next_dma [simp]:
  "cqWreqFifo (sched_next e s) = cqWreqFifo s" "dmaReqs (sched_next e s) = dmaReqs s" "heap (sched_next e s) = heap s"
  "pciToDma (sched_next e s) = pciToDma s" "hostMem (sched_next e s) = hostMem s"
  by (simp_all add: sched_next_def sched_at_def)

lemma cqe_dma_writes:
  assumes "\<forall>a. pciToDma s a = a"
  shows "\<exists>s'. cqe_dma pa cqc c s = Inr s' \<and> pciToDma s' = pciToDma s \<and>
    hostMem s' = hostMem (mem_write (pa + ucast (cqc_offset cqc AND 0xFFF)) (enc_CqDesc c) s)"
  using assms
  by (simp add: cqe_dma_def post_cqe_def dmaReqProcess_def mr_dmaWrite_def add_dmaReq_def new_DmaReq_def new_MrReqRsp_def
      dmaWrite_def deref_def alloc_def obj_bytes_def Let_def mem_write_def slice_def cong: if_cong)

lemma cqe_at_mem: "hostMem s = hostMem t \<Longrightarrow> cqe_at pa j s = cqe_at pa j t"
  by (simp add: cqe_at_def mem_read_def)

lemma cqe_dma_at:
  assumes "\<forall>a. pciToDma s a = a" "cqc_offset cqc = of_nat (16 * k)" "k < 256"
  shows "\<exists>s'. cqe_dma pa cqc c s = Inr s' \<and> pciToDma s' = pciToDma s \<and> cqe_at pa k s' = enc_CqDesc c \<and>
    (\<forall>j<256. j \<noteq> k \<longrightarrow> cqe_at pa j s' = cqe_at pa j s)"
proof -
  have "(0xFFF :: u32) = mask 12" by (simp add: mask_eq_exp_minus_1)
  then have "(of_nat (16 * k) AND 0xFFF :: u32) = take_bit 12 (of_nat (16 * k))" by (simp only: take_bit_eq_mask)
  also have "\<dots> = of_nat (16 * k)"
    using assms(3) by (simp add: word_unat_eq_iff unsigned_take_bit_eq unsigned_of_nat take_bit_nat_eq_self del: of_nat_mult)
  finally have o: "ucast (cqc_offset cqc AND 0xFFF) = (of_nat (16 * k) :: u64)"
    using ring_off [of k] assms(2,3) by simp
  obtain s' where s': "cqe_dma pa cqc c s = Inr s'" "pciToDma s' = pciToDma s"
      "hostMem s' = hostMem (mem_write (pa + of_nat (16 * k)) (enc_CqDesc c) s)"
    using cqe_dma_writes [OF assms(1), of pa cqc c] unfolding o by blast
  have "cqe_at pa k s' = enc_CqDesc c" unfolding cqe_at_mem [OF s'(3)] unfolding cqe_at_def by (rule mem_read_same) simp_all
  moreover have "cqe_at pa j s' = cqe_at pa j s" if "j < 256" "j \<noteq> k" for j
    unfolding cqe_at_mem [OF s'(3)] unfolding cqe_at_def by (rule mem_read_off) (use that assms(3) in \<open>auto simp: neq_iff\<close>)
  ultimately show ?thesis using s'(1,2) by blast
qed

lemma cqcReadUpdate_ring:
  assumes "cqc_sizeLog cqc = 12" "cqc_offset cqc = of_nat (16 * k)" "k < 256"
  shows "cqcReadUpdate cqc = cqc\<lparr>cqc_offset := of_nat (16 * ((k + 1) mod 256))\<rparr>"
proof -
  have sz: "scast (push_bit (unat (cqc_sizeLog cqc)) (1 :: u32)) = (of_nat (16 * 256) :: u64)"
    by (simp add: assms(1))
  have f: "(of_nat (16 * 256) :: u64) < ucast (cqc_offset cqc + 16) + 16 \<longleftrightarrow> Suc k = 256"
    using cq_full [OF assms(3)] unfolding assms(2) by simp
  have "cqc_offset cqc + 16 = of_nat (16 * Suc k)" using assms(2) by simp
  then show ?thesis
    using f sz assms(3) by (cases "Suc k = 256") (simp_all add: cqcReadUpdate_def del: of_nat_mult of_nat_Suc)
qed

lemma complete_all_ring:
  assumes "\<forall>a. pciToDma s a = a" "cqc_sizeLog cqc = 12" "cqc_offset cqc = of_nat (16 * k)" "k < 256" "length cs \<le> 256"
  shows "\<exists>s'. complete_all pa cs cqc s = Inr (cqc\<lparr>cqc_offset := of_nat (16 * ((k + length cs) mod 256))\<rparr>, s') \<and>
    (\<forall>i<length cs. cqe_at pa ((k + i) mod 256) s' = enc_CqDesc (cs ! i)) \<and>
    (\<forall>j<256. (\<forall>i<length cs. j \<noteq> (k + i) mod 256) \<longrightarrow> cqe_at pa j s' = cqe_at pa j s)"
  using assms
proof (induction cs arbitrary: cqc k s)
  case Nil
  then have "cqc\<lparr>cqc_offset := of_nat (16 * k)\<rparr> = cqc" by simp
  then show ?case using Nil.prems(4) by simp
next
  case (Cons c cs)
  let ?cqc = "cqc\<lparr>cqc_offset := of_nat (16 * ((k + 1) mod 256))\<rparr>"
  obtain s1 where s1: "cqe_dma pa cqc c s = Inr s1" "pciToDma s1 = pciToDma s" "cqe_at pa k s1 = enc_CqDesc c"
      "\<forall>j<256. j \<noteq> k \<longrightarrow> cqe_at pa j s1 = cqe_at pa j s"
    using cqe_dma_at [OF Cons.prems(1,3,4)] by blast
  obtain s' where s': "complete_all pa cs ?cqc s1 = Inr (?cqc\<lparr>cqc_offset := of_nat (16 * (((k + 1) mod 256 + length cs) mod 256))\<rparr>, s')"
      "\<forall>i<length cs. cqe_at pa (((k + 1) mod 256 + i) mod 256) s' = enc_CqDesc (cs ! i)"
      "\<forall>j<256. (\<forall>i<length cs. j \<noteq> ((k + 1) mod 256 + i) mod 256) \<longrightarrow> cqe_at pa j s' = cqe_at pa j s1"
    using Cons.IH [of s1 ?cqc "(k + 1) mod 256"] Cons.prems(1,2,5) s1(2) by auto
  note at = s'(2,3) [unfolded mod_next]
  have "k \<noteq> (k + Suc i) mod 256" if "i < length cs" for i
    using mod_other [of k 256 "Suc i"] Cons.prems(4,5) that by simp
  then have k: "cqe_at pa k s' = enc_CqDesc c" using at(2) Cons.prems(4) s1(3) by simp
  have "cqe_at pa ((k + i) mod 256) s' = enc_CqDesc ((c # cs) ! i)" if "i < length (c # cs)" for i
    using that k at(1) Cons.prems(4) by (cases i) auto
  moreover have "cqe_at pa j s' = cqe_at pa j s" if "j < 256" "\<forall>i<length (c # cs). j \<noteq> (k + i) mod 256" for j
  proof -
    have "j \<noteq> k" using that(2) Cons.prems(4) by (auto dest!: spec [of _ 0])
    moreover have "\<forall>i<length cs. j \<noteq> (k + Suc i) mod 256" using that(2) by auto
    ultimately show ?thesis using at(2) s1(4) that(1) by simp
  qed
  moreover have "complete_all pa (c # cs) cqc s = Inr (cqc\<lparr>cqc_offset := of_nat (16 * ((k + length (c # cs)) mod 256))\<rparr>, s')"
    using s1(1) s'(1) unfolding mod_next by (simp add: cqcReadUpdate_ring [OF Cons.prems(2-4)])
  ultimately show ?case by blast
qed

section \<open>Properties\<close>

text \<open>All places of a queue of one page are free.\<close>

definition cq_empty :: "u64 \<Rightarrow> rnic \<Rightarrow> bool" where
  "cq_empty pa s \<longleftrightarrow> (\<forall>j<256. cpl_byte_cnt (dec_cpl (cqe_at pa j s)) = 0)"

text \<open>
  C15. Completions arrive: fewer completions than the queue has places, written by the device one after
  the other wherever in the ring it is, are what the next poll of the library returns, each once and
  in order; afterwards both are at the same place again and the queue is empty.
\<close>

theorem completion_roundtrip:
  assumes "cq_ring cq 256 pa d" and "cqc_sizeLog cqc = 12" and "icq_offset cq = cqc_offset cqc"
    and "cqc_offset cqc = of_nat (16 * k)" "k < 256" and "\<forall>a. pciToDma s a = a" and "cq_empty pa s"
    and "\<forall>c \<in> set cs. cq_byteCnt c \<noteq> 0" and "length cs < 256" "length cs \<le> max_num"
  shows "\<exists>cqc' s1 cq' s2. complete_all pa cs cqc s = Inr (cqc', s1) \<and>
    ibv_poll_cpl max_num cq (d, s1) = Inr (map cpl_of cs, cq', (d, s2)) \<and>
    icq_offset cq' = cqc_offset cqc' \<and> icq_cpl_cnt cq' = icq_cpl_cnt cq + of_nat (length cs) \<and> cq_empty pa s2"
proof -
  obtain s1 where s1: "complete_all pa cs cqc s = Inr (cqc\<lparr>cqc_offset := of_nat (16 * ((k + length cs) mod 256))\<rparr>, s1)"
      "\<forall>i<length cs. cqe_at pa ((k + i) mod 256) s1 = enc_CqDesc (cs ! i)"
      "\<forall>j<256. (\<forall>i<length cs. j \<noteq> (k + i) mod 256) \<longrightarrow> cqe_at pa j s1 = cqe_at pa j s"
    using complete_all_ring [OF assms(6,2,4,5) less_imp_le [OF assms(9)]] by blast
  have "(k + length cs) mod 256 \<noteq> (k + i) mod 256" if "i < length cs" for i
  proof -
    have "((k + i) mod 256 + (length cs - i)) mod 256 = (k + i + (length cs - i)) mod 256" by (rule mod_add_left_eq)
    then have "(k + length cs) mod 256 = ((k + i) mod 256 + (length cs - i)) mod 256" using that by simp
    then show ?thesis using mod_other [of "(k + i) mod 256" 256 "length cs - i"] that assms(9) by simp
  qed
  then have "cqe_at pa ((k + length cs) mod 256) s1 = cqe_at pa ((k + length cs) mod 256) s" using s1(3) by simp
  then have "completed pa 256 k cs s1" using s1(2) assms(7,8) by (simp add: completed_def cq_empty_def)
  moreover have "icq_offset cq = of_nat (16 * k)" using assms(3,4) by simp
  ultimately obtain s2 where s2: "ibv_poll_cpl max_num cq (d, s1) = Inr (map cpl_of cs,
      cq\<lparr>icq_offset := of_nat (16 * ((k + length cs) mod 256)), icq_cpl_cnt := icq_cpl_cnt cq + of_nat (length cs)\<rparr>, (d, s2))"
      "consumed pa 256 k (length cs) s1 s2"
    using poll_ring [OF assms(1) _ assms(5,9,10)] by blast
  have "cpl_byte_cnt (dec_cpl (cqe_at pa j s2)) = 0" if "j < 256" for j
  proof (cases "\<exists>i<length cs. j = (k + i) mod 256")
    case True
    then show ?thesis using s2(2) by (auto simp: consumed_def)
  next
    case False
    then have "cqe_at pa j s2 = cqe_at pa j s" using s2(2) s1(3) that by (simp add: consumed_def)
    then show ?thesis using assms(7) that by (simp add: cq_empty_def)
  qed
  then have "cq_empty pa s2" by (simp add: cq_empty_def)
  then show ?thesis using s1(1) s2(1) by fastforce
qed

definition ex_cq :: ibv_cq where
  "ex_cq = \<lparr>icq_num = 1, icq_mr = zero_mr\<lparr>ib_addr := mailbox_vaddr ex_driver, ib_length := 4096\<rparr>, icq_offset = 4080,
     icq_cpl_cnt = 0\<rparr>"

definition ex_cqe :: "u32 \<Rightarrow> CqDesc" where
  "ex_cqe qpn = \<lparr>cq_srvType = QP_TYPE_RC, cq_transType = OPCODE_SEND, cq_nop0 = 0, cq_nop1 = 0, cq_byteCnt = 64,
     cq_qpn = qpn, cq_cqn = 1\<rparr>"

lemma le_enc_zero: "le_enc (0 :: u32) = replicate 4 0"
  by (rule nth_equalityI) (simp_all add: le_enc_def)

lemma le_enc_byte: "le_enc (x :: u8) = [x]"
  by (simp add: le_enc_def)

lemma cqe_at_dev0: "cpl_byte_cnt (dec_cpl (cqe_at pa j (dev0\<lparr>hostMem := \<lambda>_. 0\<rparr>))) = 0"
proof -
  have "cqe_at pa j (dev0\<lparr>hostMem := \<lambda>_. 0\<rparr>) = replicate 4 0 @ le_enc (0 :: u32) @ replicate 8 0"
    by (simp add: cqe_at_def mem_read_def map_replicate_const le_enc_zero flip: replicate_add)
  then show ?thesis using byte_cnt_cleared [of "replicate 4 0" "replicate 8 0"] by simp
qed

lemma completion_roundtrip_witness:
  "\<exists>cqc' s1 cq' s2. complete_all 0x100000 [ex_cqe 7, ex_cqe 8] \<lparr>cqc_cqn = 1, cqc_offset = 4080, cqc_lkey = 0, cqc_sizeLog = 12\<rparr>
        (dev0\<lparr>hostMem := \<lambda>_. 0\<rparr>) = Inr (cqc', s1) \<and>
    ibv_poll_cpl 100 ex_cq (ex_driver, s1) = Inr ([cpl_of (ex_cqe 7), cpl_of (ex_cqe 8)], cq', (ex_driver, s2)) \<and>
    icq_offset cq' = cqc_offset cqc'"
proof -
  have "cq_ring ex_cq 256 0x100000 ex_driver" using ex_block [of 4096] by (simp add: cq_ring_def ex_cq_def)
  from completion_roundtrip [OF this, where cqc = "\<lparr>cqc_cqn = 1, cqc_offset = 4080, cqc_lkey = 0, cqc_sizeLog = 12\<rparr>"
      and k = 255 and s = "dev0\<lparr>hostMem := \<lambda>_. 0\<rparr>" and cs = "[ex_cqe 7, ex_cqe 8]" and max_num = 100]
  show ?thesis by (auto simp: ex_cq_def ex_cqe_def dev0_pciToDma cq_empty_def cqe_at_dev0)
qed

text \<open>
  C31. A library compiled with the twelve byte completion descriptor never sees a completion: its count
  lies where the device writes two unused bytes, so whatever the device has completed, polling
  returns nothing and stays where it is.
\<close>

theorem baseline_poll_blind:
  assumes "block (ib_addr (icq_mr cq)) 4096 pa d" and "icq_offset cq = 0" and "cqc_sizeLog cqc = 12" "cqc_offset cqc = 0"
    and "\<forall>a. pciToDma s a = a" and "cs \<noteq> []" "length cs \<le> 256" and "\<forall>c \<in> set cs. cq_nop0 c = 0 \<and> cq_nop1 c = 0"
  shows "\<exists>cqc' s1. complete_all pa cs cqc s = Inr (cqc', s1) \<and> ibv_poll_cpl12 max_num cq (d, s1) = Inr ([], cq, (d, s1))"
proof -
  obtain cqc' s1 where s1: "complete_all pa cs cqc s = Inr (cqc', s1)" "cqe_at pa 0 s1 = enc_CqDesc (hd cs)"
    using complete_all_ring [OF assms(5,3) _ _ assms(7), of 0 pa] assms(4,6) by (auto simp: hd_conv_nth)
  have "cq_nop0 (hd cs) = 0" "cq_nop1 (hd cs) = 0" using assms(6,8) by auto
  moreover have "take 2 (drop 2 (take 12 (enc_CqDesc c))) = [cq_nop0 c, cq_nop1 c]" for c
    by (simp add: enc_CqDesc_def le_enc_byte take_Cons' drop_Cons')
  ultimately have "cpl_byte_cnt (dec_cpl12 (take 12 (enc_CqDesc (hd cs)))) = 0"
    by (simp add: dec_cpl12_def slice_def)
  moreover have "load (ib_addr (icq_mr cq) + ucast (icq_offset cq)) 12 (d, s1) = Inr (take 12 (cqe_at pa 0 s1))"
    using block_load [OF assms(1), of 0 12 s1] mem_read_add [of pa 12 4 s1] by (simp add: assms(2) cqe_at_def)
  ultimately show ?thesis using s1 by (cases max_num) simp_all
qed

lemma baseline_poll_blind_witness:
  "\<exists>cqc' s1. complete_all 0x100000 [ex_cqe 7] \<lparr>cqc_cqn = 1, cqc_offset = 0, cqc_lkey = 0, cqc_sizeLog = 12\<rparr> dev0 = Inr (cqc', s1) \<and>
    ibv_poll_cpl12 100 (ex_cq\<lparr>icq_offset := 0\<rparr>) (ex_driver, s1) = Inr ([], ex_cq\<lparr>icq_offset := 0\<rparr>, (ex_driver, s1))"
  by (rule baseline_poll_blind) (use ex_block [of 4096] in \<open>simp_all add: ex_cq_def ex_cqe_def dev0_pciToDma\<close>)

end
