(* ===== verification/RecvRing.thy ===== *)
theory RecvRing
  imports SendRing Qpc
begin

text \<open>
  The receive queue that the library and the device share: the library writes descriptors into the ring,
  the device takes them one by one at the offset of its queue pair context, which it moves on itself.
\<close>

section \<open>Receive descriptors\<close>

definition rx_of :: "ibv_wqe \<Rightarrow> RxDesc" where
  "rx_of w = \<lparr>rx_len = wq_length w, rx_lkey = ib_lkey (wq_mr w), rx_lVaddr = ib_addr (wq_mr w) + ucast (wq_offset w)\<rparr>"

definition rx_at :: "u64 \<Rightarrow> nat \<Rightarrow> rnic \<Rightarrow> u8 list" where
  "rx_at pa j s = mem_read (pa + of_nat (16 * j)) 16 s"

text \<open>A receive queue of one page, mapped.\<close>

definition recv_ring :: "ibv_qp \<Rightarrow> u64 \<Rightarrow> HanGuDriver \<Rightarrow> bool" where
  "recv_ring qp pa d \<longleftrightarrow> block (ib_addr (iqp_rcv_mr qp)) 4096 pa d \<and> ib_length (iqp_rcv_mr qp) = 4096"

lemma off16: "k < 256 \<Longrightarrow> (ucast (of_nat (16 * k) :: u16) :: u64) = of_nat (16 * k)"
  by (rule word_unat_eq_iff [THEN iffD2]) (simp add: unsigned_ucast_eq unsigned_of_nat take_bit_nat_eq_self del: of_nat_mult)

lemma off16_full:
  assumes "k < 256"
  shows "(4096 :: u64) < ucast (of_nat (16 * k) + 16 :: u16) + 16 \<longleftrightarrow> Suc k = 256"
proof -
  have e: "of_nat (16 * k) + (16 :: u16) = of_nat (16 * Suc k)" by simp
  have "unat ((ucast (of_nat (16 * Suc k) :: u16) :: u64) + 16) = 16 * k + 32"
    using assms by (simp add: unat_word_ariths unsigned_ucast_eq unsigned_of_nat take_bit_nat_eq_self del: of_nat_mult of_nat_Suc)
  then show ?thesis using assms unfolding e by (auto simp: word_less_nat_alt simp del: of_nat_mult of_nat_Suc)
qed

lemma off16_step:
  assumes "k < 256" "off = of_nat (16 * k)"
  shows "(if ucast (off + 16 :: u16) + 16 > (4096 :: u64) then 0 else off + 16) = of_nat (16 * ((k + 1) mod 256))"
proof -
  have e: "of_nat (16 * k) + (16 :: u16) = of_nat (16 * Suc k)" by simp
  show ?thesis
  proof (cases "Suc k = 256")
    case True
    then show ?thesis using off16_full [OF assms(1)] unfolding assms(2) by simp
  next
    case False
    then have "(k + 1) mod 256 = Suc k" using assms(1) by simp
    then show ?thesis using off16_full [OF assms(1)] False e unfolding assms(2) by (simp only: if_False)
  qed
qed

section \<open>Posting\<close>

lemma post_recv_step:
  assumes "recv_ring qp pa d" "iqp_rcv_wqe_offset qp = of_nat (16 * k)" "k < 256"
  shows "\<exists>s1. post_recv_loop (w # ws) qp (d, s) =
      post_recv_loop ws (qp\<lparr>iqp_rcv_wqe_offset := of_nat (16 * ((k + 1) mod 256))\<rparr>) (d, s1) \<and>
    rx_at pa k s1 = enc_RxDesc (rx_of w) \<and> (\<forall>j<256. j \<noteq> k \<longrightarrow> rx_at pa j s1 = rx_at pa j s)"
proof -
  let ?s = "mem_write (pa + of_nat (16 * k)) (enc_RxDesc (rx_of w)) s"
  have len: "length (enc_RxDesc (rx_of w)) = 16" by (rule rxd.len_enc) simp
  have ne: "enc_RxDesc (rx_of w) \<noteq> []" using len by auto
  have st: "writeBlob (ib_addr (iqp_rcv_mr qp) + ucast (iqp_rcv_wqe_offset qp)) (enc_RxDesc (rx_of w)) (d, s) = Inr (d, ?s)"
    unfolding assms(2) off16 [OF assms(3)]
    by (rule block_store) (use assms(1,3) len ne in \<open>auto simp: recv_ring_def\<close>)
  have b: "le_enc (wq_length w) @ le_enc (ib_lkey (wq_mr w)) @ le_enc (ib_addr (wq_mr w) + ucast (wq_offset w)) = enc_RxDesc (rx_of w)"
    by (simp add: enc_RxDesc_def rx_of_def)
  have o: "(if ucast (iqp_rcv_wqe_offset (qp\<lparr>iqp_rcv_wqe_offset := iqp_rcv_wqe_offset qp + 16\<rparr>)) + 16 > ib_length (iqp_rcv_mr qp)
       then qp\<lparr>iqp_rcv_wqe_offset := iqp_rcv_wqe_offset qp + 16, iqp_rcv_wqe_offset := 0\<rparr> else qp\<lparr>iqp_rcv_wqe_offset := iqp_rcv_wqe_offset qp + 16\<rparr>) =
      qp\<lparr>iqp_rcv_wqe_offset := of_nat (16 * ((k + 1) mod 256))\<rparr>"
    using off16_step [OF assms(3,2)] assms(1) by (auto simp: recv_ring_def simp del: of_nat_mult)
  have "rx_at pa k ?s = enc_RxDesc (rx_of w)" unfolding rx_at_def by (rule mem_read_same) (simp_all add: len)
  moreover have "rx_at pa j ?s = rx_at pa j s" if "j < 256" "j \<noteq> k" for j
    unfolding rx_at_def by (rule mem_read_off) (use that assms(3) in \<open>auto simp: neq_iff len\<close>)
  moreover have "post_recv_loop (w # ws) qp (d, s) = post_recv_loop ws (qp\<lparr>iqp_rcv_wqe_offset := of_nat (16 * ((k + 1) mod 256))\<rparr>) (d, ?s)"
    unfolding post_recv_loop.simps b st Let_def o by simp
  ultimately show ?thesis by blast
qed

lemma recv_ring_off [simp]: "recv_ring (qp\<lparr>iqp_rcv_wqe_offset := x\<rparr>) pa d = recv_ring qp pa d"
  by (simp add: recv_ring_def)

lemma ring_next: "((k + 1) mod 256 + i) mod 256 = (k + Suc i) mod (256 :: nat)"
  by (simp add: mod_add_left_eq)

lemma post_recv_ring:
  assumes "recv_ring qp pa d" "iqp_rcv_wqe_offset qp = of_nat (16 * k)" "k < 256" "length ws \<le> 256"
  shows "\<exists>s'. post_recv_loop ws qp (d, s) = Inr (qp\<lparr>iqp_rcv_wqe_offset := of_nat (16 * ((k + length ws) mod 256))\<rparr>, (d, s')) \<and>
    (\<forall>i<length ws. rx_at pa ((k + i) mod 256) s' = enc_RxDesc (rx_of (ws ! i))) \<and>
    (\<forall>j<256. (\<forall>i<length ws. j \<noteq> (k + i) mod 256) \<longrightarrow> rx_at pa j s' = rx_at pa j s)"
  using assms
proof (induction ws arbitrary: qp k s)
  case Nil
  then have "qp\<lparr>iqp_rcv_wqe_offset := of_nat (16 * k)\<rparr> = qp" by simp
  then show ?case using Nil.prems(3) by simp
next
  case (Cons w ws)
  let ?qp = "qp\<lparr>iqp_rcv_wqe_offset := of_nat (16 * ((k + 1) mod 256))\<rparr>"
  obtain s1 where s1: "post_recv_loop (w # ws) qp (d, s) = post_recv_loop ws ?qp (d, s1)"
      "rx_at pa k s1 = enc_RxDesc (rx_of w)" "\<forall>j<256. j \<noteq> k \<longrightarrow> rx_at pa j s1 = rx_at pa j s"
    using post_recv_step [OF Cons.prems(1-3)] by blast
  obtain s' where s': "post_recv_loop ws ?qp (d, s1) = Inr (?qp\<lparr>iqp_rcv_wqe_offset := of_nat (16 * (((k + 1) mod 256 + length ws) mod 256))\<rparr>, (d, s'))"
      "\<forall>i<length ws. rx_at pa (((k + 1) mod 256 + i) mod 256) s' = enc_RxDesc (rx_of (ws ! i))"
      "\<forall>j<256. (\<forall>i<length ws. j \<noteq> ((k + 1) mod 256 + i) mod 256) \<longrightarrow> rx_at pa j s' = rx_at pa j s1"
    using Cons.IH [of ?qp "(k + 1) mod 256" s1] Cons.prems(1,4) by auto
  note at = s'(2,3) [unfolded ring_next]
  have "k \<noteq> (k + Suc i) mod 256" if "i < length ws" for i
    using mod_other [of k 256 "Suc i"] Cons.prems(3,4) that by simp
  then have k: "rx_at pa k s' = enc_RxDesc (rx_of w)" using at(2) Cons.prems(3) s1(2) by simp
  have "rx_at pa ((k + i) mod 256) s' = enc_RxDesc (rx_of ((w # ws) ! i))" if "i < length (w # ws)" for i
    using that k at(1) Cons.prems(3) by (cases i) auto
  moreover have "rx_at pa j s' = rx_at pa j s" if "j < 256" "\<forall>i<length (w # ws). j \<noteq> (k + i) mod 256" for j
  proof -
    have "j \<noteq> k" using that(2) Cons.prems(3) by (auto dest!: spec [of _ 0])
    moreover have "\<forall>i<length ws. j \<noteq> (k + Suc i) mod 256" using that(2) by auto
    ultimately show ?thesis using at(2) s1(3) that(1) by simp
  qed
  ultimately show ?case using s1(1) s'(1) unfolding ring_next by (intro exI [of _ s']) simp
qed

section \<open>The device's side\<close>

text \<open>The context after the device has served \<open>n\<close> receives.\<close>

fun served :: "nat \<Rightarrow> QpcResc \<Rightarrow> QpcResc res" where
  "served 0 q = Inr q"
| "served (Suc n) q = ebind (qpcRxUpdate q) (served n)"

lemma qpcRxUpdate_ring:
  assumes "rqSizeLog q = 12" "rcvWqeOffset q = of_nat (16 * k)" "k < 256"
  shows "\<exists>q'. qpcRxUpdate q = Inr q' \<and> rqSizeLog q' = 12 \<and> rcvWqeOffset q' = of_nat (16 * ((k + 1) mod 256))"
proof -
  have "shl1 12 = 4096" by (simp add: shl1_def)
  then show ?thesis using off16_step [OF assms(3,2)] assms(1)
    by (auto simp: qpcRxUpdate_def Let_def ensure_def simp del: of_nat_mult split: if_splits)
qed

lemma served_ring:
  assumes "rqSizeLog q = 12" "rcvWqeOffset q = of_nat (16 * k)" "k < 256"
  shows "\<exists>q'. served n q = Inr q' \<and> rcvWqeOffset q' = of_nat (16 * ((k + n) mod 256))"
  using assms
proof (induction n arbitrary: q k)
  case (Suc n)
  obtain q1 where q1: "qpcRxUpdate q = Inr q1" "rqSizeLog q1 = 12" "rcvWqeOffset q1 = of_nat (16 * ((k + 1) mod 256))"
    using qpcRxUpdate_ring [OF Suc.prems] by blast
  then show ?case using Suc.IH [OF q1(2,3)] unfolding ring_next by simp
qed simp

section \<open>Properties\<close>



end
