(* ===== verification/Commands.thy ===== *)
theory Commands
  imports SendRing
begin

text \<open>
  Commands of the library through the driver: they return once the device has executed them, the
  numbers they allocate stay in step, and the tables written with them reach the device.
\<close>

section \<open>Waiting for the device\<close>

definition busy :: "rnic \<Rightarrow> bool" where
  "busy s \<longleftrightarrow> cmd_go (cmdCtrl (regs s)) = 1"

definition command :: "ioc \<Rightarrow> bool" where
  "command req \<longleftrightarrow> (case req of IOC_GET_TIME _ \<Rightarrow> False | _ \<Rightarrow> True)"

lemma ioctl_ready:
  assumes "driver_ready d" "command req"
  shows "ioctl req (d, s) =
    (if busy s then Inr (-1, req, (d, s))
     else ebind (ioctl_write req (d, s)) (\<lambda>h1. ebind (ioctl_alloc req h1) (\<lambda>r. Inr (0, fst r, snd r))))"
  using assms by (cases req) (simp_all add: ioctl_def command_def checkHcr_ready busy_def)

lemma check_go: "driver_ready d \<Longrightarrow> ioctl IOC_CHECK_GO (d, s) = Inr (if busy s then -1 else 0, IOC_CHECK_GO, (d, s))"
  by (simp add: ioctl_ready command_def ioctl_write_def ioctl_alloc_def)

lemma cmd_issue_waits:
  assumes "driver_ready d" "command req" "\<forall>i<m. busy (t i) \<and> dev (t i) = Inr (t (Suc i))"
    and "ioctl req (d, t m) = Inr (0, req', h')"
  shows "cmd_issue dev req (d, t 0) = Some (Inr (req', h'))"
  using assms(3,4)
proof (induction m arbitrary: t)
  case 0
  then show ?case by (subst cmd_issue.simps) simp
next
  case (Suc m)
  have "cmd_issue dev req (d, t (Suc 0)) = Some (Inr (req', h'))" using Suc.prems by (intro Suc.IH [of "\<lambda>i. t (Suc i)"]) auto
  moreover have "busy (t 0)" "dev (t 0) = Inr (t (Suc 0))" using Suc.prems(1) by auto
  ultimately show ?case by (subst cmd_issue.simps) (simp add: ioctl_ready [OF assms(1,2)])
qed

lemma cmd_wait_returns:
  assumes "driver_ready d" "\<forall>i<n. dev (u i) = Inr (u (Suc i))" "\<forall>i<n. 0 < i \<longrightarrow> busy (u i)" "0 < n" "\<not> busy (u n)"
  shows "cmd_wait dev (d, u 0) = Some (Inr (d, u n))"
  using assms(2-5)
proof (induction n arbitrary: u)
  case (Suc n)
  have step: "dev (u 0) = Inr (u (Suc 0))" using Suc.prems(1) by auto
  show ?case
  proof (cases "n = 0")
    case True
    then show ?thesis using step Suc.prems(4) by (subst cmd_wait.simps) (simp add: check_go [OF assms(1)])
  next
    case False
    have "cmd_wait dev (d, u (Suc 0)) = Some (Inr (d, u (Suc n)))"
      using Suc.prems False by (intro Suc.IH [of "\<lambda>i. u (Suc i)"]) auto
    moreover have "busy (u (Suc 0))" using Suc.prems(2) False by auto
    ultimately show ?thesis using step by (subst cmd_wait.simps) (simp add: check_go [OF assms(1)])
  qed
qed simp

section \<open>Numbers in step\<close>

lemma writeBlob_fst: "writeBlob va bs h = Inr h' \<Longrightarrow> fst h' = fst h"
  by (auto simp: writeBlob_def ebind_Inr split: option.splits)

lemma mbox_post_fst: "mbox_post bs inM outP opc h = Inr h' \<Longrightarrow> fst h' = fst h"
  by (auto simp: mbox_post_def postHcr_def ebind_Inr dest!: writeBlob_fst)

text \<open>What the allocation of pages leaves alone in the driver.\<close>

definition same_ids :: "HanGuDriver \<Rightarrow> HanGuDriver \<Rightarrow> bool" where
  "same_ids d d' \<longleftrightarrow> mttMeta d' = mttMeta d \<and> mptMeta d' = mptMeta d \<and> cpu_id d' = cpu_id d \<and> driver_ready d' = driver_ready d"

lemma same_ids_refl: "same_ids d d"
  by (simp add: same_ids_def)

lemma back_icm_same: "back_icm t m f l (d, s) = Inr (d', s') \<Longrightarrow> same_ids d d'"
  by (auto simp: back_icm_def writeIcm_def allocIcm_def allocPhysPages_def Let_def same_ids_def driver_ready_def maps_to_def
      pt_translate_def split: if_splits dest!: mbox_post_fst)

lemma first_of_batch: "n \<noteq> 0 \<Longrightarrow> of_nat (a + unat n - 1) + c - (n - 1) = of_nat a + (c :: u32)"
proof -
  assume "n \<noteq> 0"
  then have "0 < unat n" by (simp add: unat_gt_0)
  then have "(of_nat (a + unat n - 1) :: u32) = of_nat a + n - 1" by (simp add: of_nat_diff)
  then show ?thesis by simp
qed

lemma alloc_mtt_numbers:
  assumes "ioctl (IOC_ALLOC_MTT q) (d, s) = Inr (0, r, (d', s'))" "driver_ready d" "mtta_batch_size q \<noteq> 0" "handed_out (mttMeta d) a"
  shows "\<exists>b. r = IOC_ALLOC_MTT b \<and> mtta_mtt_index b = of_nat a + push_bit RESC_LIM_LOG (ucast (cpu_id d)) \<and>
    handed_out (mttMeta d') (a + unat (mtta_batch_size q)) \<and> mptMeta d' = mptMeta d \<and> cpu_id d' = cpu_id d \<and> driver_ready d' \<and>
    mtta_paddr b = translate_all (unat (mtta_batch_size q)) 0 d (mtta_vaddr q) (mtta_paddr q) \<and> mtta_batch_size b = mtta_batch_size q"
proof -
  obtain b d1 where b: "allocMtt q d = Inr (b, d1)" "r = IOC_ALLOC_MTT b"
      "back_icm ICMTYPE_MTT (mttMeta d1) (mtta_mtt_index b) (mtta_mtt_index b + mtta_batch_size b - 1) (d1, s) = Inr (d', s')"
    using assms(1) by (auto simp: ioctl_ready [OF assms(2)] command_def ioctl_write_def ioctl_alloc_def ebind_Inr split: if_splits)
  obtain num m' where m': "allocBatch (unat (mtta_batch_size q)) (cpu_id d) (mtta_mtt_index q) (mttMeta d) = Inr (num, m')"
      "mtta_mtt_index b = num - (mtta_batch_size q - 1)" "d1 = d\<lparr>mttMeta := m'\<rparr>"
      "mtta_paddr b = translate_all (unat (mtta_batch_size q)) 0 d (mtta_vaddr q) (mtta_paddr q)" "mtta_batch_size b = mtta_batch_size q"
    using b(1) by (auto simp: allocMtt_def ensure_Inr ebind_Inr)
  have "unat (mtta_batch_size q) \<noteq> 0" using assms(3) by (simp add: unat_eq_0)
  note n = allocBatch_spec [OF assms(4) m'(1) this]
  have "driver_ready d1" using assms(2) by (simp add: m'(3) driver_ready_def maps_to_def pt_translate_def)
  then show ?thesis using back_icm_same [OF b(3)] n first_of_batch [OF assms(3)] b(2) m'(2-5) by (simp add: same_ids_def)
qed

lemma alloc_mpt_numbers:
  assumes "ioctl (IOC_ALLOC_MPT q) (d, s) = Inr (0, r, (d', s'))" "driver_ready d" "mpta_batch_size q \<noteq> 0" "handed_out (mptMeta d) a"
  shows "\<exists>b. r = IOC_ALLOC_MPT b \<and> mpta_mpt_index b = of_nat a + push_bit RESC_LIM_LOG (ucast (cpu_id d)) \<and>
    handed_out (mptMeta d') (a + unat (mpta_batch_size q)) \<and> mttMeta d' = mttMeta d \<and> cpu_id d' = cpu_id d \<and> driver_ready d'"
proof -
  obtain b d1 where b: "allocMpt q d = Inr (b, d1)" "r = IOC_ALLOC_MPT b"
      "back_icm ICMTYPE_MPT (mptMeta d1) (mpta_mpt_index b) (mpta_mpt_index b + mpta_batch_size b - 1) (d1, s) = Inr (d', s')"
    using assms(1) by (auto simp: ioctl_ready [OF assms(2)] command_def ioctl_write_def ioctl_alloc_def ebind_Inr split: if_splits)
  obtain num m' where m': "allocBatch (unat (mpta_batch_size q)) (cpu_id d) (mpta_mpt_index q) (mptMeta d) = Inr (num, m')"
      "mpta_mpt_index b = num - (mpta_batch_size q - 1)" "d1 = d\<lparr>mptMeta := m'\<rparr>"
    using b(1) by (auto simp: allocMpt_def ebind_Inr)
  have "unat (mpta_batch_size q) \<noteq> 0" using assms(3) by (simp add: unat_eq_0)
  note n = allocBatch_spec [OF assms(4) m'(1) this]
  have "driver_ready d1" using assms(2) by (simp add: m'(3) driver_ready_def maps_to_def pt_translate_def)
  then show ?thesis using back_icm_same [OF b(3)] n first_of_batch [OF assms(3)] b(2) m'(2,3) by (simp add: same_ids_def)
qed

text \<open>A device that has executed the command, or had none, after each of its steps the library waits for.\<close>

definition prompt :: "(rnic \<Rightarrow> rnic res) \<Rightarrow> bool" where
  "prompt dev \<longleftrightarrow> (\<forall>s. \<exists>s'. dev s = Inr s' \<and> \<not> busy s')"

lemma write_cmd_prompt:
  assumes "prompt dev" "driver_ready d" "command req" "ioctl req (d, s) = Inr (0, r, (d', s'))" "driver_ready d'"
  shows "\<exists>s''. write_cmd dev req (d, s) = Some (Inr (r, (d', s''))) \<and> \<not> busy s''"
proof -
  obtain s'' where s'': "dev s' = Inr s''" "\<not> busy s''" using assms(1) unfolding prompt_def by blast
  have "cmd_issue dev req (d, s) = Some (Inr (r, (d', s')))"
    using cmd_issue_waits [OF assms(2,3), of 0 "\<lambda>_. s"] assms(4) by simp
  moreover have "cmd_wait dev (d', s') = Some (Inr (d', s''))"
    using s'' by (subst cmd_wait.simps) (simp add: check_go [OF assms(5)])
  ultimately show ?thesis using s''(2) by (simp add: write_cmd_def wbind_def)
qed

lemma back_icm_runs:
  assumes "driver_ready d"
  shows "\<exists>d' s'. back_icm t m f l (d, s) = Inr (d', s')"
proof -
  have "driver_ready (snd (allocIcm m i d))" for i
    using assms by (simp add: allocIcm_def allocPhysPages_def Let_def driver_ready_def maps_to_def pt_translate_def)
  moreover have "length (enc_IcmResc r @ junk_bytes 16 x) \<le> 4096 * MAILBOX_PAGE_NUM" "enc_IcmResc r @ junk_bytes 16 x \<noteq> []" for r and x :: rnic
    by (simp_all add: enc_IcmResc_def le_enc_def junk_bytes_def)
  ultimately show ?thesis
    by (auto simp: back_icm_def writeIcm_def Let_def mbox_post_ready split: if_splits)
qed

text \<open>While numbers are left, the driver takes the request.\<close>

lemma allocBatch_runs:
  assumes "handed_out m a" "a + n \<le> 8 * unat (rm_entryNumPage m)"
  shows "\<exists>r. allocBatch n cpu idx m = Inr r"
  using allocBatch_Inl [OF assms(1), of n cpu idx] assms(2) by (cases "allocBatch n cpu idx m") auto

lemma alloc_mtt_runs:
  assumes "driver_ready d" "\<not> busy s" "mtta_batch_size q \<le> MAX_MR_BATCH" "handed_out (mttMeta d) a"
    and "a + unat (mtta_batch_size q) \<le> 8 * unat (rm_entryNumPage (mttMeta d))"
  shows "\<exists>r d' s'. ioctl (IOC_ALLOC_MTT q) (d, s) = Inr (0, r, (d', s'))"
proof -
  obtain b m' where b: "allocMtt q d = Inr (b, d\<lparr>mttMeta := m'\<rparr>)"
    using allocBatch_runs [OF assms(4,5), of "cpu_id d" "mtta_mtt_index q"] assms(3) by (auto simp: allocMtt_def)
  have "driver_ready (d\<lparr>mttMeta := m'\<rparr>)" using assms(1) by (simp add: driver_ready_def maps_to_def pt_translate_def)
  then obtain d' s' where "back_icm ICMTYPE_MTT m' (mtta_mtt_index b) (mtta_mtt_index b + mtta_batch_size b - 1) (d\<lparr>mttMeta := m'\<rparr>, s) = Inr (d', s')"
    using back_icm_runs by blast
  then show ?thesis using b assms(2) by (simp add: ioctl_ready [OF assms(1)] command_def ioctl_write_def ioctl_alloc_def)
qed

lemma alloc_mpt_runs:
  assumes "driver_ready d" "\<not> busy s" "handed_out (mptMeta d) a"
    and "a + unat (mpta_batch_size q) \<le> 8 * unat (rm_entryNumPage (mptMeta d))"
  shows "\<exists>r d' s'. ioctl (IOC_ALLOC_MPT q) (d, s) = Inr (0, r, (d', s'))"
proof -
  obtain b m' where b: "allocMpt q d = Inr (b, d\<lparr>mptMeta := m'\<rparr>)"
    using allocBatch_runs [OF assms(3,4), of "cpu_id d" "mpta_mpt_index q"] by (auto simp: allocMpt_def)
  have "driver_ready (d\<lparr>mptMeta := m'\<rparr>)" using assms(1) by (simp add: driver_ready_def maps_to_def pt_translate_def)
  then obtain d' s' where "back_icm ICMTYPE_MPT m' (mpta_mpt_index b) (mpta_mpt_index b + mpta_batch_size b - 1) (d\<lparr>mptMeta := m'\<rparr>, s) = Inr (d', s')"
    using back_icm_runs by blast
  then show ?thesis using b assms(2) by (simp add: ioctl_ready [OF assms(1)] command_def ioctl_write_def ioctl_alloc_def)
qed

lemma write_mtt_runs:
  assumes "driver_ready d" "\<not> busy s" "mtta_batch_size q = 1"
  shows "\<exists>s'. ioctl (IOC_WRITE_MTT q) (d, s) = Inr (0, IOC_WRITE_MTT q, (d, s'))"
proof -
  have "length (enc_MttResc x) = 8" for x by (rule mttr.len_enc) simp
  moreover from this have "enc_MttResc x \<noteq> []" for x by (metis list.size(3) zero_neq_numeral)
  ultimately show ?thesis using assms(2,3)
    by (simp add: ioctl_ready [OF assms(1)] command_def ioctl_write_def ioctl_alloc_def writeMtt_def mbox_post_ready [OF assms(1)])
qed

lemma write_mpt_runs:
  assumes "driver_ready d" "\<not> busy s" "mptw_batch_size q = 1"
  shows "\<exists>s'. ioctl (IOC_WRITE_MPT q) (d, s) = Inr (0, IOC_WRITE_MPT q, (d, s'))"
proof -
  have "length (enc_MptResc x) = 32" for x by (rule mptr.len_enc) simp
  moreover from this have "enc_MptResc x \<noteq> []" for x by (metis list.size(3) zero_neq_numeral)
  ultimately show ?thesis using assms(2,3)
    by (simp add: ioctl_ready [OF assms(1)] command_def ioctl_write_def ioctl_alloc_def writeMpt_def mbox_post_ready [OF assms(1)])
qed

lemma num_mtt_one: "len \<noteq> 0 \<Longrightarrow> calc_num_mtt len = 1"
proof -
  assume len: "len \<noteq> 0"
  have "unat (drop_bit 12 len) + unat (take_bit 12 len) < 2 ^ 64" "0 < unat (drop_bit 12 len) + unat (take_bit 12 len)"
  proof -
    have d: "unat (drop_bit 12 len) = unat len div 4096" "unat (take_bit 12 len) = unat len mod 4096"
      by (simp_all only: unat_drop_bit_eq unsigned_take_bit_eq) (simp_all add: drop_bit_eq_div take_bit_eq_mod)
    have "unat len div 4096 + unat len mod 4096 \<le> unat len" using div_mult_mod_eq [of "unat len" 4096] by linarith
    then show "unat (drop_bit 12 len) + unat (take_bit 12 len) < 2 ^ 64"
      using unsigned_less [of len, where ?'a = nat] unfolding d by simp
    have "unat len \<noteq> 0" using len by (simp add: unat_eq_0)
    then show "0 < unat (drop_bit 12 len) + unat (take_bit 12 len)"
      using div_mult_mod_eq [of "unat len" 4096] unfolding d by (metis add_gr_0 add.right_neutral mult_zero_left neq0_conv)
  qed
  then have "drop_bit 12 len + take_bit 12 len \<noteq> 0" by (auto dest!: arg_cong [of _ 0 unat] simp: unat_word_ariths)
  then show ?thesis by (simp add: calc_num_mtt_def and_page)
qed

lemma wbind_Inr: "wbind (Some (Inr x)) f = f x"
  by (simp add: wbind_def)

section \<open>Properties\<close>

text \<open>
  C25. A command of the library returns: it is repeated while the command of another process is being
  executed, is taken by the driver as soon as the device is free, and the call returns when the device
  has executed it, with the answer of the driver.
\<close>

theorem write_cmd_returns:
  assumes "driver_ready d" "command req" "\<forall>i<m. busy (t i) \<and> dev (t i) = Inr (t (Suc i))"
    and "ioctl req (d, t m) = Inr (0, req', (d', u 0))" "driver_ready d'"
    and "\<forall>i<n. dev (u i) = Inr (u (Suc i))" "\<forall>i<n. 0 < i \<longrightarrow> busy (u i)" "0 < n" "\<not> busy (u n)"
  shows "write_cmd dev req (d, t 0) = Some (Inr (req', (d', u n)))"
  using cmd_issue_waits [where t = t, OF assms(1-4)] cmd_wait_returns [where u = u, OF assms(5-9)]
  by (simp add: write_cmd_def wbind_def)

text \<open>A device that executes a command in one step.\<close>

definition go_clear :: "rnic \<Rightarrow> rnic" where
  "go_clear s = s\<lparr>regs := (regs s)\<lparr>cmdCtrl := set_cmd_go (cmdCtrl (regs s)) 0\<rparr>\<rparr>"

definition go_set :: "rnic \<Rightarrow> rnic" where
  "go_set s = s\<lparr>regs := (regs s)\<lparr>cmdCtrl := set_cmd_go (cmdCtrl (regs s)) 1\<rparr>\<rparr>"

lemma busy_go: "\<not> busy (go_clear s)" "busy (go_set s)"
proof -
  have "cmd_go (set_cmd_go r 0) = 0" "cmd_go (set_cmd_go r 1) = 1" for r
    by (rule bit_word_eqI, auto simp: field_defs bit_bits_val bit_insertBits_val bit_1_iff)+
  then show "\<not> busy (go_clear s)" "busy (go_set s)" by (simp_all add: busy_def go_clear_def go_set_def)
qed

lemma write_cmd_returns_witness:
  "write_cmd (\<lambda>s. Inr (go_clear s)) IOC_CHECK_GO (ex_driver, go_set dev0) =
    Some (Inr (IOC_CHECK_GO, (ex_driver, go_clear (go_clear (go_set dev0)))))"
proof -
  let ?t = "\<lambda>i :: nat. if i = 0 then go_set dev0 else go_clear (go_set dev0)"
  let ?u = "\<lambda>i :: nat. if i = 0 then go_clear (go_set dev0) else go_clear (go_clear (go_set dev0))"
  have "write_cmd (\<lambda>s. Inr (go_clear s)) IOC_CHECK_GO (ex_driver, ?t 0) = Some (Inr (IOC_CHECK_GO, (ex_driver, ?u 1)))"
    by (rule write_cmd_returns [where t = ?t and u = ?u and m = 1 and n = 1])
      (simp_all add: ex_driver_ready command_def busy_go check_go [OF ex_driver_ready])
  then show ?thesis by simp
qed


lemma ex_driver_bitmaps: "mttMeta ex_driver = new_meta 0 8 9 20" "mptMeta ex_driver = new_meta 0 8 9 20"
proof -
  have kept: "mttMeta y = mttMeta x \<and> mptMeta y = mptMeta x" if "pt_map va pa n x = Inr y" for va pa n x y
    using pt_map_frame [OF that] by (cases y) simp
  obtain a d1 where d: "drv_mmap 0 0x1000 ex_driver0 = Inr (a, d1)" "initMailbox d1 = Inr ex_driver" using ex_driver_runs by blast
  have "mttMeta d1 = mttMeta ex_driver0 \<and> mptMeta d1 = mptMeta ex_driver0" using d(1) by (auto simp: drv_mmap_def Let_def ebind_Inr dest!: kept)
  then show "mttMeta ex_driver = new_meta 0 8 9 20" "mptMeta ex_driver = new_meta 0 8 9 20"
    using d(2) by (auto simp: initMailbox_def allocPhysPages_def Let_def ex_driver0_def dest!: kept)
qed


text \<open>
  C23. Protection entries written by the driver are what the device stores: the command makes the
  device fetch the mailbox, and once the bytes have arrived it writes exactly the entries of the
  request to its table, each under its key and in order.
\<close>

theorem write_mpt_reaches_device:
  assumes "driver_ready d" and "pciToDma s (mailbox_paddr d) = mailbox_paddr d"
    and "mptw_batch_size a \<noteq> 0" and "mptw_batch_size a \<le> MAX_MR_BATCH"
  shows "\<exists>s1 s2 r s3. writeMpt a (d, s) = Inr (d, s1) \<and> ceuProc s1 = Inr s2 \<and>
    dmaReqs s2 = dmaReqs s @ [r] \<and> ccuDmaReadFifo s2 = ccuDmaReadFifo s @ [length (dmaReqs s)] \<and>
    dmaRead (dr_addr r) (dr_size r) (dr_data r) s2 = Inr s3 \<and>
    mbox_command s3 = write_mpts (map (mpt_entry a) [0..<unat (mptw_batch_size a)]) s3"
proof -
  let ?n = "unat (mptw_batch_size a)" and ?rs = "map (mpt_entry a) [0..<unat (mptw_batch_size a)]"
  let ?bs = "concat (map enc_MptResc ?rs)"
  let ?r = "write_hcr (mk_hcr (mailbox_paddr d) (mptw_mpt_index a 0) (ucast (mptw_batch_size a)) WRITE_MPT) (regs s)"
  have n: "0 < ?n" "?n \<le> 512" using assms(3,4) by (auto simp: word_le_nat_alt unat_gt_0)
  have len: "length ?bs = ?n * 32" using mptr.len_array [of ?rs] by (simp del: length_concat map_map)
  have ent: "ceu_entries ?r = Inr (ucast (mptw_batch_size a), 32)" by (simp add: ceu_entries_def write_hcr_regs)
  have uc: "unat (ucast (mptw_batch_size a) :: u64) = ?n"
    using unsigned_less [of "mptw_batch_size a", where ?'a = nat] by (simp add: unsigned_ucast_eq take_bit_nat_eq_self)
  have l: "length ?bs = unat (ucast (mptw_batch_size a) :: u64) * 32" "length ?bs \<le> 32 * 4096" using len n by (simp_all only: uc)
  have ne: "?bs \<noteq> []" using len n by (metis length_0_conv mult_is_0 less_not_refl zero_neq_numeral)
  obtain s1 s2 r s3 where m: "mbox_post ?bs (mptw_mpt_index a 0) (ucast (mptw_batch_size a)) WRITE_MPT (d, s) = Inr (d, s1)"
      "ceuProc s1 = Inr s2" "dmaReqs s2 = dmaReqs s @ [r]" "ccuDmaReadFifo s2 = ccuDmaReadFifo s @ [length (dmaReqs s)]"
      "dmaRead (dr_addr r) (dr_size r) (dr_data r) s2 = Inr s3" "mbox_fetched ?bs s3" "regs s3 = ?r"
    using mbox_delivers [OF assms(1,2) ent l(1) ne l(2)] by blast
  have "mbox_array dec_MptResc 32 ?n s3 = Inr ?rs"
    using mbox_array_fetched [OF m(6), of ?n 32 dec_MptResc] len mptr.dec_array_enc [of ?rs] by (simp del: map_map)
  then have "mbox_command s3 = write_mpts ?rs s3" by (simp add: mbox_command_def m(7) write_hcr_regs uc)
  moreover have "writeMpt a (d, s) = Inr (d, s1)" using m(1) assms(4) by (simp add: writeMpt_def)
  ultimately show ?thesis using m(2-5) by blast
qed

definition ex_mptw :: kfd_ioctl_write_mpt_args where
  "ex_mptw = \<lparr>mptw_batch_size = 2, mptw_flag = (\<lambda>_. 1), mptw_addr = (\<lambda>i. of_nat (4096 * i)), mptw_length = (\<lambda>_. 4096),
     mptw_mtt_index = of_nat, mptw_mpt_index = of_nat\<rparr>"

lemma write_mpt_reaches_device_witness:
  "\<exists>s1 s2 r s3. writeMpt ex_mptw (ex_driver, dev0) = Inr (ex_driver, s1) \<and> ceuProc s1 = Inr s2 \<and>
    dmaReqs s2 = dmaReqs dev0 @ [r] \<and> dmaRead (dr_addr r) (dr_size r) (dr_data r) s2 = Inr s3 \<and>
    mbox_command s3 = write_mpts [mpt_entry ex_mptw 0, mpt_entry ex_mptw 1] s3"
proof -
  have n: "mptw_batch_size ex_mptw = 2" by (simp add: ex_mptw_def)
  have l: "[0..<unat (2 :: u32)] = [0, 1]" by (simp add: upt_rec)
  show ?thesis using write_mpt_reaches_device [OF ex_driver_ready dev0_pciToDma, of ex_mptw] unfolding n l by auto
qed

end
