(* ===== verification/Cm.thy ===== *)
theory Cm
  imports Verbs
begin

text \<open>
  The connection library, \<^verbatim>\<open>librdma.c\<close>: connection requests are exchanged as datagrams of the queue
  pair 0, out of one page that holds the receive places from offset 0 and the send places from
  offset 3000. \<open>num_client\<close> is the global the macros of the header use, \<open>mem\<close> gives what \<^verbatim>\<open>malloc\<close>
  returns holds. As in the verbs library the loops that wait for the device take its next step \<open>dev\<close>.
\<close>

section \<open>Connection requests\<close>

record rdma_cr =
  cr_flag :: u32
  cr_qp_type :: u32
  cr_src_lid :: u16
  cr_pad :: u16
  cr_src_qpn :: u32
  cr_dst_qpn :: u32
  cr_rkey :: u32
  cr_raddr :: u64
  cr_snd_psn :: u32
  cr_src_qkey :: u32

record rem_info =
  ri_raddr :: u64
  ri_rkey :: u32
  ri_dlid :: u16
  ri_start_off :: nat
  ri_sum :: nat
  ri_sync_flag :: u8

record rdma_resc =
  rs_ctx :: ibv_context
  rs_num_mr :: nat
  rs_num_cq :: nat
  rs_num_qp :: nat
  rs_num_rem :: nat
  rs_mr :: "ibv_mr list"
  rs_cq :: "ibv_cq list"
  rs_qp :: "ibv_qp list"
  rs_rinfo :: "rem_info list"
  rs_desc :: "cpl_desc list"
  rs_cpu_id :: u32

abbreviation (input) "CR_TYPE_NULL \<equiv> (0 :: u32)"
abbreviation (input) "CR_TYPE_SYNC \<equiv> (0x20 :: u32)"
abbreviation (input) "MAX_CPL_NUM \<equiv> (100 :: nat)"

definition enc_cr :: "rdma_cr \<Rightarrow> u8 list" where
  "enc_cr c = le_enc (cr_flag c) @ le_enc (cr_qp_type c) @ le_enc (cr_src_lid c) @ le_enc (cr_pad c) @
     le_enc (cr_src_qpn c) @ le_enc (cr_dst_qpn c) @ le_enc (cr_rkey c) @ le_enc (cr_raddr c) @
     le_enc (cr_snd_psn c) @ le_enc (cr_src_qkey c)"

definition dec_cr :: "u8 list \<Rightarrow> rdma_cr" where
  "dec_cr bs =
     \<lparr>cr_flag = le_dec (slice 0 4 bs), cr_qp_type = le_dec (slice 4 4 bs), cr_src_lid = le_dec (slice 8 2 bs),
      cr_pad = le_dec (slice 10 2 bs), cr_src_qpn = le_dec (slice 12 4 bs), cr_dst_qpn = le_dec (slice 16 4 bs),
      cr_rkey = le_dec (slice 20 4 bs), cr_raddr = le_dec (slice 24 8 bs), cr_snd_psn = le_dec (slice 32 4 bs),
      cr_src_qkey = le_dec (slice 36 4 bs)\<rparr>"

text \<open>The largest number of requests sent at a time; the subtraction is of unsigned numbers.\<close>

definition SND_WR_MAX :: "u32 \<Rightarrow> u32" where
  "SND_WR_MAX num_client = (let m = RCV_WR_MAX div num_client - 1 in if m < 25 then m else 25)"

section \<open>Posting\<close>

definition recv_off_next :: "u32 \<Rightarrow> u32" where
  "recv_off_next off = (if (ucast (off + 40) :: u64) + 40 > ucast RCV_WR_MAX * 40 then 0 else off + 40)"

fun recv_wqes :: "nat \<Rightarrow> nat \<Rightarrow> (nat \<Rightarrow> ibv_wqe) \<Rightarrow> ibv_context \<Rightarrow> ibv_wqe list \<times> ibv_context" where
  "recv_wqes 0 i mem ctx = ([], ctx)"
| "recv_wqes (Suc n) i mem ctx =
     (if cm_rcv_num ctx < RCV_WR_MAX
      then let w = (mem i)\<lparr>wq_length := 40, wq_mr := cm_mr ctx, wq_offset := cm_rcv_posted_off ctx, wq_trans_type := IBV_TYPE_RECV\<rparr>;
               r = recv_wqes n (i + 1) mem
                     (ctx\<lparr>cm_rcv_num := cm_rcv_num ctx + 1, cm_rcv_posted_off := recv_off_next (cm_rcv_posted_off ctx)\<rparr>)
           in (w # fst r, snd r)
      else ([], ctx))"

definition cm_post_recv :: "(nat \<Rightarrow> ibv_wqe) \<Rightarrow> nat \<Rightarrow> ibv_context \<Rightarrow> host \<Rightarrow> (nat \<times> ibv_context \<times> host) res" where
  "cm_post_recv mem wr_num ctx h =
     (let r = recv_wqes wr_num 0 mem ctx
      in ebind (ibv_post_recv (fst r) (cm_qp (snd r)) (of_nat (length (fst r))) h) (\<lambda>q.
         Inr (length (fst r), (snd r)\<lparr>cm_qp := fst q\<rparr>, snd q)))"

definition send_off_next :: "u32 \<Rightarrow> u32 \<Rightarrow> u32" where
  "send_off_next num_client off =
     (if (ucast (off + 40) :: u64) + 40 > ucast SND_WR_BASE + ucast (SND_WR_MAX num_client) * 40 then SND_WR_BASE else off + 40)"

text \<open>The flag of the work request is not set: it is what the memory held.\<close>

fun send_wqes ::
  "u32 \<Rightarrow> u16 \<Rightarrow> nat \<Rightarrow> (nat \<Rightarrow> ibv_wqe) \<Rightarrow> rdma_cr list \<Rightarrow> ibv_context \<Rightarrow> host \<Rightarrow> (ibv_wqe list \<times> ibv_context \<times> host) res" where
  "send_wqes num_client dlid i mem [] ctx h = Inr ([], ctx, h)"
| "send_wqes num_client dlid i mem (cr # crs) ctx h =
     ebind (writeBlob (ib_addr (cm_mr ctx) + ucast (cm_snd_off ctx)) (enc_cr cr) h) (\<lambda>h1.
       let w = (mem i)\<lparr>wq_length := 40, wq_mr := cm_mr ctx, wq_offset := cm_snd_off ctx, wq_trans_type := IBV_TYPE_SEND,
                 wq_w0 := ucast dlid, wq_w1 := QKEY_CM, wq_w2 := iqp_num (cm_qp ctx)\<rparr>
       in ebind (send_wqes num_client dlid (i + 1) mem crs
                   (ctx\<lparr>cm_snd_off := send_off_next num_client (cm_snd_off ctx)\<rparr>) h1) (\<lambda>r.
          Inr (w # fst r, snd r)))"

definition cm_post_send ::
  "u32 \<Rightarrow> (nat \<Rightarrow> ibv_wqe) \<Rightarrow> rdma_cr list \<Rightarrow> u32 \<Rightarrow> u16 \<Rightarrow> ibv_context \<Rightarrow> host \<Rightarrow> (ibv_context \<times> host) res" where
  "cm_post_send num_client mem cr_info wr_num dlid ctx h =
     ensure (num_client \<noteq> 0) (Undefined ''division by zero'')
     (ensure (wr_num \<le> SND_WR_MAX num_client) (Assert_failed ''wr_num < SND_WR_MAX'')
     (ensure (unat wr_num \<le> length cr_info) (Undefined ''cr_info[] index'')
       (ebind (send_wqes num_client dlid 0 mem (take (unat wr_num) cr_info) ctx h) (\<lambda>r.
        ebind (ibv_post_send (fst (snd r)) (fst r) (cm_qp (fst (snd r))) (ucast wr_num) (snd (snd r))) (\<lambda>q.
        Inr ((fst (snd r))\<lparr>cm_qp := fst q\<rparr>, snd q))))))"

section \<open>Initialisation\<close>

fun reg_mrs :: "(rnic \<Rightarrow> rnic res) \<Rightarrow> ibv_mr_init_attr \<Rightarrow> u64 list \<Rightarrow> mr_args \<Rightarrow> host \<Rightarrow> (ibv_mr list \<times> host) wres" where
  "reg_mrs dev attr [] fresh h = Some (Inr ([], h))"
| "reg_mrs dev attr (a # as) fresh h =
     wbind (ibv_reg_mr dev attr a fresh h) (\<lambda>r.
     wbind (reg_mrs dev attr as fresh (snd r)) (\<lambda>q. Some (Inr (fst r # fst q, snd q))))"

fun create_cqs :: "(rnic \<Rightarrow> rnic res) \<Rightarrow> u64 list \<Rightarrow> u32 \<Rightarrow> mr_args \<Rightarrow> host \<Rightarrow> (ibv_cq list \<times> host) wres" where
  "create_cqs dev [] junk_num fresh h = Some (Inr ([], h))"
| "create_cqs dev (a # as) junk_num fresh h =
     wbind (ibv_create_cq dev 12 a junk_num fresh h) (\<lambda>r.
     wbind (create_cqs dev as junk_num fresh (snd r)) (\<lambda>q. Some (Inr (fst r # fst q, snd q))))"

text \<open>What the allocations of the initialisation return: addresses of aligned blocks and old contents.\<close>

record heap_blocks =
  hb_open :: "u64 \<times> u64 \<times> u64 \<times> u64"
  hb_mr :: "u64 list"
  hb_cq :: "u64 list"
  hb_qp :: "u64 list"
  hb_cq_num :: u32
  hb_mr_args :: mr_args
  hb_qp_args :: kfd_ioctl_alloc_qp_args
  hb_qps :: "nat \<Rightarrow> ibv_qp"
  hb_wqe :: "nat \<Rightarrow> ibv_wqe"
  hb_rinfo :: "nat \<Rightarrow> rem_info"
  hb_desc :: "nat \<Rightarrow> cpl_desc"

definition init_rinfo :: "nat \<Rightarrow> nat \<Rightarrow> (nat \<Rightarrow> rem_info) \<Rightarrow> rem_info list" where
  "init_rinfo num_qp num_rem mem =
     map (\<lambda>i. (mem i)\<lparr>ri_sum := 0, ri_start_off := i * num_qp, ri_sync_flag := 0\<rparr>) [0..<num_rem]"

definition rdma_resc_init ::
  "(rnic \<Rightarrow> rnic res) \<Rightarrow> u8 \<Rightarrow> heap_blocks \<Rightarrow> nat \<Rightarrow> nat \<Rightarrow> nat \<Rightarrow> u16 \<Rightarrow> nat \<Rightarrow> host \<Rightarrow> (rdma_resc \<times> host) wres" where
  "rdma_resc_init dev contextId b num_mr num_cq num_qp llid num_rem h =
     wbind (ibv_open_device dev contextId llid (hb_open b) (hb_cq_num b) (hb_mr_args b) (hb_qp_args b) h) (\<lambda>r1.
     wbind (Some (cm_post_recv (hb_wqe b) (unat RCV_WR_MAX) (fst r1) (snd r1))) (\<lambda>r2.
     wbind (Some (ensure (num_mr \<le> length (hb_mr b) \<and> num_cq \<le> length (hb_cq b)) (Undefined ''memalign'') (Inr ()))) (\<lambda>_.
     wbind (reg_mrs dev \<lparr>mra_flag = MR_FLAG_RD OR MR_FLAG_WR OR MR_FLAG_LOCAL OR MR_FLAG_REMOTE, mra_length = 4096\<rparr>
              (take num_mr (hb_mr b)) (hb_mr_args b) (snd (snd r2))) (\<lambda>r3.
     wbind (create_cqs dev (take num_cq (hb_cq b)) (hb_cq_num b) (hb_mr_args b) (snd r3)) (\<lambda>r4.
     wbind (ibv_create_batch_qp dev 12 (num_qp * num_rem) (hb_qp b) (hb_qps b) (hb_mr_args b) (hb_qp_args b) (snd r4)) (\<lambda>r5.
     Some (Inr (\<lparr>rs_ctx = fst (snd r2), rs_num_mr = num_mr, rs_num_cq = num_cq, rs_num_qp = num_qp, rs_num_rem = num_rem,
       rs_mr = fst r3, rs_cq = fst r4, rs_qp = fst r5, rs_rinfo = init_rinfo num_qp num_rem (hb_rinfo b),
       rs_desc = map (hb_desc b) [0..<MAX_CPL_NUM], rs_cpu_id = 0\<rparr>, snd r5))))))))"

section \<open>Listening\<close>

text \<open>At most ten polls; the device goes on between them.\<close>

fun listen_poll :: "(rnic \<Rightarrow> rnic res) \<Rightarrow> nat \<Rightarrow> ibv_cq \<Rightarrow> host \<Rightarrow> (cpl_desc list \<times> ibv_cq \<times> host) res" where
  "listen_poll dev 0 cq h = Inr ([], cq, h)"
| "listen_poll dev (Suc n) cq h =
     ebind (ibv_poll_cpl MAX_CPL_NUM cq h) (\<lambda>r.
       if fst r \<noteq> [] then Inr r
       else ebind (dev (snd (snd (snd r)))) (\<lambda>s. listen_poll dev n (fst (snd r)) (fst (snd (snd r)), s)))"

fun mark_sync :: "u16 \<Rightarrow> rem_info list \<Rightarrow> rem_info list" where
  "mark_sync lid [] = []"
| "mark_sync lid (r # rs) = (if lid = ri_dlid r then r\<lparr>ri_sync_flag := 1\<rparr> # rs else r # mark_sync lid rs)"

fun listen_crs :: "nat \<Rightarrow> rem_info list \<Rightarrow> ibv_context \<Rightarrow> host \<Rightarrow> (rdma_cr list \<times> rem_info list \<times> ibv_context \<times> host) res" where
  "listen_crs 0 ri ctx h = Inr ([], ri, ctx, h)"
| "listen_crs (Suc n) ri ctx h =
     (let va = ib_addr (cm_mr ctx) + ucast (cm_rcv_acked_off ctx)
      in ebind (load va 40 h) (\<lambda>bs.
           let cr = dec_cr bs; sync = (cr_flag cr = CR_TYPE_SYNC)
           in ebind (writeBlob va (le_enc CR_TYPE_NULL) h) (\<lambda>h1.
              ebind (listen_crs n (if sync then mark_sync (cr_src_lid cr) ri else ri)
                       (ctx\<lparr>cm_rcv_num := cm_rcv_num ctx - 1, cm_rcv_acked_off := recv_off_next (cm_rcv_acked_off ctx)\<rparr>) h1) (\<lambda>r.
              Inr (if sync then fst r else cr # fst r, snd r)))))"

definition is_recv :: "cpl_desc \<Rightarrow> bool" where
  "is_recv d \<longleftrightarrow> cpl_trans_type d = IBV_TYPE_RECV"

definition rdma_listen ::
  "(rnic \<Rightarrow> rnic res) \<Rightarrow> (nat \<Rightarrow> ibv_wqe) \<Rightarrow> rdma_resc \<Rightarrow> host \<Rightarrow> (rdma_cr list \<times> rdma_resc \<times> host) res" where
  "rdma_listen dev mem resc h =
     ebind (listen_poll dev 10 (cm_cq (rs_ctx resc)) h) (\<lambda>r1.
     ebind (listen_crs (length (filter is_recv (fst r1))) (rs_rinfo resc) ((rs_ctx resc)\<lparr>cm_cq := fst (snd r1)\<rparr>) (snd (snd r1))) (\<lambda>r2.
     case r2 of (crs, ri, ctx, h2) \<Rightarrow>
       let resc1 = resc\<lparr>rs_rinfo := ri, rs_desc := fst r1 @ drop (length (fst r1)) (rs_desc resc)\<rparr>
       in if cm_rcv_num ctx < RCV_WR_MAX
          then ebind (cm_post_recv mem (unat RCV_WR_MAX) ctx h2) (\<lambda>r3.
               Inr (crs, resc1\<lparr>rs_ctx := fst (snd r3)\<rparr>, snd (snd r3)))
          else Inr (crs, resc1\<lparr>rs_ctx := ctx\<rparr>, h2)))"

section \<open>Connecting\<close>

text \<open>The number of requests, at most \<open>m\<close>, that go to the same destination.\<close>

fun same_dest :: "nat \<Rightarrow> u16 \<Rightarrow> u16 list \<Rightarrow> nat" where
  "same_dest (Suc m) d (x # xs) = (if x = d then Suc (same_dest m d xs) else 0)"
| "same_dest _ d _ = 0"

text \<open>The requests that are left and their destinations.\<close>

partial_function (option) rdma_connect ::
  "u32 \<Rightarrow> (nat \<Rightarrow> ibv_wqe) \<Rightarrow> (rdma_cr \<times> u16) list \<Rightarrow> ibv_context \<Rightarrow> host \<Rightarrow> (ibv_context \<times> host) wres" where
  "rdma_connect num_client mem reqs ctx h =
     (if reqs = [] then Some (Inr (ctx, h))
      else let cnt = same_dest (unat (SND_WR_MAX num_client)) (snd (hd reqs)) (map snd reqs)
           in case cm_post_send num_client mem (map fst reqs) (of_nat cnt) (snd (hd reqs)) ctx h of
                Inl e \<Rightarrow> Some (Inl e)
              | Inr r \<Rightarrow> rdma_connect num_client mem (drop cnt reqs) (fst r) (snd r))"

section \<open>Waiting for completions\<close>

partial_function (option) cm_poll_wait ::
  "(rnic \<Rightarrow> rnic res) \<Rightarrow> bool \<Rightarrow> ibv_cq \<Rightarrow> host \<Rightarrow> (cpl_desc list \<times> ibv_cq \<times> host) wres" where
  "cm_poll_wait dev wait cq h =
     (case ebind (if wait then trans_wait h else Inr h) (ibv_poll_cpl MAX_CPL_NUM cq) of
        Inl e \<Rightarrow> Some (Inl e)
      | Inr r \<Rightarrow>
          if fst r \<noteq> [] then Some (Inr r)
          else (case dev (snd (snd (snd r))) of
                  Inl e \<Rightarrow> Some (Inl e)
                | Inr s \<Rightarrow> cm_poll_wait dev wait (fst (snd r)) (fst (snd (snd r)), s)))"

text \<open>The receive completions are moved to the front of the array they are in.\<close>

fun compact :: "nat \<Rightarrow> nat \<Rightarrow> nat \<Rightarrow> cpl_desc list \<Rightarrow> nat \<times> cpl_desc list" where
  "compact 0 j cnt a = (cnt, a)"
| "compact (Suc n) j cnt a =
     (if is_recv (a ! j) then compact n (j + 1) (cnt + 1) (a[cnt := a ! j]) else compact n (j + 1) cnt a)"

definition rdma_poll_cm_rcv_cpl ::
  "(rnic \<Rightarrow> rnic res) \<Rightarrow> rdma_resc \<Rightarrow> host \<Rightarrow> (nat \<times> rdma_resc \<times> host) wres" where
  "rdma_poll_cm_rcv_cpl dev resc h =
     wbind (cm_poll_wait dev True (cm_cq (rs_ctx resc)) h) (\<lambda>r.
       let c = compact (length (fst r)) 0 0 (fst r @ drop (length (fst r)) (rs_desc resc))
       in Some (Inr (fst c, resc\<lparr>rs_ctx := (rs_ctx resc)\<lparr>cm_cq := fst (snd r)\<rparr>, rs_desc := snd c\<rparr>, snd (snd r))))"

section \<open>Synchronisation\<close>

definition sync_cr :: "u16 \<Rightarrow> rdma_cr" where
  "sync_cr lid = \<lparr>cr_flag = CR_TYPE_SYNC, cr_qp_type = 0, cr_src_lid = lid, cr_pad = 0, cr_src_qpn = 0, cr_dst_qpn = 0,
     cr_rkey = 0, cr_raddr = 0, cr_snd_psn = 0, cr_src_qkey = 0\<rparr>"

fun post_syncs :: "u32 \<Rightarrow> (nat \<Rightarrow> ibv_wqe) \<Rightarrow> rdma_cr \<Rightarrow> rem_info list \<Rightarrow> ibv_context \<Rightarrow> host \<Rightarrow> (ibv_context \<times> host) res" where
  "post_syncs num_client mem cr [] ctx h = Inr (ctx, h)"
| "post_syncs num_client mem cr (r # rs) ctx h =
     ebind (cm_post_send num_client mem [cr] 1 (ri_dlid r) ctx h) (\<lambda>q. post_syncs num_client mem cr rs (fst q) (snd q))"

definition post_sync :: "u32 \<Rightarrow> (nat \<Rightarrow> ibv_wqe) \<Rightarrow> rdma_resc \<Rightarrow> host \<Rightarrow> (rdma_resc \<times> host) res" where
  "post_sync num_client mem resc h =
     ebind (post_syncs num_client mem (sync_cr (ctx_lid (rs_ctx resc))) (rs_rinfo resc) (rs_ctx resc) h) (\<lambda>q.
     Inr (resc\<lparr>rs_ctx := fst q\<rparr>, snd q))"

definition count_synced :: "rem_info list \<Rightarrow> nat" where
  "count_synced ri = length (filter (\<lambda>r. ri_sync_flag r = 1) ri)"

text \<open>A request is counted when its sender was not marked yet.\<close>

fun sync_new :: "u16 \<Rightarrow> rem_info list \<Rightarrow> bool" where
  "sync_new lid [] = False"
| "sync_new lid (r # rs) = (if lid = ri_dlid r then ri_sync_flag r = 0 else sync_new lid rs)"

fun mark_new :: "u16 \<Rightarrow> rem_info list \<Rightarrow> rem_info list" where
  "mark_new lid [] = []"
| "mark_new lid (r # rs) =
     (if lid = ri_dlid r then (if ri_sync_flag r = 0 then r\<lparr>ri_sync_flag := 1\<rparr> else r) # rs else r # mark_new lid rs)"

text \<open>The places that are reported first, one behind the other without going around the end.\<close>

fun show_crs :: "nat \<Rightarrow> u64 \<Rightarrow> host \<Rightarrow> unit res" where
  "show_crs 0 va h = Inr ()"
| "show_crs (Suc n) va h = ebind (load va 40 h) (\<lambda>_. show_crs n (va + 40) h)"

text \<open>The result says whether the synchronisation is complete; what has been received behind that stays unread.\<close>

fun sync_crs ::
  "nat \<Rightarrow> nat \<Rightarrow> rem_info list \<Rightarrow> ibv_context \<Rightarrow> host \<Rightarrow> (bool \<times> nat \<times> rem_info list \<times> ibv_context \<times> host) res" where
  "sync_crs 0 polled ri ctx h = Inr (False, polled, ri, ctx, h)"
| "sync_crs (Suc n) polled ri ctx h =
     (let va = ib_addr (cm_mr ctx) + ucast (cm_rcv_acked_off ctx);
          off = cm_rcv_acked_off ctx + 40;
          ctx1 = ctx\<lparr>cm_rcv_num := cm_rcv_num ctx - 1,
                     cm_rcv_acked_off := if (ucast off :: u64) \<ge> ucast RCV_WR_MAX * 40 then 0 else off\<rparr>
      in ebind (load va 40 h) (\<lambda>bs.
           let cr = dec_cr bs; sync = (cr_flag cr = CR_TYPE_SYNC);
               ri1 = (if sync then mark_new (cr_src_lid cr) ri else ri);
               polled1 = (if sync \<and> sync_new (cr_src_lid cr) ri then polled + 1 else polled)
           in ebind (writeBlob va (le_enc CR_TYPE_NULL) h) (\<lambda>h1.
              if polled1 = length ri1
              then Inr (True, polled1, map (\<lambda>r. r\<lparr>ri_sync_flag := 0\<rparr>) ri1, ctx1, h1)
              else sync_crs n polled1 ri1 ctx1 h1)))"

partial_function (option) poll_sync_loop ::
  "(rnic \<Rightarrow> rnic res) \<Rightarrow> (nat \<Rightarrow> ibv_wqe) \<Rightarrow> nat \<Rightarrow> rdma_resc \<Rightarrow> host \<Rightarrow> (rdma_resc \<times> host) wres" where
  "poll_sync_loop dev mem polled resc h =
     (case (if cm_rcv_num (rs_ctx resc) < RCV_WR_MAX div 2
            then ebind (cm_post_recv mem (unat RCV_WR_MAX) (rs_ctx resc) h) (\<lambda>r. Inr (snd r))
            else Inr (rs_ctx resc, h)) of
        Inl e \<Rightarrow> Some (Inl e)
      | Inr q \<Rightarrow>
          (case cm_poll_wait dev False (cm_cq (fst q)) (snd q) of
             None \<Rightarrow> None
           | Some (Inl e) \<Rightarrow> Some (Inl e)
           | Some (Inr r) \<Rightarrow>
               let ctx1 = (fst q)\<lparr>cm_cq := fst (snd r)\<rparr>;
                   cnt = length (filter is_recv (fst r))
               in case ebind (show_crs cnt (ib_addr (cm_mr ctx1) + ucast (cm_rcv_acked_off ctx1)) (snd (snd r)))
                         (\<lambda>_. sync_crs cnt polled (rs_rinfo resc) ctx1 (snd (snd r))) of
                    Inl e \<Rightarrow> Some (Inl e)
                  | Inr (complete, polled1, ri, ctx2, h2) \<Rightarrow>
                      let resc1 = resc\<lparr>rs_ctx := ctx2, rs_rinfo := ri, rs_desc := fst r @ drop (length (fst r)) (rs_desc resc)\<rparr>
                      in if complete then Some (Inr (resc1, h2)) else poll_sync_loop dev mem polled1 resc1 h2))"

definition poll_sync :: "(rnic \<Rightarrow> rnic res) \<Rightarrow> (nat \<Rightarrow> ibv_wqe) \<Rightarrow> rdma_resc \<Rightarrow> host \<Rightarrow> (rdma_resc \<times> host) wres" where
  "poll_sync dev mem resc h =
     (if count_synced (rs_rinfo resc) = length (rs_rinfo resc) then Some (Inr (resc, h))
      else poll_sync_loop dev mem (count_synced (rs_rinfo resc)) resc h)"

definition rdma_recv_sync ::
  "(rnic \<Rightarrow> rnic res) \<Rightarrow> u32 \<Rightarrow> (nat \<Rightarrow> ibv_wqe) \<Rightarrow> rdma_resc \<Rightarrow> host \<Rightarrow> (rdma_resc \<times> host) wres" where
  "rdma_recv_sync dev num_client mem resc h =
     wbind (poll_sync dev mem resc h) (\<lambda>r. Some (post_sync num_client mem (fst r) (snd r)))"

definition rdma_send_sync ::
  "(rnic \<Rightarrow> rnic res) \<Rightarrow> u32 \<Rightarrow> (nat \<Rightarrow> ibv_wqe) \<Rightarrow> rdma_resc \<Rightarrow> host \<Rightarrow> (rdma_resc \<times> host) wres" where
  "rdma_send_sync dev num_client mem resc h =
     wbind (Some (post_sync num_client mem resc h)) (\<lambda>r. poll_sync dev mem (fst r) (snd r))"

end
