(* ===== verification/Connect.thy ===== *)
theory Connect
  imports Cm SendRing
begin

text \<open>
  What the connection library guarantees: the places of its page, the batches in which requests are
  sent, and the synchronisation of the programs.
\<close>

section \<open>Places of the page\<close>

interpretation crc: codec enc_cr dec_cr 40 "\<lambda>_. True"
  by unfold_locales (simp_all add: enc_cr_def dec_cr_def)

lemma recv_off_next_ring:
  assumes "j < 70"
  shows "recv_off_next (of_nat (40 * j)) = of_nat (40 * ((j + 1) mod 70))"
proof -
  have e: "of_nat (40 * j) + (40 :: u32) = of_nat (40 * (j + 1))" by simp
  have "unat ((ucast (of_nat (40 * (j + 1)) :: u32) :: u64) + 40) = 40 * j + 80"
    using assms by (simp add: unat_word_ariths unsigned_ucast_eq unsigned_of_nat take_bit_nat_eq_self del: of_nat_mult of_nat_Suc)
  then have "(ucast (of_nat (40 * j) + 40 :: u32) :: u64) + 40 > ucast RCV_WR_MAX * 40 \<longleftrightarrow> 40 * j + 80 > 2800"
    unfolding e by (simp add: word_less_nat_alt del: of_nat_mult of_nat_Suc)
  then show ?thesis using assms unfolding recv_off_next_def e
    by (cases "j = 69") (simp_all del: of_nat_mult of_nat_Suc)
qed

text \<open>The other test for the end of the receive places agrees with it.\<close>

lemma recv_off_next_alt:
  assumes "j < 70"
  shows "(if (ucast (of_nat (40 * j) + 40 :: u32) :: u64) \<ge> ucast RCV_WR_MAX * 40 then 0 else of_nat (40 * j) + 40) =
    (of_nat (40 * ((j + 1) mod 70)) :: u32)"
proof -
  have e: "of_nat (40 * j) + (40 :: u32) = of_nat (40 * (j + 1))" by simp
  have "unat (ucast (of_nat m :: u32) :: u64) = m" if "m < 4000" for m
    using that by (simp add: unsigned_ucast_eq unsigned_of_nat take_bit_nat_eq_self)
  from this [of "40 * (j + 1)"] have "unat (ucast (of_nat (40 * (j + 1)) :: u32) :: u64) = 40 * (j + 1)"
    using assms by (simp del: of_nat_mult of_nat_Suc of_nat_add)
  then have "(ucast (of_nat (40 * j) + 40 :: u32) :: u64) \<ge> ucast RCV_WR_MAX * 40 \<longleftrightarrow> 40 * (j + 1) \<ge> 2800"
    unfolding e by (simp add: word_le_nat_alt del: of_nat_mult of_nat_Suc)
  then show ?thesis using assms unfolding e
    by (cases "j = 69") (simp_all del: of_nat_mult of_nat_Suc)
qed

lemma SND_WR_MAX_le: "SND_WR_MAX n \<le> 25"
  by (auto simp: SND_WR_MAX_def Let_def intro: less_imp_le)

lemma send_off_next_ring:
  assumes "k < max 1 (unat (SND_WR_MAX n))"
  shows "\<exists>k' < max 1 (unat (SND_WR_MAX n)). send_off_next n (of_nat (3000 + 40 * k)) = of_nat (3000 + 40 * k')"
proof -
  let ?m = "SND_WR_MAX n"
  have m: "unat ?m \<le> 25" using SND_WR_MAX_le [of n] by (simp add: word_le_nat_alt)
  have e: "of_nat (3000 + 40 * k) + (40 :: u32) = of_nat (3000 + 40 * (k + 1))" by simp
  have "unat ((ucast (of_nat (3000 + 40 * (k + 1)) :: u32) :: u64) + 40) = 3000 + 40 * (k + 2)"
    using assms m by (simp add: unat_word_ariths unsigned_ucast_eq unsigned_of_nat take_bit_nat_eq_self del: of_nat_mult of_nat_Suc of_nat_add)
  moreover have "unat (ucast SND_WR_BASE + ucast ?m * 40 :: u64) = 3000 + 40 * unat ?m"
    using m by (simp add: unat_word_ariths unsigned_ucast_eq take_bit_nat_eq_self)
  ultimately have "(ucast (of_nat (3000 + 40 * k) + 40 :: u32) :: u64) + 40 > ucast SND_WR_BASE + ucast ?m * 40 \<longleftrightarrow> k + 2 > unat ?m"
    unfolding e by (auto simp: word_less_nat_alt simp del: of_nat_mult of_nat_Suc of_nat_add)
  then show ?thesis unfolding send_off_next_def e
    by (cases "k + 2 > unat ?m") (auto intro: exI [of _ "k + 1"] exI [of _ 0] simp del: of_nat_mult of_nat_Suc of_nat_add)
qed

text \<open>
  The page is in order: the receive places between the one to be read next and the one to be posted
  next are the outstanding ones, and the next send place is one of the sending area.
\<close>

definition cm_ok :: "u32 \<Rightarrow> ibv_context \<Rightarrow> bool" where
  "cm_ok n ctx \<longleftrightarrow> unat (cm_rcv_num ctx) \<le> 70 \<and>
     (\<exists>j<70. cm_rcv_acked_off ctx = of_nat (40 * j) \<and> cm_rcv_posted_off ctx = of_nat (40 * ((j + unat (cm_rcv_num ctx)) mod 70))) \<and>
     (\<exists>k < max 1 (unat (SND_WR_MAX n)). cm_snd_off ctx = of_nat (3000 + 40 * k))"

text \<open>Receive requests take the places behind the outstanding ones, as long as there are any.\<close>

lemma recv_wqes_ok:
  assumes "cm_ok n ctx"
  shows "cm_ok n (snd (recv_wqes m i mem ctx)) \<and> length (fst (recv_wqes m i mem ctx)) = min m (70 - unat (cm_rcv_num ctx)) \<and>
    cm_rcv_acked_off (snd (recv_wqes m i mem ctx)) = cm_rcv_acked_off ctx"
  using assms
proof (induction m arbitrary: i ctx)
  case (Suc m)
  show ?case
  proof (cases "cm_rcv_num ctx < 70")
    case True
    let ?ctx = "ctx\<lparr>cm_rcv_num := cm_rcv_num ctx + 1, cm_rcv_posted_off := recv_off_next (cm_rcv_posted_off ctx)\<rparr>"
    have lt: "unat (cm_rcv_num ctx) < 70" using True by (simp add: word_less_nat_alt)
    have u: "unat (cm_rcv_num ctx + 1) = unat (cm_rcv_num ctx) + 1" using lt by (simp add: unat_word_ariths)
    obtain j where j: "j < 70" "cm_rcv_acked_off ctx = of_nat (40 * j)"
        "cm_rcv_posted_off ctx = of_nat (40 * ((j + unat (cm_rcv_num ctx)) mod 70))"
      using Suc.prems unfolding cm_ok_def by blast
    have "recv_off_next (cm_rcv_posted_off ctx) = of_nat (40 * ((j + (unat (cm_rcv_num ctx) + 1)) mod 70))"
      unfolding j(3) by (subst recv_off_next_ring) (simp_all add: mod_Suc_eq)
    then have "cm_ok n ?ctx" using Suc.prems j(1,2) lt u unfolding cm_ok_def by auto
    from Suc.IH [OF this] show ?thesis using True u lt by (auto simp: Let_def)
  next
    case False
    then have "unat (cm_rcv_num ctx) \<ge> 70" by (simp add: word_less_nat_alt)
    then show ?thesis using False Suc.prems by simp
  qed
qed simp

lemma cm_ok_qp [simp]: "cm_ok n (ctx\<lparr>cm_qp := q\<rparr>) = cm_ok n ctx" "cm_ok n (ctx\<lparr>cm_cq := c\<rparr>) = cm_ok n ctx"
  by (simp_all add: cm_ok_def)

lemma send_wqes_ok:
  "send_wqes n dlid i mem crs ctx h = Inr (ws, ctx', h') \<Longrightarrow> cm_ok n ctx \<Longrightarrow> cm_ok n ctx'"
proof (induction crs arbitrary: i ctx h ws)
  case (Cons cr crs)
  have "cm_ok n (ctx\<lparr>cm_snd_off := send_off_next n (cm_snd_off ctx)\<rparr>)"
    using Cons.prems(2) send_off_next_ring [of _ n] unfolding cm_ok_def by fastforce
  then show ?case using Cons.prems(1) Cons.IH by (auto simp: ebind_Inr Let_def)
qed simp

text \<open>Reading one place of the outstanding ones.\<close>

lemma acked_ok:
  assumes "cm_ok n ctx" "cm_rcv_num ctx \<noteq> 0"
  shows "cm_ok n (ctx\<lparr>cm_rcv_num := cm_rcv_num ctx - 1, cm_rcv_acked_off := recv_off_next (cm_rcv_acked_off ctx)\<rparr>)"
    "(if (ucast (cm_rcv_acked_off ctx + 40) :: u64) \<ge> ucast RCV_WR_MAX * 40 then 0 else cm_rcv_acked_off ctx + 40) =
      recv_off_next (cm_rcv_acked_off ctx)"
    "unat (cm_rcv_num ctx - 1) = unat (cm_rcv_num ctx) - 1"
proof -
  obtain j where j: "j < 70" "cm_rcv_acked_off ctx = of_nat (40 * j)"
      "cm_rcv_posted_off ctx = of_nat (40 * ((j + unat (cm_rcv_num ctx)) mod 70))"
    using assms(1) unfolding cm_ok_def by blast
  show u: "unat (cm_rcv_num ctx - 1) = unat (cm_rcv_num ctx) - 1" using assms(2) by (rule unat_minus_one)
  have z: "0 < unat (cm_rcv_num ctx)" using assms(2) by (simp add: unat_gt_0)
  have "((j + 1) mod 70 + (unat (cm_rcv_num ctx) - 1)) mod 70 = (j + 1 + (unat (cm_rcv_num ctx) - 1)) mod 70" by (rule mod_add_left_eq)
  then have "((j + 1) mod 70 + (unat (cm_rcv_num ctx) - 1)) mod 70 = (j + unat (cm_rcv_num ctx)) mod 70" using z by simp
  then show "cm_ok n (ctx\<lparr>cm_rcv_num := cm_rcv_num ctx - 1, cm_rcv_acked_off := recv_off_next (cm_rcv_acked_off ctx)\<rparr>)"
    using assms(1) j u z recv_off_next_ring [OF j(1)] unfolding cm_ok_def
    by (auto intro!: exI [of _ "(j + 1) mod 70"] simp del: of_nat_mult)
  show "(if (ucast (cm_rcv_acked_off ctx + 40) :: u64) \<ge> ucast RCV_WR_MAX * 40 then 0 else cm_rcv_acked_off ctx + 40) =
      recv_off_next (cm_rcv_acked_off ctx)"
    unfolding j(2) by (simp only: recv_off_next_ring [OF j(1)] recv_off_next_alt [OF j(1)])
qed

lemma listen_crs_ok:
  "listen_crs m ri ctx h = Inr (crs, ri', ctx', h') \<Longrightarrow> cm_ok n ctx \<Longrightarrow> m \<le> unat (cm_rcv_num ctx) \<Longrightarrow> cm_ok n ctx'"
proof (induction m arbitrary: ri ctx h crs)
  case (Suc m)
  have nz: "cm_rcv_num ctx \<noteq> 0" using Suc.prems(3) by auto
  note a = acked_ok [OF Suc.prems(2) nz]
  show ?case using Suc.prems(1,3) Suc.IH a(1,3) by (auto simp: ebind_Inr Let_def)
qed simp

lemma sync_crs_ok:
  "sync_crs m polled ri ctx h = Inr (c, polled', ri', ctx', h') \<Longrightarrow> cm_ok n ctx \<Longrightarrow> m \<le> unat (cm_rcv_num ctx) \<Longrightarrow> cm_ok n ctx'"
proof (induction m arbitrary: ri ctx h polled)
  case (Suc m)
  have nz: "cm_rcv_num ctx \<noteq> 0" using Suc.prems(3) by auto
  note a = acked_ok [OF Suc.prems(2) nz]
  let ?ctx = "ctx\<lparr>cm_rcv_num := cm_rcv_num ctx - 1, cm_rcv_acked_off := recv_off_next (cm_rcv_acked_off ctx)\<rparr>"
  obtain bs h1 p1 ri1 where "(if p1 = length ri1 then Inr (True, p1, map (\<lambda>r. r\<lparr>ri_sync_flag := 0\<rparr>) ri1, ?ctx, h1)
      else sync_crs m p1 ri1 ?ctx h1) = Inr (c, polled', ri', ctx', h')"
    using Suc.prems(1) unfolding sync_crs.simps Let_def a(2) ebind_Inr by blast
  then show ?case using Suc.IH [of p1 ri1 ?ctx h1] Suc.prems(3) a(1,3) by (cases "p1 = length ri1") auto
qed simp

lemma wbind_Some: "wbind w f = Some (Inr y) \<longleftrightarrow> (\<exists>x. w = Some (Inr x) \<and> f x = Some (Inr y))"
  by (cases w) (auto simp: wbind_def split: sum.splits)

lemma open_device_ok: "ibv_open_device dev cid lid addrs jn fresh qa h = Some (Inr (ctx, h')) \<Longrightarrow> cm_ok n ctx"
  unfolding ibv_open_device_def by (auto simp: wbind_Some cm_ok_def Let_def split: prod.splits intro!: exI [of _ 0])

lemma cm_ok_areas:
  assumes "cm_ok n ctx"
  shows "3000 \<le> unat (cm_snd_off ctx) \<and> unat (cm_snd_off ctx) + 40 \<le> 4000 \<and> unat (cm_rcv_acked_off ctx) + 40 \<le> 2800 \<and>
    unat (cm_rcv_posted_off ctx) + 40 \<le> 2800"
proof -
  obtain j k where jk: "j < 70" "cm_rcv_acked_off ctx = of_nat (40 * j)"
      "cm_rcv_posted_off ctx = of_nat (40 * ((j + unat (cm_rcv_num ctx)) mod 70))"
      "k < max 1 (unat (SND_WR_MAX n))" "cm_snd_off ctx = of_nat (3000 + 40 * k)"
    using assms unfolding cm_ok_def by blast
  have k: "k < 25" using jk(4) SND_WR_MAX_le [of n] by (simp add: word_le_nat_alt)
  have u: "unat (of_nat m :: u32) = m" if "m < 4096" for m using that by (simp add: unat_of_nat)
  have "(j + unat (cm_rcv_num ctx)) mod 70 < 70" by simp
  then show ?thesis using jk(1) k u [of "40 * j"] u [of "40 * ((j + unat (cm_rcv_num ctx)) mod 70)"] u [of "3000 + 40 * k"]
    unfolding jk(2,3,5) by (simp del: of_nat_mult of_nat_add)
qed

section \<open>Batches\<close>

text \<open>The requests cut into runs with one destination, none longer than \<open>m\<close>.\<close>

lemma same_dest_pos: "0 < m \<Longrightarrow> 0 < same_dest m x (x # xs)"
  by (cases m) auto

function batches :: "nat \<Rightarrow> (rdma_cr \<times> u16) list \<Rightarrow> (rdma_cr \<times> u16) list list" where
  "batches m reqs =
     (if reqs = [] \<or> m = 0 then []
      else let c = same_dest m (snd (hd reqs)) (map snd reqs) in take c reqs # batches m (drop c reqs))"
  by pat_completeness auto
termination
proof (relation "measure (\<lambda>(m, reqs). length reqs)")
  fix m and reqs :: "(rdma_cr \<times> u16) list" and c
  assume "\<not> (reqs = [] \<or> m = 0)" "c = same_dest m (snd (hd reqs)) (map snd reqs)"
  then show "((m, drop c reqs), (m, reqs)) \<in> measure (\<lambda>(m, reqs). length reqs)"
    using same_dest_pos [of m] by (cases reqs) auto
qed simp

declare batches.simps [simp del]

fun post_batches ::
  "u32 \<Rightarrow> (nat \<Rightarrow> ibv_wqe) \<Rightarrow> (rdma_cr \<times> u16) list list \<Rightarrow> ibv_context \<Rightarrow> host \<Rightarrow> (ibv_context \<times> host) res" where
  "post_batches n mem [] ctx h = Inr (ctx, h)"
| "post_batches n mem (b # bs) ctx h =
     ebind (cm_post_send n mem (map fst b) (of_nat (length b)) (snd (hd b)) ctx h) (\<lambda>r. post_batches n mem bs (fst r) (snd r))"

lemma same_dest_le: "same_dest m x xs \<le> m" "same_dest m x xs \<le> length xs"
  by (induction m x xs rule: same_dest.induct) auto

lemma same_dest_all: "y \<in> set (take (same_dest m x xs) xs) \<Longrightarrow> y = x"
  by (induction m x xs rule: same_dest.induct) (auto split: if_splits)

text \<open>A run ends where it must: at the limit, at the end or before another destination.\<close>

lemma same_dest_max:
  "same_dest m x xs = m \<or> same_dest m x xs = length xs \<or> xs ! same_dest m x xs \<noteq> x"
  by (induction m x xs rule: same_dest.induct) auto

lemma batches_step:
  assumes "reqs \<noteq> []" "0 < m" and "c = same_dest m (snd (hd reqs)) (map snd reqs)"
  shows "0 < c" "c \<le> m" "c \<le> length reqs" "\<forall>q \<in> set (take c reqs). snd q = snd (hd reqs)"
    "batches m reqs = take c reqs # batches m (drop c reqs)"
proof -
  obtain r rs where r: "reqs = r # rs" using assms(1) by (cases reqs) auto
  show "0 < c" "c \<le> m" "c \<le> length reqs"
    using same_dest_pos [OF assms(2), of "snd r" "map snd rs"] same_dest_le [of m "snd r" "map snd reqs"] assms(3) r by auto
  show "\<forall>q \<in> set (take c reqs). snd q = snd (hd reqs)"
  proof
    fix q assume "q \<in> set (take c reqs)"
    then have "snd q \<in> set (take c (map snd reqs))" by (simp add: take_map)
    then show "snd q = snd (hd reqs)" unfolding assms(3) by (rule same_dest_all)
  qed
  show "batches m reqs = take c reqs # batches m (drop c reqs)"
    using assms by (subst batches.simps) (simp add: Let_def)
qed

lemma batches_spec:
  "0 < m \<Longrightarrow> concat (batches m reqs) = reqs \<and>
    (\<forall>b \<in> set (batches m reqs). b \<noteq> [] \<and> length b \<le> m \<and> (\<forall>r \<in> set b. snd r = snd (hd b)))"
proof (induction "length reqs" arbitrary: reqs rule: less_induct)
  case less
  show ?case
  proof (cases "reqs = []")
    case False
    define c where "c = same_dest m (snd (hd reqs)) (map snd reqs)"
    note st = batches_step [OF False less.prems c_def]
    have hd: "hd (take c reqs) = hd reqs" using st(1) False by simp
    have ne: "take c reqs \<noteq> []" "length (take c reqs) \<le> m" using st(1-3) False by auto
    have "length (drop c reqs) < length reqs" using st(1) False by simp
    note IH = conjunct1 [OF less.hyps [OF this less.prems]] conjunct2 [OF less.hyps [OF this less.prems]]
    have "concat (batches m reqs) = reqs" unfolding st(5) concat.simps IH(1) by (rule append_take_drop_id)
    moreover have "\<forall>r \<in> set (take c reqs). snd r = snd (hd (take c reqs))" using st(4) unfolding hd .
    then have "\<forall>b \<in> set (batches m reqs). b \<noteq> [] \<and> length b \<le> m \<and> (\<forall>r \<in> set b. snd r = snd (hd b))"
      using IH(2) ne unfolding st(5) by (intro ballI) (elim set_ConsD [elim_format] disjE, metis, blast)
    ultimately show ?thesis by blast
  qed (simp add: batches.simps)
qed

lemma of_nat_small: "k \<le> unat (x :: u32) \<Longrightarrow> unat (of_nat k :: u32) = k"
  using unsigned_less [of x, where ?'a = nat] by (simp add: unat_of_nat)

lemma cm_post_send_take:
  assumes "c \<le> unat (SND_WR_MAX n)" "c \<le> length crs"
  shows "cm_post_send n mem crs (of_nat c) dlid ctx h = cm_post_send n mem (take c crs) (of_nat c) dlid ctx h"
  using assms of_nat_small [OF assms(1)] by (simp add: cm_post_send_def)

lemma rdma_connect_batches:
  assumes "0 < unat (SND_WR_MAX n)"
  shows "rdma_connect n mem reqs ctx h = Some (post_batches n mem (batches (unat (SND_WR_MAX n)) reqs) ctx h)"
proof (induction "length reqs" arbitrary: reqs ctx h rule: less_induct)
  case less
  show ?case
  proof (cases "reqs = []")
    case True
    then show ?thesis by (subst rdma_connect.simps) (simp add: batches.simps)
  next
    case False
    define c where "c = same_dest (unat (SND_WR_MAX n)) (snd (hd reqs)) (map snd reqs)"
    note st = batches_step [OF False assms c_def]
    have hd: "hd (take c reqs) = hd reqs" "min (length reqs) c = c" using st(1,3) False by auto
    have post: "cm_post_send n mem (map fst reqs) (of_nat c) (snd (hd reqs)) ctx h =
        cm_post_send n mem (map fst (take c reqs)) (of_nat c) (snd (hd reqs)) ctx h"
      using cm_post_send_take [of c n "map fst reqs"] st(2,3) by (simp add: take_map)
    have len: "length (drop c reqs) < length reqs" using st(1) False by simp
    show ?thesis
      using False less.hyps [OF len]
      by (subst rdma_connect.simps) (simp add: c_def [symmetric] Let_def post st(5) hd ebind_def split: sum.splits)
  qed
qed

section \<open>Properties\<close>

text \<open>
  C30. Connection requests are sent, all of them and in order: whenever at least one may be sent at a
  time, the loop ends after handing on the whole list cut into runs that have one destination each
  and are not longer than the limit.
\<close>

theorem connect_in_batches:
  assumes "SND_WR_MAX n \<noteq> 0"
  shows "\<exists>bs. rdma_connect n mem reqs ctx h = Some (post_batches n mem bs ctx h) \<and> concat bs = reqs \<and>
    (\<forall>b \<in> set bs. b \<noteq> [] \<and> length b \<le> unat (SND_WR_MAX n) \<and> (\<forall>r \<in> set b. snd r = snd (hd b)))"
proof -
  have "0 < unat (SND_WR_MAX n)" using assms by (simp add: unat_gt_0)
  then show ?thesis using rdma_connect_batches batches_spec by blast
qed

abbreviation (input) "ex_mem \<equiv> (\<lambda>_ :: nat. ex_wqe 0)"
abbreviation (input) "ex_reqs \<equiv> [(sync_cr 1, 7), (sync_cr 2, 7), (sync_cr 3, 7), (sync_cr 4, 8 :: u16)]"

lemma connect_in_batches_witness:
  "\<exists>bs. rdma_connect 20 ex_mem ex_reqs ex_ctx (ex_driver, dev0) = Some (post_batches 20 ex_mem bs ex_ctx (ex_driver, dev0)) \<and>
    concat bs = ex_reqs \<and> (\<forall>b \<in> set bs. length b \<le> 2)"
proof -
  have "SND_WR_MAX 20 = 2" by (simp add: SND_WR_MAX_def)
  then show ?thesis using connect_in_batches [of 20 ex_mem ex_reqs ex_ctx "(ex_driver, dev0)"] by auto
qed

text \<open>
  C33. With 36 to 70 clients nothing can be sent: the limit of requests sent at a time becomes 0, so
  that connecting reads the first element of an array of none, and the synchronisation fails an assertion.
\<close>

theorem no_room_to_send:
  assumes "36 \<le> n" "n \<le> 70" and "reqs \<noteq> []" and "rs_rinfo resc \<noteq> []"
  shows "SND_WR_MAX n = 0 \<and> rdma_connect n mem reqs ctx h = Some (Inl (Undefined ''wqe[] index'')) \<and>
    post_sync n mem resc h = Inl (Assert_failed ''wr_num < SND_WR_MAX'')"
proof -
  have n: "36 \<le> unat n" "unat n \<le> 70" using assms(1,2) by (simp_all add: word_le_nat_alt)
  have "unat (70 div n) = 70 div unat n" by (simp add: unat_div)
  also have "\<dots> = 1" using n by (intro div_nat_eqI) auto
  finally have d: "70 div n = 1" by (metis unat_1 word_unat_eq_iff)
  then have z: "SND_WR_MAX n = 0" by (simp add: SND_WR_MAX_def)
  have nz: "n \<noteq> 0" using n by auto
  have "same_dest 0 x xs = 0" for x xs by (cases xs) auto
  then have "rdma_connect n mem reqs ctx h = Some (Inl (Undefined ''wqe[] index''))"
    using assms(3) nz by (subst rdma_connect.simps) (simp add: z cm_post_send_def ibv_post_send_def)
  moreover have "post_sync n mem resc h = Inl (Assert_failed ''wr_num < SND_WR_MAX'')"
    using assms(4) nz by (cases "rs_rinfo resc") (simp_all add: post_sync_def cm_post_send_def z)
  ultimately show ?thesis using z by blast
qed

definition ex_resc :: "u8 \<Rightarrow> rdma_resc" where
  "ex_resc f = \<lparr>rs_ctx = ex_ctx, rs_num_mr = 0, rs_num_cq = 0, rs_num_qp = 0, rs_num_rem = 1, rs_mr = [], rs_cq = [], rs_qp = [],
     rs_rinfo = [\<lparr>ri_raddr = 0, ri_rkey = 0, ri_dlid = 2, ri_start_off = 0, ri_sum = 0, ri_sync_flag = f\<rparr>], rs_desc = [],
     rs_cpu_id = 0\<rparr>"

lemma no_room_to_send_witness:
  "rdma_connect 40 ex_mem ex_reqs ex_ctx (ex_driver, dev0) = Some (Inl (Undefined ''wqe[] index'')) \<and>
    post_sync 40 ex_mem (ex_resc 0) (ex_driver, dev0) = Inl (Assert_failed ''wr_num < SND_WR_MAX'')"
  using no_room_to_send [of 40 ex_reqs "ex_resc 0" ex_mem ex_ctx "(ex_driver, dev0)"] by (simp add: ex_resc_def)



text \<open>
  The steps of the library on the page: posting, reading what the device has completed (at most the
  outstanding receive requests), and polling, which moves on the completion queue.
\<close>

inductive cm_step :: "u32 \<Rightarrow> ibv_context \<times> host \<Rightarrow> ibv_context \<times> host \<Rightarrow> bool" for n where
  post_recv: "cm_post_recv mem m ctx h = Inr (i, ctx', h') \<Longrightarrow> cm_step n (ctx, h) (ctx', h')"
| post_send: "cm_post_send n mem crs m dlid ctx h = Inr (ctx', h') \<Longrightarrow> cm_step n (ctx, h) (ctx', h')"
| listen: "listen_crs m ri ctx h = Inr (crs, ri', ctx', h') \<Longrightarrow> m \<le> unat (cm_rcv_num ctx) \<Longrightarrow> cm_step n (ctx, h) (ctx', h')"
| sync: "sync_crs m p ri ctx h = Inr (c, p', ri', ctx', h') \<Longrightarrow> m \<le> unat (cm_rcv_num ctx) \<Longrightarrow> cm_step n (ctx, h) (ctx', h')"
| poll: "ibv_poll_cpl m (cm_cq ctx) h = Inr (ds, cq, h') \<Longrightarrow> cm_step n (ctx, h) (ctx\<lparr>cm_cq := cq\<rparr>, h')"
| device: "cm_step n (ctx, (d, s)) (ctx, (d, s'))"

lemma cm_step_ok: "cm_step n x y \<Longrightarrow> cm_ok n (fst x) \<Longrightarrow> cm_ok n (fst y)"
proof (induction rule: cm_step.induct)
  case (post_recv mem m ctx h i ctx' h')
  then show ?case using recv_wqes_ok [of n ctx m 0 mem] by (auto simp: cm_post_recv_def Let_def ebind_Inr)
next
  case (post_send mem crs m dlid ctx h ctx' h')
  then show ?case by (auto simp: cm_post_send_def ebind_Inr ensure_Inr dest: send_wqes_ok)
qed (auto dest: listen_crs_ok sync_crs_ok)

lemma cm_steps_ok: "(cm_step n)\<^sup>*\<^sup>* x y \<Longrightarrow> cm_ok n (fst x) \<Longrightarrow> cm_ok n (fst y)"
  by (induction rule: rtranclp_induct) (auto dest: cm_step_ok)


definition ex_cm :: ibv_context where
  "ex_cm = ex_ctx\<lparr>cm_snd_off := 3000, cm_qp := zero_qp\<lparr>iqp_rcv_mr := zero_mr\<lparr>ib_addr := mailbox_vaddr ex_driver, ib_length := 4096\<rparr>\<rparr>\<rparr>"


end
