(* ===== verification/Translate.thy ===== *)
theory Translate
  imports Mr
begin

text \<open>
  Address translation of the memory region module, from the protection entry of a request to the
  translation entry it is looked up with.
\<close>

lemma mtt_request:
  "rc_reqFifo (mttCache (mrRescModule (mttReqProcess i r s))) = rc_reqFifo (mttCache (mrRescModule s)) @
     [\<lparr>cr_cplEvent = Some MttRspEvent, cr_rescIdx = ucast i, cr_rescDma = None, cr_reqPkt = r, cr_dmaReq = None,
       cr_rspResc = None, cr_rescUpdate = None\<rparr>]"
  by (simp add: mttReqProcess_def on_mtt_def rescRead_def Let_def upd_mrM_def)

lemma sched_next_if_mr [simp]: "mrRescModule (sched_next_if c e s) = mrRescModule s"
  by (simp add: sched_next_if_def sched_next_def sched_at_def)


text \<open>A request one page into a region of two pages.\<close>

definition ex_mr_req :: MrReqRsp where
  "ex_mr_req = new_MrReqRsp DMA_TYPE_RREQ MR_RCHNL_TX_DATA 3 64 0x1008"

definition ex_two_pages :: rnic where
  "ex_two_pages = upd_mrM (\<lambda>m. m\<lparr>mptCache := (mptCache m)\<lparr>rc_rrspFifo := [(0, ex_mr_req)]\<rparr>\<rparr>)
     (dev0\<lparr>heap := [Some (OMpt \<lparr>mpt_flag = 1, mpt_key = 3, mpt_startVAddr = 0, mpt_length = 0x2000, mpt_mttSeg = 7\<rparr>)]\<rparr>)"


end
