(* ===== verification/Spec2Isabelle.thy ===== *)
theory Spec2Isabelle
  imports QpcInv Device Delivery Barrier Poll RecvRing Commands Connect Translate
begin

text \<open>
  A verification development for the HanGu RDMA network interface card, as the gem5 simulator runs it:
  the device (\<^verbatim>\<open>src/system-level/src/dev/rdma/\<close>, \<^verbatim>\<open>hangu_rnic.cc\<close>, \<^verbatim>\<open>hangu_rnic.hh\<close>, \<^verbatim>\<open>hangu_rnic_defs.hh\<close>), its emulated kernel driver (\<^verbatim>\<open>hangu_driver.cc\<close>)
  and the user-space libraries that programs link with (\<^verbatim>\<open>libhgrnic.c\<close>, \<^verbatim>\<open>librdma.c\<close>, in
  \<^verbatim>\<open>src/system-level/tests/test-progs/hangu-rnic-isolated/src/\<close>). The source file and lines of every definition are listed in the
  manifest next to the theories.

  \<^bold>\<open>How the parts interact.\<close> A program calls the verbs library, which asks the driver for resources
  (\<open>Verbs\<close> to \<open>Driver\<close>, over \<open>ioctl\<close>) and posts descriptors into rings in its own memory, ringing a
  doorbell register. The driver hands out resource numbers, backs them with pages of context memory and
  writes commands, with data in a mailbox, to the command register. The device (\<open>Rnic\<close>) is a set of
  units that run on events: the command and doorbell unit (\<open>Ccu\<close>), the context, protection and completion
  queue modules with their caches (\<open>Qpc\<close>, \<open>Mr\<close>, \<open>Cqc\<close>), the DMA engine (\<open>Dma\<close>), the link (\<open>Eth\<close>), and the
  RDMA engine, whose transmit side (\<open>EngineTx\<close>) fetches and cuts messages into packets, whose window
  (\<open>EngineWin\<close>) generates requests and takes acknowledgements, and whose receive side (\<open>EngineRx\<close>) serves requests.
  The connection library (\<open>Cm\<close>) exchanges connection requests as datagrams over the same path.

  \<^bold>\<open>Which theory models what.\<close>
  \<^item> \<open>Prelude\<close>: machine integers, the result type \<open>res\<close> with a value for every assertion, panic and
    undefined behaviour, the unordered map with open iteration order behind the locale \<open>assoc_map\<close>,
    sequences of actions with the locale \<open>in_order_service\<close>. Further interfaces are the locales
    \<open>context_cache\<close>, \<open>pending_queue\<close> and \<open>credit_pool\<close>, each interpreted on the model's operations.
  \<^item> \<open>Bitfield\<close>, \<open>Defs\<close>, \<open>Layout\<close>: \<^verbatim>\<open>src/system-level/src/base/bitfield.hh\<close>, the structures and constants of \<^verbatim>\<open>hangu_rnic_defs.hh\<close>, and their bytes
    behind the locale \<open>codec\<close>.
  \<^item> \<open>Sim\<close>, \<open>Mem\<close>: event queue, heap of the device, host memory, packets.
  \<^item> \<open>Icm\<close>, \<open>QpcCache\<close>, \<open>Pending\<close>, \<open>RescCache\<close>: \<^verbatim>\<open>IcmManage\<close>, \<^verbatim>\<open>Cache\<close>, \<^verbatim>\<open>PendingStruct\<close> and \<^verbatim>\<open>RescCache\<close>.
  \<^item> \<open>State\<close>, \<open>Init\<close>: the members of the classes and the state after construction.
  \<^item> \<open>Qpc\<close>, \<open>Mr\<close>, \<open>Cqc\<close>, \<open>Dma\<close>, \<open>Eth\<close>, \<open>Ccu\<close>, \<open>EngineTx\<close>, \<open>EngineWin\<close>, \<open>EngineRx\<close>: one theory per
    unit, one definition per event handler, with its guards and early returns.
  \<^item> \<open>Rnic\<close>: the handler of every event and the steps of the device among its surroundings.
  \<^item> \<open>Driver\<close>: every ioctl, open and mmap; \<open>Verbs\<close>: every call of \<^verbatim>\<open>libhgrnic.c\<close>; \<open>Cm\<close>: every call of \<^verbatim>\<open>librdma.c\<close>.

  \<^bold>\<open>What the lemmas show.\<close>
  \<^item> \<open>Device\<close> (with \<open>Frame\<close>, \<open>Credits\<close>): over all states the device can reach, whatever host, link and order of
    events, credits are conserved, indices handed to the units are valid, the send window is bounded.
  \<^item> \<open>EngineTx\<close>: message slicing sends what the baseline loop sends and serves both slots; \<open>Window\<close>: what an
    acknowledgement releases and when the unit panics; \<open>Delivery\<close>: a request and its acknowledgement from
    one device to the other; \<open>RescCache\<close>, \<open>QpcCache\<close>, \<open>QpcInv\<close>, \<open>Icm\<close>: the caches and context tables.
  \<^item> \<open>Host\<close>: commands from the driver to the device, numbers and pages; \<open>Barrier\<close>: the barrier of the
    processors in every interleaving.
  \<^item> \<open>SendRing\<close>, \<open>RecvRing\<close>, \<open>Poll\<close>: the send, receive and completion rings, both sides together; \<open>Connect\<close>: the
    connection library; \<open>Commands\<close>: commands of the verbs library return, and regions get matching numbers.
  \<^item> \<open>Translate\<close>: what the memory region module makes of the offset of a request.
  \<^item> Several theorems show where the code does not do what it is meant to: first packets of long
    writes, sequence numbers past 24 bits, overtaken reads, datagram completions, replacement of
    contexts, queue pair numbers of neighbouring processes, completion descriptors of the baseline library,
    synchronisation that is never reset, limits of the number of clients, and accesses behind the first page of a region.

  \<^bold>\<open>Bounds and termination.\<close> Integers are words of the source's width; ticks are unbounded. Loops are
  structural or come with a termination proof. The scan for a free page of context memory has as
  many rounds as pages are mapped, which is enough to find one. Loops that wait for the device
  return an option, with None for not returning, and take the device's next step as a parameter.

  \<^bold>\<open>Choices of the model.\<close> A DMA transfer moves its data when the channel processes it. Objects behind
  pointers live on an explicit heap. What \<^verbatim>\<open>malloc\<close> and \<^verbatim>\<open>memalign\<close> return is a parameter. The page
  table, the end of the mapped area and the page counter that the driver uses of the simulator are
  part of the driver's state.

  \<^bold>\<open>Not modelled.\<close> Checkpoints but for the registers, statistics, log output and PCI configuration, which are
  inherited from the simulator; the rest of gem5, which is a third-party program; the benchmark
  programs, which only call the libraries; and the Verilog under \<^verbatim>\<open>src/circuit-level\<close>, a separate
  implementation in clocked hardware of the transmit path.
\<close>

section \<open>Properties that span components\<close>



end
